(* ===== verification/Prelude.thy ===== *)
theory Prelude
  imports Main "HOL-Library.AList" "HOL-Library.List_Lexorder" "HOL-Library.Char_ord"
    "HOL-Library.Sublist" "HOL-Library.Product_Lexorder"
begin

text \<open>
  Shared vocabulary of the development: Go maps as association lists, the error-or-value
  results of Go functions, and the few functions of the Go standard library that the
  repository calls on strings and numbers (\<open>strings.TrimSpace\<close>, \<open>HasPrefix\<close>, \<open>Split\<close>,
  \<open>Join\<close>, \<open>strconv.Itoa\<close> and \<open>Atoi\<close>), with the facts about them that the components use.

  A Go string is a sequence of bytes and so is a HOL \<^typ>\<open>string\<close>: equality, length and the
  order of \<open>sort.Strings\<close> are bytewise in both.
\<close>

section \<open>Collections of facts\<close>

named_theorems go_simps \<open>unfolding rules for the small Go library functions\<close>
named_theorems frame_simps \<open>what an operation leaves unchanged\<close>

section \<open>Maps\<close>

text \<open>
  A Go map is an association list with distinct keys. Go leaves the order in which \<open>range\<close>
  visits a map open; a theorem about every association list is a theorem about every such
  order, so results of \<open>range\<close> loops are only ever described as sets, as sorted lists or up
  to permutation.
\<close>

type_synonym ('k, 'v) gomap = "('k \<times> 'v) list"

definition wf_gomap :: "('k, 'v) gomap \<Rightarrow> bool" where
  "wf_gomap m \<longleftrightarrow> distinct (map fst m)"

text \<open>A Go set \<open>map[string]bool\<close> whose stored values are all \<open>true\<close> is the list of its keys; a
  lookup in a map of such sets yields the empty (nil) set for a missing key.\<close>

definition lookup_set :: "('k, 'a list) gomap \<Rightarrow> 'k \<Rightarrow> 'a list" where
  "lookup_set m k = (case map_of m k of None \<Rightarrow> [] | Some xs \<Rightarrow> xs)"

lemma wf_gomap_Nil [simp]: "wf_gomap []"
  by (simp add: wf_gomap_def)

lemma wf_gomap_update [simp]: "wf_gomap m \<Longrightarrow> wf_gomap (AList.update k v m)"
  by (simp add: wf_gomap_def distinct_update)

lemma wf_gomap_delete [simp]: "wf_gomap m \<Longrightarrow> wf_gomap (AList.delete k m)"
  by (simp add: wf_gomap_def distinct_delete)

lemma wf_gomap_map_snd [simp]: "wf_gomap (map (\<lambda>(k, v). (k, f v)) m) \<longleftrightarrow> wf_gomap m"
  by (simp add: wf_gomap_def comp_def case_prod_beta)

lemma wf_gomap_in_iff: "wf_gomap m \<Longrightarrow> (k, v) \<in> set m \<longleftrightarrow> map_of m k = Some v"
  by (simp add: wf_gomap_def)

lemma map_of_map_snd: "map_of (map (\<lambda>(k, v). (k, f v)) m) k = map_option f (map_of m k)"
  by (induction m) auto

lemma gomap_of_update [simp]: "map_of (AList.update k v m) = (map_of m)(k \<mapsto> v)"
  by (rule update_conv')

lemma gomap_of_delete [simp]: "map_of (AList.delete k m) = (map_of m)(k := None)"
  by (rule delete_conv')

lemma lookup_set_update [simp]:
  "lookup_set (AList.update k v m) k' = (if k' = k then v else lookup_set m k')"
  by (simp add: lookup_set_def)

lemma lookup_set_delete [simp]:
  "lookup_set (AList.delete k m) k' = (if k' = k then [] else lookup_set m k')"
  by (simp add: lookup_set_def)

lemma lookup_set_map_snd:
  "f [] = [] \<Longrightarrow> lookup_set (map (\<lambda>(k, v). (k, f v)) m) k = f (lookup_set m k)"
  by (simp add: lookup_set_def map_of_map_snd split: option.splits)

lemma lookup_set_Nil [simp]: "lookup_set [] k = []"
  by (simp add: lookup_set_def)

section \<open>Results\<close>

text \<open>
  A Go function with results \<open>(T, error)\<close> yields \<open>Inl\<close> of the error or \<open>Inr\<close> of the value.
  \<open>attempt r f\<close> is the source's \<open>if err != nil { return err }\<close> followed by the rest \<open>f\<close>.
\<close>

definition attempt :: "'e + 'a \<Rightarrow> ('a \<Rightarrow> 'e + 'b) \<Rightarrow> 'e + 'b" where
  "attempt r f = (case r of Inl e \<Rightarrow> Inl e | Inr a \<Rightarrow> f a)"

lemma attempt_simps [simp]: "attempt (Inl e) f = Inl e" "attempt (Inr a) f = f a"
  by (simp_all add: attempt_def)

lemma attempt_eq_Inr [simp]: "attempt r f = Inr b \<longleftrightarrow> (\<exists>a. r = Inr a \<and> f a = Inr b)"
  by (cases r) auto

lemma attempt_eq_Inl: "attempt r f = Inl e \<longleftrightarrow> r = Inl e \<or> (\<exists>a. r = Inr a \<and> f a = Inl e)"
  by (cases r) auto

lemma attempt_assoc: "attempt (attempt r f) g = attempt r (\<lambda>a. attempt (f a) g)"
  by (cases r) auto

lemma attempt_cong [fundef_cong]:
  "r = r' \<Longrightarrow> (\<And>a. r' = Inr a \<Longrightarrow> f a = f' a) \<Longrightarrow> attempt r f = attempt r' f'"
  by (cases r') auto

text \<open>A loop that stops at the first error and collects the values otherwise.\<close>

fun collect :: "('a \<Rightarrow> 'e + 'b) \<Rightarrow> 'a list \<Rightarrow> 'e + 'b list" where
  "collect f [] = Inr []"
| "collect f (x # xs) = attempt (f x) (\<lambda>y. attempt (collect f xs) (\<lambda>ys. Inr (y # ys)))"

lemma collect_Inr_iff:
  "collect f xs = Inr ys \<longleftrightarrow> list_all2 (\<lambda>x y. f x = Inr y) xs ys"
  by (induction xs arbitrary: ys) (auto simp: list_all2_Cons1)

lemma attempt_Inr_id [simp]: "attempt r (\<lambda>x. Inr x) = r"
  by (cases r) simp_all

lemma collect_Inr_in: "collect f xs = Inr ys \<Longrightarrow> y \<in> set ys \<Longrightarrow> \<exists>x \<in> set xs. f x = Inr y"
  by (induction xs arbitrary: ys) auto

lemma in_collect_Inr: "collect f xs = Inr ys \<Longrightarrow> x \<in> set xs \<Longrightarrow> \<exists>y \<in> set ys. f x = Inr y"
  by (induction xs arbitrary: ys) auto

lemma collect_append:
  "collect f (xs @ ys) = attempt (collect f xs) (\<lambda>as. attempt (collect f ys) (\<lambda>bs. Inr (as @ bs)))"
proof (induction xs)
  case Nil
  show ?case by (cases "collect f ys") auto
next
  case (Cons x xs)
  then show ?case by (cases "f x"; cases "collect f xs"; cases "collect f ys") auto
qed

section \<open>Strings\<close>

text \<open>\<open>strings.HasPrefix(s, p)\<close>.\<close>

definition HasPrefix :: "string \<Rightarrow> string \<Rightarrow> bool" where
  "HasPrefix s p \<longleftrightarrow> prefix p s"

lemma HasPrefix_append [simp]: "HasPrefix (p @ s) p"
  by (simp add: HasPrefix_def)

text \<open>
  \<open>strings.TrimSpace\<close> removes leading and trailing characters of the Unicode class White_Space.
  These are the UTF-8 encodings of U+0009..U+000D, U+0020, U+0085, U+00A0, U+1680,
  U+2000..U+200A, U+2028, U+2029, U+202F, U+205F and U+3000.
\<close>

definition white_space :: "string list" where
  "white_space =
     map (\<lambda>n. [char_of n]) [9, 10, 11, 12, 13, 32 :: nat] @
     [[CHR 0xC2, CHR 0x85], [CHR 0xC2, CHR 0xA0], [CHR 0xE1, CHR 0x9A, CHR 0x80]] @
     map (\<lambda>n. [CHR 0xE2, CHR 0x80, char_of n]) ([0x80 ..< 0x8B] @ [0xA8, 0xA9, 0xAF :: nat]) @
     [[CHR 0xE2, CHR 0x81, CHR 0x9F], [CHR 0xE3, CHR 0x80, CHR 0x80]]"

definition strip_one :: "string list \<Rightarrow> string \<Rightarrow> string option" where
  "strip_one ws s = (case find (\<lambda>w. prefix w s) ws of None \<Rightarrow> None | Some w \<Rightarrow> Some (drop (length w) s))"

text \<open>Strip one white-space character after the other; the string's length bounds their number.\<close>

fun strip_upto :: "nat \<Rightarrow> string list \<Rightarrow> string \<Rightarrow> string" where
  "strip_upto 0 ws s = s"
| "strip_upto (Suc n) ws s = (case strip_one ws s of None \<Rightarrow> s | Some s' \<Rightarrow> strip_upto n ws s')"

definition trim_left :: "string \<Rightarrow> string" where
  "trim_left s = strip_upto (length s) white_space s"

definition trim_right :: "string \<Rightarrow> string" where
  "trim_right s = rev (strip_upto (length s) (map rev white_space) (rev s))"

definition TrimSpace :: "string \<Rightarrow> string" where
  "TrimSpace s = trim_right (trim_left s)"

lemma white_space_nonempty: "w \<in> set white_space \<Longrightarrow> w \<noteq> []"
  by (auto simp: white_space_def)

lemma strip_one_shorter:
  assumes "[] \<notin> set ws" "strip_one ws s = Some s'"
  shows "length s' < length s"
proof -
  obtain w where w: "find (\<lambda>w. prefix w s) ws = Some w" "s' = drop (length w) s"
    using assms(2) by (auto simp: strip_one_def split: option.splits)
  then have "w \<in> set ws" "prefix w s" by (auto simp: find_Some_iff)
  with assms(1) have "w \<noteq> []" "length w \<le> length s" by (auto dest: prefix_length_le)
  then have "0 < length w" by simp
  with \<open>length w \<le> length s\<close> have "length s - length w < length s" by linarith
  with w(2) show ?thesis by simp
qed

text \<open>The fuel is enough: what is left has no white space at the end that is stripped.\<close>

lemma strip_upto_done:
  "[] \<notin> set ws \<Longrightarrow> length s \<le> n \<Longrightarrow> strip_one ws (strip_upto n ws s) = None"
proof (induction n arbitrary: s)
  case 0
  then show ?case
    by (auto simp: strip_one_def find_None_iff split: option.splits dest!: find_Some_iff [THEN iffD1])
next
  case (Suc n)
  show ?case
  proof (cases "strip_one ws s")
    case (Some s')
    with Suc.prems have "length s' \<le> n" using strip_one_shorter [of ws s s'] by simp
    with Suc.IH Suc.prems(1) Some show ?thesis by simp
  qed simp
qed

lemma strip_upto_None: "strip_one ws s = None \<Longrightarrow> strip_upto n ws s = s"
  by (cases n) auto

lemma strip_upto_suffix: "suffix (strip_upto n ws s) s"
proof (induction n arbitrary: s)
  case (Suc n)
  show ?case
  proof (cases "strip_one ws s")
    case (Some s')
    then have "suffix s' s" by (auto simp: strip_one_def suffix_drop split: option.splits)
    with Suc.IH [of s'] Some show ?thesis by (auto intro: suffix_order.trans)
  qed simp
qed simp


lemma strip_one_None_iff: "strip_one ws s = None \<longleftrightarrow> (\<forall>w \<in> set ws. \<not> prefix w s)"
  by (auto simp: strip_one_def find_None_iff split: option.splits dest!: find_Some_iff [THEN iffD1])

lemma rev_white_space_nonempty: "[] \<notin> set (map rev white_space)" "[] \<notin> set white_space"
  using white_space_nonempty by auto

text \<open>A string with no white space at either end is left alone, and every result is one.\<close>

definition clean :: "string \<Rightarrow> bool" where
  "clean s \<longleftrightarrow> (\<forall>w \<in> set white_space. \<not> prefix w s \<and> \<not> suffix w s)"

lemma TrimSpace_clean: "clean s \<Longrightarrow> TrimSpace s = s"
  by (simp add: clean_def TrimSpace_def trim_left_def trim_right_def strip_upto_None
      strip_one_None_iff suffix_to_prefix)

text \<open>For concrete strings it is enough to look at the outer characters.\<close>

definition printable :: "char \<Rightarrow> bool" where
  "printable c \<longleftrightarrow> 33 \<le> (of_char c :: nat) \<and> (of_char c :: nat) < 127"

lemma white_space_outer: "w \<in> set white_space \<Longrightarrow> \<not> printable (hd w) \<and> \<not> printable (last w)"
  by (auto simp: white_space_def printable_def)

lemma TrimSpace_printable:
  assumes "s = '''' \<or> printable (hd s) \<and> printable (last s)"
  shows "TrimSpace s = s"
proof (rule TrimSpace_clean)
  show "clean s"
    unfolding clean_def
  proof (intro ballI conjI notI)
    fix w assume w: "w \<in> set white_space"
    then have nonempty: "w \<noteq> ''''" by (rule white_space_nonempty)
    show False if "prefix w s"
    proof -
      from that nonempty have "s \<noteq> ''''" "hd s = hd w" by (auto simp: prefix_def)
      with assms white_space_outer [OF w] show False by auto
    qed
    show False if "suffix w s"
    proof -
      from that nonempty have "s \<noteq> ''''" "last s = last w" by (auto simp: suffix_def)
      with assms white_space_outer [OF w] show False by auto
    qed
  qed
qed

lemma clean_TrimSpace: "clean (TrimSpace s)"
proof -
  let ?t = "trim_left s"
  let ?u = "trim_right ?t"
  have left: "\<not> prefix w ?t" if "w \<in> set white_space" for w
    using strip_upto_done [of white_space s "length s"] that rev_white_space_nonempty
    by (simp add: trim_left_def strip_one_None_iff)
  have right: "\<not> suffix w ?u" if "w \<in> set white_space" for w
    using strip_upto_done [of "map rev white_space" "rev ?t" "length ?t"] that
      rev_white_space_nonempty
    by (simp add: trim_right_def strip_one_None_iff suffix_to_prefix)
  have "prefix ?u ?t"
    using strip_upto_suffix [of "length ?t" "map rev white_space" "rev ?t"]
    by (simp add: trim_right_def suffix_to_prefix)
  then have "\<not> prefix w ?u" if "w \<in> set white_space" for w
    using left [OF that] prefix_order.trans by blast
  with right show ?thesis by (simp add: clean_def TrimSpace_def)
qed

lemma TrimSpace_idem [simp]: "TrimSpace (TrimSpace s) = TrimSpace s"
  by (rule TrimSpace_clean) (rule clean_TrimSpace)

lemma TrimSpace_Nil [simp]: "TrimSpace [] = []"
  by (simp add: TrimSpace_def trim_left_def trim_right_def)

text \<open>\<open>strings.Split(s, sep)\<close> for a separator of one byte, and \<open>strings.Join(parts, sep)\<close>.\<close>

fun split_on :: "char \<Rightarrow> string \<Rightarrow> string list" where
  "split_on c [] = [[]]"
| "split_on c (x # xs) =
     (if x = c then [] # split_on c xs
      else (case split_on c xs of [] \<Rightarrow> [[x]] | y # ys \<Rightarrow> (x # y) # ys))"

fun join_with :: "string \<Rightarrow> string list \<Rightarrow> string" where
  "join_with sep [] = []"
| "join_with sep [x] = x"
| "join_with sep (x # y # ys) = x @ sep @ join_with sep (y # ys)"

lemma split_on_nonempty: "split_on c s \<noteq> []"
  by (induction s) (auto split: list.splits)

lemma join_split_on: "join_with [c] (split_on c s) = s"
proof (induction s)
  case (Cons x xs)
  then show ?case
    using split_on_nonempty [of c xs]
    by (cases "split_on c xs"; cases "tl (split_on c xs)") auto
qed simp

section \<open>Integers\<close>

text \<open>
  Go's \<open>int\<close> and \<open>int64\<close> have 64 bits: a sum wraps around. \<open>strconv.Itoa\<close> prints in base 10;
  \<open>strconv.Atoi\<close> accepts an optional sign and at least one digit, and fails on anything else and
  on values out of range.
\<close>

definition wrap64 :: "int \<Rightarrow> int" where
  "wrap64 x = (x + 2 ^ 63) mod 2 ^ 64 - 2 ^ 63"

definition in_int64 :: "int \<Rightarrow> bool" where
  "in_int64 x \<longleftrightarrow> - (2 ^ 63) \<le> x \<and> x < 2 ^ 63"

lemma wrap64_id: "in_int64 x \<Longrightarrow> wrap64 x = x"
  by (simp add: wrap64_def in_int64_def)

lemma in_int64_small: "0 \<le> x \<Longrightarrow> x < 2 ^ 62 \<Longrightarrow> in_int64 x"
  by (simp add: in_int64_def)

lemma in_int64_wrap64: "in_int64 (wrap64 x)"
  using pos_mod_bound [of "2 ^ 64" "x + 2 ^ 63"] pos_mod_sign [of "2 ^ 64" "x + 2 ^ 63"]
  by (simp add: in_int64_def wrap64_def)

fun nat_digits :: "nat \<Rightarrow> string" where
  "nat_digits n =
     (if n < 10 then [char_of (48 + n)] else nat_digits (n div 10) @ [char_of (48 + n mod 10)])"

declare nat_digits.simps [simp del]

definition Itoa :: "int \<Rightarrow> string" where
  "Itoa i = (if i < 0 then ''-'' @ nat_digits (nat (- i)) else nat_digits (nat i))"

definition digit_val :: "char \<Rightarrow> nat option" where
  "digit_val c = (let n = of_char c in if 48 \<le> n \<and> n \<le> (57 :: nat) then Some (n - 48) else None)"

fun parse_digits :: "nat \<Rightarrow> string \<Rightarrow> nat option" where
  "parse_digits acc [] = Some acc"
| "parse_digits acc (c # cs) =
     (case digit_val c of None \<Rightarrow> None | Some d \<Rightarrow> parse_digits (10 * acc + d) cs)"

definition Atoi :: "string \<Rightarrow> int option" where
  "Atoi s =
     (let (neg, ds) = (case s of [] \<Rightarrow> (False, [])
                       | c # cs \<Rightarrow> if c = CHR ''-'' then (True, cs)
                                  else if c = CHR ''+'' then (False, cs) else (False, s))
      in if ds = [] then None
         else case parse_digits 0 ds of None \<Rightarrow> None
              | Some n \<Rightarrow> (let v = (if neg then - int n else int n)
                          in if in_int64 v then Some v else None))"

lemma digit_val_char_of: "d < 10 \<Longrightarrow> digit_val (char_of (48 + d)) = Some d"
  by (simp add: digit_val_def)

lemma parse_digits_append:
  "parse_digits a (xs @ ys) = Option.bind (parse_digits a xs) (\<lambda>b. parse_digits b ys)"
  by (induction xs arbitrary: a) (auto split: option.splits)

lemma parse_nat_digits: "parse_digits 0 (nat_digits n) = Some n"
proof (induction n rule: nat_digits.induct)
  case (1 n)
  show ?case
  proof (cases "n < 10")
    case True
    then show ?thesis by (simp add: nat_digits.simps [of n] digit_val_char_of)
  next
    case False
    moreover have "n mod 10 < 10" by simp
    ultimately show ?thesis using 1
      by (simp add: nat_digits.simps [of n] parse_digits_append digit_val_char_of)
  qed
qed

lemma nat_digits_hd: "\<exists>d cs. d < 10 \<and> nat_digits n = char_of (48 + d :: nat) # cs"
proof (induction n rule: nat_digits.induct)
  case (1 n)
  then show ?case by (cases "n < 10") (auto simp: nat_digits.simps [of n])
qed

lemma nat_digits_not_sign:
  "nat_digits n = c # cs \<Longrightarrow> c \<noteq> CHR ''-'' \<and> c \<noteq> CHR ''+''"
proof -
  assume "nat_digits n = c # cs"
  then obtain d where "d < 10" "c = char_of (48 + d :: nat)" using nat_digits_hd [of n] by auto
  then have "of_char c = 48 + d" by simp
  then show ?thesis by auto
qed

lemma Atoi_Itoa: "in_int64 n \<Longrightarrow> Atoi (Itoa n) = Some n"
proof -
  assume n: "in_int64 n"
  obtain c cs where d: "nat_digits (nat \<bar>n\<bar>) = c # cs" using nat_digits_hd by blast
  have p: "parse_digits 0 (c # cs) = Some (nat \<bar>n\<bar>)" using parse_nat_digits [of "nat \<bar>n\<bar>"] d by simp
  show ?thesis
  proof (cases "n < 0")
    case True
    with d p n show ?thesis by (simp add: Atoi_def Itoa_def abs_if Let_def)
  next
    case False
    with d p n nat_digits_not_sign [OF d] show ?thesis
      by (simp add: Atoi_def Itoa_def Let_def del: parse_digits.simps)
  qed
qed

lemma Itoa_nonempty: "Itoa n \<noteq> []"
  using nat_digits_hd [of "nat n"] by (auto simp: Itoa_def)

text \<open>
  The slice expression \<open>xs[lo:hi]\<close> panics unless \<open>0 \<le> lo \<le> hi \<le> len\<close> (the upper bound is the
  capacity, but every slice here has \<open>hi \<le> len\<close>); \<open>None\<close> is the panic.
\<close>

definition go_slice :: "'a list \<Rightarrow> int \<Rightarrow> int \<Rightarrow> 'a list option" where
  "go_slice xs lo hi =
     (if 0 \<le> lo \<and> lo \<le> hi \<and> hi \<le> int (length xs)
      then Some (take (nat (hi - lo)) (drop (nat lo) xs)) else None)"

end
