(* ===== verification/Types.thy ===== *)
theory Types
  imports Prelude
begin

text \<open>
  The data of \<open>types.go\<close>: principals, roles, role assignments, grants, requests, queries and
  reports, with their validation methods, and the errors and dynamically typed values that
  every other component passes around. String-typed enumerations (\<open>PrincipalKind\<close>, \<open>Effect\<close>,
  \<open>RoleScope\<close>) stay strings, as in Go: any text is a value of the type, and the code checks or
  does not check membership itself.
\<close>

section \<open>Errors and dynamic values\<close>

text \<open>
  \<open>Errorf f as\<close> is \<open>fmt.Errorf(f, as...)\<close>; \<open>Wrapf\<close> has a wrapped error as its last argument
  (\<open>%w\<close>); \<open>MultiError\<close> is a non-empty \<open>multierror.Error\<close>; \<open>Foreign\<close> is an error of code outside
  the repository; \<open>GoPanic\<close> is a run-time panic, which no code of the repository recovers from.
\<close>

datatype goerror =
    Errorf string "string list"
  | Wrapf string "string list" goerror
  | MultiError "goerror list"
  | Foreign string
  | GoPanic string

type_synonym 'a result = "goerror + 'a"

text \<open>
  A value of type \<open>any\<close>, as far as the code looks at it: strings and the numbers that
  \<open>resolveScopeToken\<close> distinguishes, and every other value by its dynamic type and by the text
  that the verb \<open>%v\<close> prints for it. A \<open>float64\<close> is given by the integer that the conversion
  \<open>int64(x)\<close> yields and by its \<open>%v\<close> text.
\<close>

datatype goval =
    GString string
  | GInt int
  | GInt64 int
  | GFloat64 int string
  | GOther string string
  | GNil

fun fmt_v :: "goval \<Rightarrow> string" where
  "fmt_v (GString s) = s"
| "fmt_v (GInt n) = Itoa n"
| "fmt_v (GInt64 n) = Itoa n"
| "fmt_v (GFloat64 n t) = t"
| "fmt_v (GOther ty t) = t"
| "fmt_v GNil = ''<nil>''"

type_synonym bindings = "(string, goval) gomap"

text \<open>\<open>for k, v := range src { dst[k] = v }\<close> into a fresh map.\<close>

definition copy_map :: "('k, 'v) gomap \<Rightarrow> ('k, 'v) gomap" where
  "copy_map m = fold (\<lambda>(k, v) acc. AList.update k v acc) m []"

lemma wf_copy_map [simp]: "wf_gomap (copy_map m)"
proof -
  have "wf_gomap acc \<Longrightarrow> wf_gomap (fold (\<lambda>(k, v) acc. AList.update k v acc) m acc)" for acc
    by (induction m arbitrary: acc) auto
  then show ?thesis by (simp add: copy_map_def)
qed

lemma update_fresh: "k \<notin> fst ` set m \<Longrightarrow> AList.update k v m = m @ [(k, v)]"
  by (induction m) auto

lemma copy_map_id [simp]: "wf_gomap m \<Longrightarrow> copy_map m = m"
proof -
  have "fold (\<lambda>(k, v) acc. AList.update k v acc) m acc = acc @ m"
    if "wf_gomap (acc @ m)" for acc
    using that
  proof (induction m arbitrary: acc)
    case (Cons a m)
    obtain k v where a: "a = (k, v)" by (cases a)
    have "k \<notin> fst ` set acc" using Cons.prems a by (auto simp: wf_gomap_def)
    with Cons.IH [of "acc @ [a]"] Cons.prems a show ?case by (simp add: update_fresh)
  qed simp
  from this [of "[]"] show "wf_gomap m \<Longrightarrow> copy_map m = m" by (simp add: copy_map_def)
qed

text \<open>
  \<open>BindingValuesEqual\<close> (utilities.go) compares two maps by their lengths and by a
  \<open>reflect.DeepEqual\<close> of the values of the first map's keys. Its nil/nil case agrees with the
  comparison of two empty maps.
\<close>

definition BindingValuesEqual :: "bindings \<Rightarrow> bindings \<Rightarrow> bool" where
  "BindingValuesEqual a b \<longleftrightarrow>
     length a = length b \<and> (\<forall>(k, av) \<in> set a. case map_of b k of None \<Rightarrow> False | Some bv \<Rightarrow> av = bv)"

lemma gomap_dom: "dom (map_of m) = fst ` set m"
  by (rule dom_map_of_conv_image_fst)

lemma wf_gomap_card: "wf_gomap m \<Longrightarrow> card (dom (map_of m)) = length m"
  by (metis distinct_card gomap_dom length_map list.set_map wf_gomap_def)

lemma gomap_subset_eq:
  assumes "wf_gomap a" "wf_gomap b" "length a = length b" "map_of a \<subseteq>\<^sub>m map_of b"
  shows "map_of a = map_of b"
proof -
  have "dom (map_of a) \<subseteq> dom (map_of b)" using assms(4) by (rule map_le_implies_dom_le)
  moreover have "card (dom (map_of b)) = card (dom (map_of a))"
    using assms(1-3) by (simp add: wf_gomap_card)
  ultimately have "dom (map_of a) = dom (map_of b)"
    by (simp add: card_subset_eq finite_dom_map_of)
  with assms(4) show ?thesis by (metis map_le_antisym map_le_def)
qed

lemma BindingValuesEqual_iff:
  assumes "wf_gomap a" "wf_gomap b"
  shows "BindingValuesEqual a b \<longleftrightarrow> map_of a = map_of b"
proof
  assume eq: "BindingValuesEqual a b"
  have "map_of a \<subseteq>\<^sub>m map_of b"
    unfolding map_le_def
  proof
    fix k assume "k \<in> dom (map_of a)"
    then obtain v where v: "map_of a k = Some v" by auto
    then have "(k, v) \<in> set a" by (rule map_of_SomeD)
    with eq have "map_of b k = Some v" by (fastforce simp: BindingValuesEqual_def split: option.splits)
    with v show "map_of a k = map_of b k" by simp
  qed
  with eq assms show "map_of a = map_of b"
    by (intro gomap_subset_eq) (auto simp: BindingValuesEqual_def)
next
  assume eq: "map_of a = map_of b"
  then have "length a = length b" using assms by (metis wf_gomap_card)
  moreover have "\<forall>(k, v) \<in> set a. map_of b k = Some v"
    using assms(1) eq by (auto simp: wf_gomap_in_iff)
  ultimately show "BindingValuesEqual a b" by (auto simp: BindingValuesEqual_def)
qed

lemma BindingValuesEqual_refl [simp]: "wf_gomap a \<Longrightarrow> BindingValuesEqual a a"
  by (simp add: BindingValuesEqual_iff)

section \<open>Principals\<close>

type_synonym principal_kind = string
type_synonym effect = string

definition PrincipalUser :: principal_kind where "PrincipalUser = ''user''"
definition PrincipalGroup :: principal_kind where "PrincipalGroup = ''group''"
definition PrincipalTeam :: principal_kind where "PrincipalTeam = ''team''"
definition PrincipalRole :: principal_kind where "PrincipalRole = ''role''"

definition SyntheticRolePublic :: string where "SyntheticRolePublic = ''builtin.public''"
definition SyntheticRoleAuthenticated :: string where
  "SyntheticRoleAuthenticated = ''builtin.authenticated''"
definition SyntheticRoleAdmin :: string where "SyntheticRoleAdmin = ''builtin.admin''"

definition EffectAllow :: effect where "EffectAllow = ''allow''"
definition EffectDeny :: effect where "EffectDeny = ''deny''"

lemmas principal_kind_defs = PrincipalUser_def PrincipalGroup_def PrincipalTeam_def PrincipalRole_def
lemmas effect_defs = EffectAllow_def EffectDeny_def

lemma principal_kinds_distinct [simp]:
  "PrincipalUser \<noteq> PrincipalGroup" "PrincipalUser \<noteq> PrincipalTeam" "PrincipalUser \<noteq> PrincipalRole"
  "PrincipalGroup \<noteq> PrincipalUser" "PrincipalGroup \<noteq> PrincipalTeam" "PrincipalGroup \<noteq> PrincipalRole"
  "PrincipalTeam \<noteq> PrincipalUser" "PrincipalTeam \<noteq> PrincipalGroup" "PrincipalTeam \<noteq> PrincipalRole"
  "PrincipalRole \<noteq> PrincipalUser" "PrincipalRole \<noteq> PrincipalGroup" "PrincipalRole \<noteq> PrincipalTeam"
  by (simp_all add: principal_kind_defs)

lemma effects_distinct [simp]: "EffectAllow \<noteq> EffectDeny" "EffectDeny \<noteq> EffectAllow"
  by (simp_all add: effect_defs)

record principal_ref =
  pr_Kind :: principal_kind
  pr_ID :: string

lemma principal_ref_eq_iff: "p = \<lparr>pr_Kind = k, pr_ID = i\<rparr> \<longleftrightarrow> pr_Kind p = k \<and> pr_ID p = i"
  by (cases p) auto

definition valid_kinds :: "principal_kind list" where
  "valid_kinds = [PrincipalUser, PrincipalGroup, PrincipalTeam, PrincipalRole]"

definition PrincipalRef_Validate :: "principal_ref \<Rightarrow> goerror option" where
  "PrincipalRef_Validate r =
     (if pr_ID r = '''' then Some (Errorf ''principal ID is required'' [])
      else if pr_Kind r \<in> set valid_kinds then None
      else Some (Errorf ''unsupported principal kind: %q'' [pr_Kind r]))"

lemma PrincipalRef_Validate_None:
  "PrincipalRef_Validate r = None \<longleftrightarrow> pr_ID r \<noteq> '''' \<and> pr_Kind r \<in> set valid_kinds"
  by (simp add: PrincipalRef_Validate_def)

section \<open>Roles and assignments\<close>

type_synonym role_scope = string

definition RoleScopeSystem :: role_scope where "RoleScopeSystem = ''system''"
definition RoleScopeTeam :: role_scope where "RoleScopeTeam = ''team''"
definition RoleScopeObject :: role_scope where "RoleScopeObject = ''object''"

record role =
  ro_ID :: string
  ro_Name :: string
  ro_Description :: string
  ro_Scope :: role_scope
  ro_Tags :: "string list"
  ro_Permissions :: "string list"
  ro_BuiltIn :: bool
  ro_IsDisabled :: bool

definition zero_role :: role where
  "zero_role = \<lparr>ro_ID = '''', ro_Name = '''', ro_Description = '''', ro_Scope = '''', ro_Tags = [],
     ro_Permissions = [], ro_BuiltIn = False, ro_IsDisabled = False\<rparr>"

definition Role_Validate :: "role \<Rightarrow> goerror option" where
  "Role_Validate r =
     (if TrimSpace (ro_ID r) = '''' then Some (Errorf ''role ID is required'' [])
      else if ro_Scope r \<noteq> '''' \<and> ro_Scope r \<noteq> RoleScopeSystem \<and> ro_Scope r \<noteq> RoleScopeTeam
        \<and> ro_Scope r \<noteq> RoleScopeObject then Some (Errorf ''invalid role scope: %q'' [ro_Scope r])
      else None)"

text \<open>Nothing in the code tells a nil \<open>BindingValues\<close> from an empty one.\<close>

record role_assignment =
  ra_RoleID :: string
  ra_BindingValues :: "bindings"

record role_assignment_hit =
  rh_RoleID :: string
  rh_BindingValues :: "bindings"
  rh_Principal :: principal_ref

section \<open>Grants and requests\<close>

record request =
  rq_UserID :: string
  rq_TeamID :: string
  rq_Object :: string
  rq_Perm :: string

definition zero_request :: request where
  "zero_request = \<lparr>rq_UserID = '''', rq_TeamID = '''', rq_Object = '''', rq_Perm = ''''\<rparr>"

text \<open>
  Times are nanoseconds since the epoch. A nil \<open>VariableSpec\<close> is \<open>None\<close>: \<open>reflect.DeepEqual\<close> tells
  it from an empty map.
\<close>

type_synonym time = int

record grant =
  gr_ID :: int
  gr_OwnerKind :: principal_kind
  gr_OwnerID :: string
  gr_Effect :: effect
  gr_TeamScope :: string
  gr_ObjectScope :: "string option"
  gr_PermissionName :: string
  gr_ExpiresAt :: "time option"
  gr_RestrictedFields :: "string list"
  gr_VariableSpec :: "bindings option"

definition IsActiveAt :: "grant \<Rightarrow> time \<Rightarrow> bool" where
  "IsActiveAt g now = (case gr_ExpiresAt g of None \<Rightarrow> True | Some t \<Rightarrow> now < t)"

definition IsExpiredAt :: "grant \<Rightarrow> time \<Rightarrow> bool" where
  "IsExpiredAt g now = (\<not> IsActiveAt g now)"

text \<open>An expired grant stays expired.\<close>

lemma IsExpiredAt_mono: "IsExpiredAt g t \<Longrightarrow> t \<le> t' \<Longrightarrow> IsExpiredAt g t'"
  by (auto simp: IsExpiredAt_def IsActiveAt_def split: option.splits)

definition grant_owner :: "grant \<Rightarrow> principal_ref" where
  "grant_owner g = \<lparr>pr_Kind = gr_OwnerKind g, pr_ID = gr_OwnerID g\<rparr>"

lemma grant_owner_simps [simp]:
  "pr_Kind (grant_owner g) = gr_OwnerKind g" "pr_ID (grant_owner g) = gr_OwnerID g"
  by (simp_all add: grant_owner_def)

lemma grant_owner_eq_iff: "grant_owner g = p \<longleftrightarrow> gr_OwnerKind g = pr_Kind p \<and> gr_OwnerID g = pr_ID p"
  by (cases p) (auto simp: grant_owner_def)

section \<open>Query and report data\<close>

record effective_permission_source =
  es_Principal :: principal_ref
  es_Name :: string
  es_Description :: string

record effective_permission =
  ep_TeamScope :: string
  ep_ObjectScope :: "string option"
  ep_PermissionName :: string
  ep_Source :: effective_permission_source
  ep_Effect :: effect
  ep_RestrictedFields :: "string list"

record principal_hit =
  ph_Kind :: principal_kind
  ph_ID :: string
  ph_TeamScope :: string
  ph_ObjectScope :: "string option"
  ph_PermissionName :: string

record permission_source =
  ps_Kind :: principal_kind
  ps_ID :: string
  ps_GrantID :: "int option"
  ps_RoleID :: "string option"

record permission_report =
  rp_Principal :: principal_ref
  rp_TeamScope :: string
  rp_ObjectScope :: "string option"
  rp_PermissionName :: string
  rp_Effect :: effect
  rp_RestrictedFields :: "string list"
  rp_IsDirect :: bool
  rp_Sources :: "permission_source list"

record grant_query =
  gq_Principals :: "principal_ref list"
  gq_TeamScopes :: "string list"
  gq_ObjectScopes :: "string list"
  gq_Permissions :: "string list"
  gq_PermissionPrefix :: string
  gq_IncludeEffective :: bool
  gq_Limit :: int
  gq_Cursor :: string

record grant_query_result =
  qr_Grants :: "grant list"
  qr_NextCursor :: string
  qr_TotalCount :: int

record report_query_result =
  rr_Reports :: "permission_report list"
  rr_NextCursor :: string
  rr_TotalCount :: int

end
