(* ===== verification/Grants.thy ===== *)
theory Grants
  imports Types "HOL-Library.Multiset"
begin

text \<open>
  The pure functions on grants, scopes, field paths, bindings and keys that the service and the
  stores share (\<open>service.go\<close>, \<open>bootstrap_store.go\<close>): whether a grant matches a request and a
  field path, how the variables of a role's grant are resolved from an assignment's bindings,
  when two grants count as equivalent, and the text keys that the code uses to index maps.
\<close>

section \<open>Copies\<close>

text \<open>HOL values are immutable, so a deep copy is the value itself; the copies are written out
  as the code makes them and shown to be identities.\<close>

definition cloneStringPointer :: "string option \<Rightarrow> string option" where
  "cloneStringPointer v = (case v of None \<Rightarrow> None | Some s \<Rightarrow> Some s)"

definition cloneTimePointer :: "time option \<Rightarrow> time option" where
  "cloneTimePointer v = (case v of None \<Rightarrow> None | Some t \<Rightarrow> Some t)"

definition cloneGrant :: "grant \<Rightarrow> grant" where
  "cloneGrant g = g\<lparr>
     gr_ObjectScope := cloneStringPointer (gr_ObjectScope g),
     gr_ExpiresAt := cloneTimePointer (gr_ExpiresAt g),
     gr_RestrictedFields := [] @ gr_RestrictedFields g,
     gr_VariableSpec := (case gr_VariableSpec g of None \<Rightarrow> None | Some m \<Rightarrow> Some (copy_map m))\<rparr>"

definition cloneRole :: "role \<Rightarrow> role" where
  "cloneRole r = r\<lparr>ro_Tags := [] @ ro_Tags r, ro_Permissions := [] @ ro_Permissions r\<rparr>"

text \<open>A grant's variable specification is a Go map: its keys are distinct.\<close>

definition wf_grant :: "grant \<Rightarrow> bool" where
  "wf_grant g \<longleftrightarrow> (case gr_VariableSpec g of None \<Rightarrow> True | Some m \<Rightarrow> wf_gomap m)"

lemma clone_pointers [simp]: "cloneStringPointer v = v" "cloneTimePointer t = t"
  by (cases v; simp add: cloneStringPointer_def) (cases t; simp add: cloneTimePointer_def)

lemma cloneGrant_id [simp]: "wf_grant g \<Longrightarrow> cloneGrant g = g"
  by (cases g) (auto simp: cloneGrant_def wf_grant_def split: option.splits)

lemma cloneRole_id [simp]: "cloneRole r = r"
  by (simp add: cloneRole_def)

lemma wf_cloneGrant [simp]: "wf_grant (cloneGrant g)"
  by (simp add: wf_grant_def cloneGrant_def split: option.splits)

lemma cloneGrant_simps [simp]:
  "gr_ID (cloneGrant g) = gr_ID g" "gr_OwnerKind (cloneGrant g) = gr_OwnerKind g"
  "gr_OwnerID (cloneGrant g) = gr_OwnerID g" "gr_Effect (cloneGrant g) = gr_Effect g"
  "gr_TeamScope (cloneGrant g) = gr_TeamScope g" "gr_ObjectScope (cloneGrant g) = gr_ObjectScope g"
  "gr_PermissionName (cloneGrant g) = gr_PermissionName g"
  "gr_ExpiresAt (cloneGrant g) = gr_ExpiresAt g"
  "gr_RestrictedFields (cloneGrant g) = gr_RestrictedFields g"
  by (simp_all add: cloneGrant_def)

lemma cloneGrant_expired [simp]: "IsExpiredAt (cloneGrant g) now = IsExpiredAt g now"
  by (simp add: IsExpiredAt_def IsActiveAt_def)

section \<open>Scopes\<close>

text \<open>The filter of the stores (\<open>scopeMatches\<close>): a variable scope passes for any request value.\<close>

definition scopeMatches :: "string \<Rightarrow> string \<Rightarrow> bool" where
  "scopeMatches scope reqValue =
     (if scope = ''*'' then True
      else if HasPrefix scope ''?'' then reqValue \<noteq> ''''
      else if reqValue \<noteq> '''' then scope = reqValue
      else False)"

text \<open>The decision of the service (\<open>matchesTeamScope\<close>, \<open>grantMatchesRequest\<close>).\<close>

definition matchesTeamScope :: "grant \<Rightarrow> string \<Rightarrow> bool" where
  "matchesTeamScope g teamID =
     (if teamID = '''' then gr_TeamScope g = ''*''
      else gr_TeamScope g = ''*'' \<or> gr_TeamScope g = teamID)"

definition grantMatchesRequest :: "grant \<Rightarrow> request \<Rightarrow> bool" where
  "grantMatchesRequest g req =
     (if gr_PermissionName g \<noteq> rq_Perm req then False
      else if \<not> matchesTeamScope g (rq_TeamID req) then False
      else case gr_ObjectScope g of
             None \<Rightarrow> True
           | Some objectScope \<Rightarrow> if objectScope = ''*'' then True else objectScope = rq_Object req)"

section \<open>Field paths\<close>

definition fieldPathMatches :: "string \<Rightarrow> string \<Rightarrow> bool" where
  "fieldPathMatches grantPath candidate =
     (let gp = TrimSpace grantPath; c = TrimSpace candidate in
      if gp = '''' \<or> c = '''' then False
      else if gp = c then True
      else HasPrefix c (gp @ ''.''))"

definition grantMatchesFieldPath :: "grant \<Rightarrow> string option \<Rightarrow> bool" where
  "grantMatchesFieldPath g fieldPath =
     (case fieldPath of
        None \<Rightarrow> True
      | Some path \<Rightarrow>
          if gr_RestrictedFields g = [] then True
          else (let matchesRestricted = list_ex (\<lambda>r. fieldPathMatches r path) (gr_RestrictedFields g)
                in if gr_Effect g = EffectDeny then matchesRestricted else \<not> matchesRestricted))"

definition is_digit :: "char \<Rightarrow> bool" where
  "is_digit c \<longleftrightarrow> CHR ''0'' \<le> c \<and> c \<le> CHR ''9''"

definition isIndexedFieldPath :: "string \<Rightarrow> bool" where
  "isIndexedFieldPath path = list_ex (\<lambda>part. part \<noteq> '''' \<and> list_all is_digit part) (split_on CHR ''.'' path)"

section \<open>Variables\<close>

fun token_text :: "goval \<Rightarrow> string" where
  "token_text (GString s) = s"
| "token_text (GInt n) = Itoa n"
| "token_text (GInt64 n) = Itoa n"
| "token_text (GFloat64 n t) = Itoa n"
| "token_text v = fmt_v v"

definition resolveScopeToken :: "string \<Rightarrow> bindings \<Rightarrow> string result" where
  "resolveScopeToken scope bindingValues =
     (if \<not> HasPrefix scope ''?'' then Inr scope
      else (let name = drop 1 scope in
            case map_of bindingValues name of
              None \<Rightarrow> Inl (Errorf ''missing binding value for token %q'' [name])
            | Some v \<Rightarrow> Inr (token_text v)))"

fun check_required :: "string \<Rightarrow> bindings \<Rightarrow> bindings \<Rightarrow> unit result" where
  "check_required ownerID bindingValues [] = Inr ()"
| "check_required ownerID bindingValues ((key, spec) # rest) =
     (case spec of
        GString required \<Rightarrow>
          if required = ''required'' \<and> map_of bindingValues key = None
          then Inl (Errorf ''missing required binding value %q for role ID %q'' [key, ownerID])
          else check_required ownerID bindingValues rest
      | _ \<Rightarrow> check_required ownerID bindingValues rest)"

definition resolveGrantBindings :: "grant \<Rightarrow> (string, bindings) gomap \<Rightarrow> grant result" where
  "resolveGrantBindings g bindingByRoleID =
     (case gr_VariableSpec g of
        None \<Rightarrow> Inr g
      | Some spec \<Rightarrow>
          if spec = [] then Inr g
          else
            attempt
              (if gr_OwnerKind g = PrincipalRole
               then (case map_of bindingByRoleID (gr_OwnerID g) of
                       None \<Rightarrow> Inl (Errorf ''missing role binding for role ID %q'' [gr_OwnerID g])
                     | Some bv \<Rightarrow> Inr bv)
               else Inr [])
              (\<lambda>bindingValues.
                 attempt (check_required (gr_OwnerID g) bindingValues spec) (\<lambda>_.
                 attempt (resolveScopeToken (gr_TeamScope g) bindingValues) (\<lambda>teamScope.
                 case gr_ObjectScope g of
                   None \<Rightarrow> Inr (g\<lparr>gr_TeamScope := teamScope\<rparr>)
                 | Some os \<Rightarrow>
                     attempt (resolveScopeToken os bindingValues) (\<lambda>resolved.
                     Inr (g\<lparr>gr_TeamScope := teamScope, gr_ObjectScope := Some resolved\<rparr>))))))"

lemma check_required_Inr:
  "check_required oid bv spec = Inr () \<longleftrightarrow>
     (\<forall>key. (key, GString ''required'') \<in> set spec \<longrightarrow> map_of bv key \<noteq> None)"
proof (induction spec)
  case (Cons a spec)
  obtain key v where "a = (key, v)" by (cases a)
  with Cons show ?case by (cases v) auto
qed simp

text \<open>Resolution only ever rewrites the two scopes.\<close>

lemma resolveGrantBindings_frame:
  assumes "resolveGrantBindings g b = Inr g'"
  shows "gr_ID g' = gr_ID g" "gr_OwnerKind g' = gr_OwnerKind g" "gr_OwnerID g' = gr_OwnerID g"
    "gr_Effect g' = gr_Effect g" "gr_PermissionName g' = gr_PermissionName g"
    "gr_ExpiresAt g' = gr_ExpiresAt g" "gr_RestrictedFields g' = gr_RestrictedFields g"
    "gr_VariableSpec g' = gr_VariableSpec g" "gr_ObjectScope g' = None \<longleftrightarrow> gr_ObjectScope g = None"
  using assms by (auto simp: resolveGrantBindings_def split: option.splits if_splits)

lemma resolveGrantBindings_plain [simp]:
  "gr_VariableSpec g = None \<Longrightarrow> resolveGrantBindings g b = Inr g"
  by (simp add: resolveGrantBindings_def)

section \<open>Keys\<close>

definition permissionKey :: "grant \<Rightarrow> string" where
  "permissionKey g =
     join_with ''::'' [gr_TeamScope g,
       (case gr_ObjectScope g of None \<Rightarrow> '''' | Some o' \<Rightarrow> o'), gr_PermissionName g]"

definition assignmentKey :: "role_assignment \<Rightarrow> string" where
  "assignmentKey a =
     (let bv = ra_BindingValues a in
      if bv = [] then ra_RoleID a @ '':''
      else ra_RoleID a @ '':'' @
        concat (map (\<lambda>k. k @ ''='' @ fmt_v (case map_of bv k of None \<Rightarrow> GNil | Some v \<Rightarrow> v) @ '','')
          (sort (map fst bv))))"

definition principalKey :: "principal_ref \<Rightarrow> string" where
  "principalKey p = pr_Kind p @ '':'' @ pr_ID p"

text \<open>\<open>strings.SplitN(key, ":", 2)\<close>.\<close>

definition splitN2 :: "char \<Rightarrow> string \<Rightarrow> string list" where
  "splitN2 c s =
     (if c \<in> set s then [takeWhile (\<lambda>x. x \<noteq> c) s, tl (dropWhile (\<lambda>x. x \<noteq> c) s)] else [s])"

definition parsePrincipalKey :: "string \<Rightarrow> principal_ref result" where
  "parsePrincipalKey key =
     (case splitN2 CHR '':'' key of
        [kind, id'] \<Rightarrow>
          if kind \<in> set valid_kinds then Inr \<lparr>pr_Kind = kind, pr_ID = id'\<rparr>
          else Inl (Errorf ''invalid principal kind: %s'' [kind])
      | _ \<Rightarrow> Inl (Errorf ''invalid principal key: %s'' [key]))"

lemma splitN2_append: "c \<notin> set a \<Longrightarrow> splitN2 c (a @ c # b) = [a, b]"
proof -
  assume "c \<notin> set a"
  then have "x \<in> set a \<Longrightarrow> x \<noteq> c" for x by auto
  then show ?thesis by (simp add: splitN2_def takeWhile_append2 dropWhile_append2)
qed

lemma valid_kind_no_colon: "k \<in> set valid_kinds \<Longrightarrow> CHR '':'' \<notin> set k"
  by (auto simp: valid_kinds_def principal_kind_defs)

lemma parse_principalKey:
  "pr_Kind p \<in> set valid_kinds \<Longrightarrow> parsePrincipalKey (principalKey p) = Inr p"
proof -
  assume valid: "pr_Kind p \<in> set valid_kinds"
  have "splitN2 CHR '':'' (principalKey p) = [pr_Kind p, pr_ID p]"
    unfolding principalKey_def using splitN2_append [OF valid_kind_no_colon [OF valid]] by simp
  with valid show ?thesis by (simp add: parsePrincipalKey_def)
qed

lemma principalKey_inj:
  assumes "pr_Kind p \<in> set valid_kinds" "pr_Kind q \<in> set valid_kinds"
  shows "principalKey p = principalKey q \<longleftrightarrow> p = q"
  by (metis assms parse_principalKey sum.inject(2))

definition containsString :: "string list \<Rightarrow> string \<Rightarrow> bool" where
  "containsString vs target = list_ex (\<lambda>v. v = target) vs"

lemma containsString_iff [simp]: "containsString vs t \<longleftrightarrow> t \<in> set vs"
  by (auto simp: containsString_def list_ex_iff)

section \<open>Equivalence of grants\<close>

definition sameStringPointer :: "string option \<Rightarrow> string option \<Rightarrow> bool" where
  "sameStringPointer l r =
     (case (l, r) of (Some a, Some b) \<Rightarrow> a = b | _ \<Rightarrow> l = None \<and> r = None)"

definition sameTimePointer :: "time option \<Rightarrow> time option \<Rightarrow> bool" where
  "sameTimePointer l r =
     (case (l, r) of (Some a, Some b) \<Rightarrow> a = b | _ \<Rightarrow> l = None \<and> r = None)"

definition sameStringSet :: "string list \<Rightarrow> string list \<Rightarrow> bool" where
  "sameStringSet l r =
     (if length l \<noteq> length r then False
      else if length l = 0 then True
      else sort l = sort r)"

definition deep_equal_spec :: "bindings option \<Rightarrow> bindings option \<Rightarrow> bool" where
  "deep_equal_spec l r =
     (case (l, r) of (None, None) \<Rightarrow> True | (Some a, Some b) \<Rightarrow> BindingValuesEqual a b | _ \<Rightarrow> False)"

definition grantsEquivalent :: "grant \<Rightarrow> grant \<Rightarrow> bool" where
  "grantsEquivalent l r =
     (if gr_OwnerKind l \<noteq> gr_OwnerKind r \<or> gr_OwnerID l \<noteq> gr_OwnerID r then False
      else if gr_Effect l \<noteq> gr_Effect r \<or> gr_TeamScope l \<noteq> gr_TeamScope r
        \<or> gr_PermissionName l \<noteq> gr_PermissionName r then False
      else if \<not> sameStringPointer (gr_ObjectScope l) (gr_ObjectScope r) then False
      else if \<not> sameTimePointer (gr_ExpiresAt l) (gr_ExpiresAt r) then False
      else if \<not> sameStringSet (gr_RestrictedFields l) (gr_RestrictedFields r) then False
      else deep_equal_spec (gr_VariableSpec l) (gr_VariableSpec r))"

text \<open>\<open>mapEquals\<close> (bootstrap_store.go) compares the printed values, so the number 1 and the text
  ``1'' are equal to it.\<close>

definition mapEquals :: "bindings \<Rightarrow> bindings \<Rightarrow> bool" where
  "mapEquals l r \<longleftrightarrow> length l = length r \<and>
     (\<forall>(k, lv) \<in> set l. case map_of r k of None \<Rightarrow> False | Some rv \<Rightarrow> fmt_v lv = fmt_v rv)"

lemma same_pointer_eq [simp]: "sameStringPointer a b \<longleftrightarrow> a = b" "sameTimePointer s t \<longleftrightarrow> s = t"
  by (auto simp: sameStringPointer_def sameTimePointer_def split: option.splits)

lemma sameStringSet_mset: "sameStringSet l r \<longleftrightarrow> mset l = mset r"
proof
  assume same: "sameStringSet l r"
  show "mset l = mset r"
  proof (cases "l = []")
    case True
    with same show ?thesis by (simp add: sameStringSet_def split: if_splits)
  next
    case False
    with same have "sort l = sort r" by (simp add: sameStringSet_def split: if_splits)
    then show ?thesis by (metis mset_sort)
  qed
next
  assume eq: "mset l = mset r"
  moreover from eq have "length l = length r" by (rule mset_eq_length)
  moreover from eq have "sort l = sort r" by (simp add: properties_for_sort)
  ultimately show "sameStringSet l r" by (simp add: sameStringSet_def)
qed

definition spec_map :: "bindings option \<Rightarrow> (string \<rightharpoonup> goval) option" where
  "spec_map s = map_option map_of s"

text \<open>Equivalence is agreement on everything but the identifier, with the restricted fields
  compared as a multiset and the variable specification as a finite map.\<close>

lemma grantsEquivalent_iff:
  assumes "wf_grant l" "wf_grant r"
  shows "grantsEquivalent l r \<longleftrightarrow>
    gr_OwnerKind l = gr_OwnerKind r \<and> gr_OwnerID l = gr_OwnerID r \<and> gr_Effect l = gr_Effect r \<and>
    gr_TeamScope l = gr_TeamScope r \<and> gr_PermissionName l = gr_PermissionName r \<and>
    gr_ObjectScope l = gr_ObjectScope r \<and> gr_ExpiresAt l = gr_ExpiresAt r \<and>
    mset (gr_RestrictedFields l) = mset (gr_RestrictedFields r) \<and>
    spec_map (gr_VariableSpec l) = spec_map (gr_VariableSpec r)"
  using assms
  by (auto simp: grantsEquivalent_def sameStringSet_mset deep_equal_spec_def spec_map_def wf_grant_def
      BindingValuesEqual_iff split: option.splits)

lemma grantsEquivalent_refl [simp]: "wf_grant g \<Longrightarrow> grantsEquivalent g g"
  by (simp add: grantsEquivalent_iff)

lemma grantsEquivalent_sym: "wf_grant l \<Longrightarrow> wf_grant r \<Longrightarrow> grantsEquivalent l r = grantsEquivalent r l"
  by (auto simp: grantsEquivalent_iff)

lemma grantsEquivalent_trans:
  "wf_grant a \<Longrightarrow> wf_grant b \<Longrightarrow> wf_grant c \<Longrightarrow> grantsEquivalent a b \<Longrightarrow> grantsEquivalent b c \<Longrightarrow>
     grantsEquivalent a c"
  by (simp add: grantsEquivalent_iff)

text \<open>Equal bindings are equal as printed.\<close>

lemma BindingValuesEqual_mapEquals: "BindingValuesEqual a b \<Longrightarrow> mapEquals a b"
  by (fastforce simp: BindingValuesEqual_def mapEquals_def split: option.splits)

section \<open>How the store's filter and the service's decision agree\<close>

text \<open>A grant that the service would accept passes the store's filter, unless its object scope is
  the empty text.\<close>

lemma grantMatches_scopeMatches:
  assumes "grantMatchesRequest g req" "gr_ObjectScope g \<noteq> Some ''''"
  shows "scopeMatches (gr_TeamScope g) (rq_TeamID req)"
    and "gr_ObjectScope g = Some os \<Longrightarrow> scopeMatches os (rq_Object req)"
  using assms
  by (auto simp: grantMatchesRequest_def matchesTeamScope_def scopeMatches_def HasPrefix_def
      split: if_splits option.splits)

lemma grantMatchesRequest_iff:
  "grantMatchesRequest g req \<longleftrightarrow>
     gr_PermissionName g = rq_Perm req \<and>
     (gr_TeamScope g = ''*'' \<or> rq_TeamID req \<noteq> '''' \<and> gr_TeamScope g = rq_TeamID req) \<and>
     (gr_ObjectScope g = None \<or> gr_ObjectScope g = Some ''*'' \<or> gr_ObjectScope g = Some (rq_Object req))"
  by (auto simp: grantMatchesRequest_def matchesTeamScope_def split: option.splits)

section \<open>Equivalent grants and resolvable grants\<close>

lemma grantsEquivalent_fields:
  assumes "wf_grant g" "wf_grant h" "grantsEquivalent g h"
  shows "grantMatchesRequest g req = grantMatchesRequest h req"
    "grantMatchesFieldPath g fp = grantMatchesFieldPath h fp"
    "IsExpiredAt g now = IsExpiredAt h now" "gr_Effect g = gr_Effect h"
    "gr_RestrictedFields g = [] \<longleftrightarrow> gr_RestrictedFields h = []"
proof -
  note eq = grantsEquivalent_iff [OF assms(1,2), THEN iffD1, OF assms(3)]
  then have "set (gr_RestrictedFields g) = set (gr_RestrictedFields h)" by (metis set_mset_mset)
  then show "grantMatchesFieldPath g fp = grantMatchesFieldPath h fp"
    and "gr_RestrictedFields g = [] \<longleftrightarrow> gr_RestrictedFields h = []"
    using eq by (auto simp: grantMatchesFieldPath_def list_ex_iff split: option.split)
  show "grantMatchesRequest g req = grantMatchesRequest h req" "IsExpiredAt g now = IsExpiredAt h now"
    "gr_Effect g = gr_Effect h"
    using eq by (simp_all add: grantMatchesRequest_iff IsExpiredAt_def IsActiveAt_def)
qed

text \<open>When resolving the variables of a grant succeeds.\<close>

definition token_bound :: "bindings \<Rightarrow> string \<Rightarrow> bool" where
  "token_bound bv scope \<longleftrightarrow> HasPrefix scope ''?'' \<longrightarrow> map_of bv (drop 1 scope) \<noteq> None"

lemma resolveScopeToken_Inr: "(\<exists>r. resolveScopeToken scope bv = Inr r) \<longleftrightarrow> token_bound bv scope"
  by (auto simp: resolveScopeToken_def token_bound_def Let_def split: option.splits)

definition resolvable :: "grant \<Rightarrow> bindings \<Rightarrow> bool" where
  "resolvable g bv \<longleftrightarrow>
     (\<forall>spec key. gr_VariableSpec g = Some spec \<longrightarrow> map_of spec key = Some (GString ''required'') \<longrightarrow>
        map_of bv key \<noteq> None) \<and>
     token_bound bv (gr_TeamScope g) \<and> (\<forall>os. gr_ObjectScope g = Some os \<longrightarrow> token_bound bv os)"

lemma resolveGrantBindings_Inr:
  assumes "wf_grant g" "gr_VariableSpec g = Some spec" "spec \<noteq> []"
  shows "(\<exists>g'. resolveGrantBindings g b = Inr g') \<longleftrightarrow>
    (if gr_OwnerKind g = PrincipalRole
     then \<exists>bv. map_of b (gr_OwnerID g) = Some bv \<and> resolvable g bv else resolvable g [])"
proof -
  have spec: "wf_gomap spec" using assms(1,2) by (simp add: wf_grant_def)
  have req: "(\<exists>u. check_required (gr_OwnerID g) bv spec = Inr u) \<longleftrightarrow>
      (\<forall>key. map_of spec key = Some (GString ''required'') \<longrightarrow> map_of bv key \<noteq> None)" for bv
    using check_required_Inr [of "gr_OwnerID g" bv spec] spec by (auto simp: wf_gomap_in_iff)
  have core: "(\<exists>g'. attempt (check_required (gr_OwnerID g) bv spec) (\<lambda>_.
                 attempt (resolveScopeToken (gr_TeamScope g) bv) (\<lambda>teamScope.
                 case gr_ObjectScope g of
                   None \<Rightarrow> Inr (g\<lparr>gr_TeamScope := teamScope\<rparr>)
                 | Some os \<Rightarrow>
                     attempt (resolveScopeToken os bv) (\<lambda>resolved.
                     Inr (g\<lparr>gr_TeamScope := teamScope, gr_ObjectScope := Some resolved\<rparr>)))) = Inr g') \<longleftrightarrow>
      resolvable g bv" for bv
    using req [of bv] assms(2)
    by (cases "gr_ObjectScope g") (auto simp: resolvable_def resolveScopeToken_Inr [symmetric])
  show ?thesis
    using core assms(2,3) by (cases "map_of b (gr_OwnerID g)") (auto simp: resolveGrantBindings_def)
qed

end
