(* ===== verification/Role_Graph.thy ===== *)
theory Role_Graph
  imports Grants
begin

text \<open>
  Role inheritance as the stores keep it: the direct edges parent to child, and for every role
  the set of all its descendants, extended incrementally when an edge is added. The built-in
  registry, the bootstrap store and the in-memory store run the same loops over the same two
  maps; the loops are defined and verified here once, and the stores' operations call them.

  The invariant \<open>closure_ok\<close> states that the stored closure is the reflexive transitive closure
  of the stored edges.
\<close>

section \<open>The loops\<close>

type_synonym role_sets = "(string, string list) gomap"

definition inh_edges :: "role_sets \<Rightarrow> (string \<times> string) set" where
  "inh_edges inh = {(p, c). c \<in> set (lookup_set inh p)}"

text \<open>\<open>if roleClosure[r] == nil { roleClosure[r] = {r: true} }\<close>\<close>

definition ensure_self :: "string \<Rightarrow> role_sets \<Rightarrow> role_sets" where
  "ensure_self r clo = (if map_of clo r = None then AList.update r [r] clo else clo)"

text \<open>\<open>for desc := range newDescendants { roleClosure[ancestor][desc] = true }\<close>\<close>

definition add_descendants :: "string list \<Rightarrow> string \<Rightarrow> role_sets \<Rightarrow> role_sets" where
  "add_descendants newDescendants ancestor clo =
     AList.update ancestor (fold List.insert newDescendants (lookup_set clo ancestor)) clo"

text \<open>
  The body of \<open>AddRoleInheritance\<close> after its checks. The source ranges over the child's set while
  it may write to it (when the child is itself an ancestor of the parent); it then only writes
  keys the set already has, so a copy of the set taken before the loop has the same effect.
\<close>

definition add_edge :: "string \<Rightarrow> string \<Rightarrow> role_sets \<times> role_sets \<Rightarrow> role_sets \<times> role_sets" where
  "add_edge parent child g =
     (let (inh, clo) = g; children = lookup_set inh parent in
      if child \<in> set children then g
      else
        let inh' = AList.update parent (List.insert child children) inh;
            clo1 = ensure_self child (ensure_self parent clo);
            newDescendants = lookup_set clo1 child;
            ancestors = parent # map fst (filter (\<lambda>(a, ds). parent \<in> set ds \<and> a \<noteq> parent) clo1)
        in (inh', fold (add_descendants newDescendants) ancestors clo1))"

text \<open>The loop of \<open>ExpandRoles\<close>: the roles themselves and their stored descendants, each once.\<close>

definition push_new :: "string \<Rightarrow> string list \<Rightarrow> string list" where
  "push_new r result = (if r \<in> set result then result else result @ [r])"

definition expand_step :: "role_sets \<Rightarrow> string \<Rightarrow> string list \<Rightarrow> string list" where
  "expand_step clo roleID result =
     (let trimmed = TrimSpace roleID in
      if trimmed = '''' then result
      else fold push_new (lookup_set clo trimmed) (push_new trimmed result))"

definition expand_roles :: "role_sets \<Rightarrow> string list \<Rightarrow> string list" where
  "expand_roles clo roleIDs = fold (expand_step clo) roleIDs []"

text \<open>\<open>DeleteRole\<close> drops the role's own entries and removes it from every other set.\<close>

definition drop_role :: "string \<Rightarrow> role_sets \<Rightarrow> role_sets" where
  "drop_role r m = map (\<lambda>(k, ds). (k, removeAll r ds)) (AList.delete r m)"

section \<open>What the loops compute\<close>

lemma set_push_new [simp]: "set (push_new r xs) = insert r (set xs)"
  by (auto simp: push_new_def)

lemma distinct_push_new: "distinct xs \<Longrightarrow> distinct (push_new r xs)"
  by (simp add: push_new_def)

lemma set_fold_push_new: "set (fold push_new ds xs) = set ds \<union> set xs"
  by (induction ds arbitrary: xs) auto

text \<open>The elements that such a loop appends: the first occurrence of each one not seen before.\<close>

fun fresh :: "string set \<Rightarrow> string list \<Rightarrow> string list" where
  "fresh seen [] = []"
| "fresh seen (x # xs) = (if x \<in> seen then fresh seen xs else x # fresh (insert x seen) xs)"

lemma fold_push_new: "fold push_new ds xs = xs @ fresh (set xs) ds"
  by (induction ds arbitrary: xs) (auto simp: push_new_def)

lemma distinct_fold_push_new: "distinct xs \<Longrightarrow> distinct (fold push_new ds xs)"
  by (induction ds arbitrary: xs) (auto intro: distinct_push_new)

definition expansion :: "role_sets \<Rightarrow> string list \<Rightarrow> string set" where
  "expansion clo roleIDs =
     (\<Union>r \<in> {r \<in> TrimSpace ` set roleIDs. r \<noteq> ''''}. insert r (set (lookup_set clo r)))"

lemma expand_fold:
  "set (fold (expand_step clo) roleIDs acc) = expansion clo roleIDs \<union> set acc"
  by (induction roleIDs arbitrary: acc)
     (auto simp: expand_step_def expansion_def Let_def set_fold_push_new)

lemma set_expand_roles: "set (expand_roles clo roleIDs) = expansion clo roleIDs"
  by (simp add: expand_roles_def expand_fold)

lemma distinct_expand_roles: "distinct (expand_roles clo roleIDs)"
proof -
  have "distinct acc \<Longrightarrow> distinct (fold (expand_step clo) roleIDs acc)" for acc
  proof (induction roleIDs arbitrary: acc)
    case (Cons r rs)
    have "distinct (expand_step clo r acc)"
      using Cons.prems by (simp add: expand_step_def Let_def distinct_fold_push_new distinct_push_new)
    then show ?case by (simp add: Cons.IH)
  qed simp
  then show ?thesis by (simp add: expand_roles_def)
qed

lemma expansion_append: "expansion clo (xs @ ys) = expansion clo xs \<union> expansion clo ys"
  by (auto simp: expansion_def)

lemma set_fold_insert: "set (fold List.insert ds xs) = set ds \<union> set xs"
  by (induction ds arbitrary: xs) auto

lemma lookup_add_descendants:
  "set (lookup_set (add_descendants new a clo) k) =
     (if k = a then set new \<union> set (lookup_set clo a) else set (lookup_set clo k))"
  by (simp add: add_descendants_def set_fold_insert)

lemma lookup_fold_add_descendants:
  "set (lookup_set (fold (add_descendants new) as clo) k) =
     (if k \<in> set as then set new else {}) \<union> set (lookup_set clo k)"
  by (induction as arbitrary: clo) (auto simp: lookup_add_descendants)

lemma dom_fold_add_descendants:
  "dom (map_of (fold (add_descendants new) as clo)) = set as \<union> dom (map_of clo)"
  by (induction as arbitrary: clo) (auto simp: add_descendants_def)

lemma wf_fold_add_descendants:
  "wf_gomap clo \<Longrightarrow> wf_gomap (fold (add_descendants new) as clo)"
  by (induction as arbitrary: clo) (auto simp: add_descendants_def)

lemma wf_ensure_self [simp]: "wf_gomap clo \<Longrightarrow> wf_gomap (ensure_self r clo)"
  by (simp add: ensure_self_def)

lemma dom_ensure_self [simp]: "dom (map_of (ensure_self r clo)) = insert r (dom (map_of clo))"
  by (auto simp: ensure_self_def split: if_splits)

lemma lookup_ensure_self:
  "lookup_set (ensure_self r clo) k = (if k = r \<and> map_of clo r = None then [r] else lookup_set clo k)"
  by (simp add: ensure_self_def)

section \<open>The closure invariant\<close>

text \<open>
  Both maps are Go maps; edges only join roles that have a closure entry; and a role's entry
  holds exactly what the edges reach from it.
\<close>

definition closure_ok :: "role_sets \<times> role_sets \<Rightarrow> bool" where
  "closure_ok g \<longleftrightarrow> wf_gomap (fst g) \<and> wf_gomap (snd g) \<and>
     Field (inh_edges (fst g)) \<subseteq> dom (map_of (snd g)) \<and>
     (\<forall>r \<in> dom (map_of (snd g)). set (lookup_set (snd g) r) = (inh_edges (fst g))\<^sup>* `` {r})"

lemma closure_ok_empty [simp]: "closure_ok ([], [])"
  by (simp add: closure_ok_def inh_edges_def)

lemma rtrancl_no_edges: "r \<notin> Field E \<Longrightarrow> E\<^sup>* `` {r} = {r}"
proof -
  assume "r \<notin> Field E"
  then have "(r, y) \<in> E\<^sup>* \<Longrightarrow> y = r" for y by (auto elim: converse_rtranclE simp: Field_def)
  then show ?thesis by auto
qed

lemma lookup_not_dom: "r \<notin> dom (map_of m) \<Longrightarrow> lookup_set m r = []"
  by (auto simp: lookup_set_def domIff)

lemma closure_ok_ensure_self:
  assumes "closure_ok (inh, clo)"
  shows "closure_ok (inh, ensure_self r clo)"
proof (cases "map_of clo r = None")
  case True
  with assms have "r \<notin> Field (inh_edges inh)" by (auto simp: closure_ok_def)
  then have self: "(inh_edges inh)\<^sup>* `` {r} = {r}" by (rule rtrancl_no_edges)
  have "set (lookup_set (ensure_self r clo) q) = (inh_edges inh)\<^sup>* `` {q}"
    if "q \<in> insert r (dom (map_of clo))" for q
    using that assms self True by (cases "q = r") (auto simp: closure_ok_def lookup_ensure_self)
  with assms show ?thesis by (auto simp: closure_ok_def)
next
  case False
  then have "ensure_self r clo = clo" by (simp only: ensure_self_def if_False)
  with assms show ?thesis by simp
qed

lemma inh_edges_insert:
  "inh_edges (AList.update p (List.insert c (lookup_set inh p)) inh) = insert (p, c) (inh_edges inh)"
  by (auto simp: inh_edges_def split: if_splits)

text \<open>What adding a new edge does to the two maps.\<close>

lemma add_edge_new:
  assumes "wf_gomap clo" "c \<notin> set (lookup_set inh p)"
  defines "clo1 \<equiv> ensure_self c (ensure_self p clo)"
  obtains clo2 where
    "add_edge p c (inh, clo) = (AList.update p (List.insert c (lookup_set inh p)) inh, clo2)"
    "wf_gomap clo2" "dom (map_of clo2) = dom (map_of clo1)"
    "\<And>r. r \<in> dom (map_of clo1) \<Longrightarrow> set (lookup_set clo2 r) = set (lookup_set clo1 r) \<union>
       (if r = p \<or> p \<in> set (lookup_set clo1 r) then set (lookup_set clo1 c) else {})"
proof
  define anc where "anc = p # map fst (filter (\<lambda>(a, ds). p \<in> set ds \<and> a \<noteq> p) clo1)"
  define clo2 where "clo2 = fold (add_descendants (lookup_set clo1 c)) anc clo1"
  show "add_edge p c (inh, clo) = (AList.update p (List.insert c (lookup_set inh p)) inh, clo2)"
    using assms by (simp add: add_edge_def Let_def anc_def clo2_def)
  have wf1: "wf_gomap clo1" using assms by (simp add: clo1_def)
  then show "wf_gomap clo2" by (simp add: clo2_def wf_fold_add_descendants)
  have "p \<in> dom (map_of clo1)" by (simp add: clo1_def)
  moreover have "fst ` set clo1 = dom (map_of clo1)" by (simp add: gomap_dom)
  ultimately have "set anc \<subseteq> dom (map_of clo1)" by (force simp: anc_def)
  then show "dom (map_of clo2) = dom (map_of clo1)"
    by (auto simp: clo2_def dom_fold_add_descendants)
  fix r assume "r \<in> dom (map_of clo1)"
  then obtain ds where ds: "map_of clo1 r = Some ds" by auto
  then have ds_iff: "(r, ds') \<in> set clo1 \<longleftrightarrow> ds' = ds" for ds'
    using wf_gomap_in_iff [OF wf1, of r ds'] by auto
  have "r \<in> set anc \<longleftrightarrow> r = p \<or> (\<exists>ds'. (r, ds') \<in> set clo1 \<and> p \<in> set ds')"
    by (auto simp: anc_def image_iff split_beta)
  then have anc: "r \<in> set anc \<longleftrightarrow> r = p \<or> p \<in> set ds" by (simp add: ds_iff)
  have "lookup_set clo1 r = ds" using ds by (simp add: lookup_set_def)
  then have "r \<in> set anc \<longleftrightarrow> r = p \<or> p \<in> set (lookup_set clo1 r)" using anc by simp
  then show "set (lookup_set clo2 r) = set (lookup_set clo1 r) \<union>
      (if r = p \<or> p \<in> set (lookup_set clo1 r) then set (lookup_set clo1 c) else {})"
    unfolding clo2_def lookup_fold_add_descendants by (simp add: Un_commute)
qed

lemma inh_edges_add_edge [simp]:
  "inh_edges (fst (add_edge p c (inh, clo))) = insert (p, c) (inh_edges inh)"
proof (cases "c \<in> set (lookup_set inh p)")
  case True
  then show ?thesis by (auto simp: add_edge_def inh_edges_def)
next
  case False
  then have "fst (add_edge p c (inh, clo)) = AList.update p (List.insert c (lookup_set inh p)) inh"
    by (simp add: add_edge_def Let_def)
  then show ?thesis by (simp only: inh_edges_insert)
qed

text \<open>Adding an edge keeps the invariant.\<close>

lemma closure_ok_add_edge:
  assumes "closure_ok (inh, clo)"
  shows "closure_ok (add_edge p c (inh, clo))"
proof (cases "c \<in> set (lookup_set inh p)")
  case True
  with assms show ?thesis by (simp add: add_edge_def)
next
  case False
  let ?E = "inh_edges inh" and ?clo1 = "ensure_self c (ensure_self p clo)"
  have ok1: "closure_ok (inh, ?clo1)" using assms by (simp add: closure_ok_ensure_self)
  have "wf_gomap clo" using assms by (simp add: closure_ok_def)
  then obtain clo2 where res:
      "add_edge p c (inh, clo) = (AList.update p (List.insert c (lookup_set inh p)) inh, clo2)"
    and wf2: "wf_gomap clo2" and dom2: "dom (map_of clo2) = dom (map_of ?clo1)"
    and look: "\<And>r. r \<in> dom (map_of ?clo1) \<Longrightarrow> set (lookup_set clo2 r) = set (lookup_set ?clo1 r) \<union>
       (if r = p \<or> p \<in> set (lookup_set ?clo1 r) then set (lookup_set ?clo1 c) else {})"
    using add_edge_new [OF _ False] by metis
  have reach: "set (lookup_set ?clo1 r) = ?E\<^sup>* `` {r}" if "r \<in> dom (map_of ?clo1)" for r
    using ok1 that by (simp only: closure_ok_def fst_conv snd_conv)
  have "c \<in> dom (map_of ?clo1)" by simp
  then have "set (lookup_set clo2 r) = (insert (p, c) ?E)\<^sup>* `` {r}" if "r \<in> dom (map_of ?clo1)" for r
    unfolding look [OF that] using reach [OF that] reach [of c] by (auto simp: rtrancl_insert)
  moreover have "Field (insert (p, c) ?E) \<subseteq> dom (map_of ?clo1)"
    using ok1 by (auto simp: closure_ok_def)
  moreover have "wf_gomap inh" using assms by (simp add: closure_ok_def)
  ultimately show ?thesis using wf2
    by (simp add: res closure_ok_def dom2 inh_edges_insert del: dom_ensure_self)
qed

text \<open>Registering a role gives it its own entry.\<close>

definition add_self :: "string \<Rightarrow> role_sets \<Rightarrow> role_sets" where
  "add_self r clo = AList.update r (List.insert r (lookup_set clo r)) clo"

lemma closure_ok_add_self:
  assumes "closure_ok (inh, clo)"
  shows "closure_ok (inh, add_self r clo)"
proof (cases "map_of clo r = None")
  case True
  then have "add_self r clo = ensure_self r clo"
    by (simp add: add_self_def ensure_self_def lookup_set_def)
  with assms show ?thesis by (simp add: closure_ok_ensure_self)
next
  case False
  with assms have "set (lookup_set clo r) = (inh_edges inh)\<^sup>* `` {r}" by (auto simp: closure_ok_def)
  then have "r \<in> set (lookup_set clo r)" by auto
  then have "lookup_set (add_self r clo) k = lookup_set clo k" for k
    by (simp add: add_self_def)
  moreover have "dom (map_of (add_self r clo)) = dom (map_of clo)"
    using False by (auto simp: add_self_def)
  moreover have "wf_gomap (add_self r clo)" using assms by (simp add: add_self_def closure_ok_def)
  ultimately show ?thesis using assms by (simp add: closure_ok_def)
qed

text \<open>Under the invariant an expansion is the set of roles reachable along the edges.\<close>

lemma expansion_reachable:
  assumes "closure_ok (inh, clo)"
  shows "expansion clo roleIDs = (inh_edges inh)\<^sup>* `` {r \<in> TrimSpace ` set roleIDs. r \<noteq> ''''}"
proof -
  have "insert r (set (lookup_set clo r)) = (inh_edges inh)\<^sup>* `` {r}" for r
  proof (cases "r \<in> dom (map_of clo)")
    case True
    with assms show ?thesis by (auto simp: closure_ok_def)
  next
    case False
    with assms have "r \<notin> Field (inh_edges inh)" by (auto simp: closure_ok_def)
    with False show ?thesis by (simp add: rtrancl_no_edges lookup_not_dom)
  qed
  then show ?thesis by (auto simp: expansion_def)
qed

section \<open>Deleting a role\<close>

lemma lookup_drop_role:
  "lookup_set (drop_role r m) k = (if k = r then [] else removeAll r (lookup_set m k))"
  by (simp add: drop_role_def lookup_set_map_snd)

lemma wf_drop_role [simp]: "wf_gomap m \<Longrightarrow> wf_gomap (drop_role r m)"
  by (simp add: drop_role_def)

lemma dom_drop_role [simp]: "dom (map_of (drop_role r m)) = dom (map_of m) - {r}"
  by (auto simp: drop_role_def map_of_map_snd dom_def)

lemma inh_edges_drop_role:
  "inh_edges (drop_role r inh) = {(p, c) \<in> inh_edges inh. p \<noteq> r \<and> c \<noteq> r}"
  by (auto simp: inh_edges_def lookup_drop_role split: if_splits)

text \<open>
  After a deletion the closure is no longer exact (a descendant reached only through the deleted
  role stays), but it still holds everything that the remaining edges reach, and the deleted role
  is in no set. This weaker invariant is kept by every operation.
\<close>

definition closure_covers :: "role_sets \<times> role_sets \<Rightarrow> bool" where
  "closure_covers g \<longleftrightarrow> wf_gomap (fst g) \<and> wf_gomap (snd g) \<and>
     Field (inh_edges (fst g)) \<subseteq> dom (map_of (snd g)) \<and>
     (\<forall>r \<in> dom (map_of (snd g)). (inh_edges (fst g))\<^sup>* `` {r} \<subseteq> set (lookup_set (snd g) r))"

lemma closure_ok_covers: "closure_ok g \<Longrightarrow> closure_covers g"
  by (simp add: closure_ok_def closure_covers_def)

lemma closure_covers_drop_role:
  assumes "closure_covers (inh, clo)"
  shows "closure_covers (drop_role r inh, drop_role r clo)"
proof -
  let ?E = "inh_edges inh" and ?E' = "inh_edges (drop_role r inh)"
  have sub: "?E'\<^sup>* \<subseteq> ?E\<^sup>*" by (rule rtrancl_mono) (auto simp: inh_edges_drop_role)
  have avoid: "(q, y) \<in> ?E'\<^sup>* \<Longrightarrow> q \<noteq> r \<Longrightarrow> y \<noteq> r" for q y
    by (induction rule: rtrancl_induct) (auto simp: inh_edges_drop_role)
  have "?E'\<^sup>* `` {q} \<subseteq> set (lookup_set (drop_role r clo) q)"
    if "q \<in> dom (map_of clo) - {r}" for q
    using that assms sub avoid by (auto simp: closure_covers_def lookup_drop_role) blast
  moreover have "Field ?E' \<subseteq> dom (map_of clo) - {r}"
    using assms by (auto simp: closure_covers_def inh_edges_drop_role Field_def)
  ultimately show ?thesis using assms by (auto simp: closure_covers_def)
qed

lemma closure_covers_ensure_self:
  assumes "closure_covers (inh, clo)"
  shows "closure_covers (inh, ensure_self r clo)"
proof (cases "map_of clo r = None")
  case True
  with assms have "r \<notin> Field (inh_edges inh)" by (auto simp: closure_covers_def)
  then have self: "(inh_edges inh)\<^sup>* `` {r} = {r}" by (rule rtrancl_no_edges)
  have "(inh_edges inh)\<^sup>* `` {q} \<subseteq> set (lookup_set (ensure_self r clo) q)"
    if "q \<in> insert r (dom (map_of clo))" for q
    using that assms self True by (cases "q = r") (auto simp: closure_covers_def lookup_ensure_self)
  with assms show ?thesis by (auto simp: closure_covers_def)
next
  case False
  then have "ensure_self r clo = clo" by (simp only: ensure_self_def if_False)
  with assms show ?thesis by simp
qed

lemma closure_covers_add_self:
  assumes "closure_covers (inh, clo)"
  shows "closure_covers (inh, add_self r clo)"
proof (cases "map_of clo r = None")
  case True
  then have "add_self r clo = ensure_self r clo"
    by (simp add: add_self_def ensure_self_def lookup_set_def)
  with assms show ?thesis by (simp add: closure_covers_ensure_self)
next
  case False
  then have "dom (map_of (add_self r clo)) = dom (map_of clo)" by (auto simp: add_self_def)
  moreover have "set (lookup_set clo k) \<subseteq> set (lookup_set (add_self r clo) k)" for k
    by (auto simp: add_self_def)
  moreover have "wf_gomap (add_self r clo)" using assms by (simp add: add_self_def closure_covers_def)
  ultimately show ?thesis using assms by (fastforce simp: closure_covers_def)
qed

lemma closure_covers_add_edge:
  assumes "closure_covers (inh, clo)"
  shows "closure_covers (add_edge p c (inh, clo))"
proof (cases "c \<in> set (lookup_set inh p)")
  case True
  with assms show ?thesis by (simp add: add_edge_def)
next
  case False
  let ?E = "inh_edges inh" and ?clo1 = "ensure_self c (ensure_self p clo)"
  have ok1: "closure_covers (inh, ?clo1)" using assms by (simp add: closure_covers_ensure_self)
  have "wf_gomap clo" using assms by (simp add: closure_covers_def)
  then obtain clo2 where res:
      "add_edge p c (inh, clo) = (AList.update p (List.insert c (lookup_set inh p)) inh, clo2)"
    and wf2: "wf_gomap clo2" and dom2: "dom (map_of clo2) = dom (map_of ?clo1)"
    and look: "\<And>r. r \<in> dom (map_of ?clo1) \<Longrightarrow> set (lookup_set clo2 r) = set (lookup_set ?clo1 r) \<union>
       (if r = p \<or> p \<in> set (lookup_set ?clo1 r) then set (lookup_set ?clo1 c) else {})"
    using add_edge_new [OF _ False] by metis
  have reach: "?E\<^sup>* `` {r} \<subseteq> set (lookup_set ?clo1 r)" if "r \<in> dom (map_of ?clo1)" for r
    using ok1 that by (simp only: closure_covers_def fst_conv snd_conv)
  have "c \<in> dom (map_of ?clo1)" by simp
  then have "(insert (p, c) ?E)\<^sup>* `` {r} \<subseteq> set (lookup_set clo2 r)" if "r \<in> dom (map_of ?clo1)" for r
    unfolding look [OF that] using reach [OF that] reach [of c] by (auto simp: rtrancl_insert)
  moreover have "Field (insert (p, c) ?E) \<subseteq> dom (map_of ?clo1)"
    using ok1 by (auto simp: closure_covers_def)
  moreover have "wf_gomap inh" using assms by (simp add: closure_covers_def)
  ultimately show ?thesis using wf2
    by (simp add: res closure_covers_def dom2 inh_edges_insert del: dom_ensure_self)
qed

lemma expansion_covers:
  assumes "closure_covers (inh, clo)"
  shows "(inh_edges inh)\<^sup>* `` {r \<in> TrimSpace ` set roleIDs. r \<noteq> ''''} \<subseteq> expansion clo roleIDs"
proof -
  have "(inh_edges inh)\<^sup>* `` {r} \<subseteq> insert r (set (lookup_set clo r))" for r
  proof (cases "r \<in> dom (map_of clo)")
    case True
    with assms show ?thesis by (auto simp: closure_covers_def)
  next
    case False
    with assms have "r \<notin> Field (inh_edges inh)" by (auto simp: closure_covers_def)
    then show ?thesis by (simp add: rtrancl_no_edges)
  qed
  then show ?thesis unfolding expansion_def by fast
qed

end
