(* ===== verification/Store_Interface.thy ===== *)
theory Store_Interface
  imports Role_Graph
begin

text \<open>
  The two interfaces of \<open>store.go\<close>. A Go interface value is a table of methods together with the
  data they work on: \<open>identity_provider\<close> is such a table with its data closed over (the service
  only queries it), and \<open>'s store_ops\<close> is the method table of a \<open>PermissionStore\<close> whose data has
  type \<open>'s\<close>. Reads take the data and return a result; writes return an error (or \<open>None\<close>, Go's
  nil) together with the new data. Reads that filter expired grants take the current time.

  The locales state what the service may rely on; every store of the repository interprets the
  ones it satisfies on its own operations.
\<close>

section \<open>Method tables\<close>

record identity_provider =
  ip_GetUserGroups :: "string \<Rightarrow> string list result"
  ip_GetUserTeams :: "string \<Rightarrow> string list result"
  ip_GetGroupMembers :: "string \<Rightarrow> string list result"
  ip_IsUserInGroup :: "string \<Rightarrow> string \<Rightarrow> bool result"
  ip_IsUserInTeam :: "string \<Rightarrow> string \<Rightarrow> bool result"

type_synonym 's update = "goerror option \<times> 's"

record 's store_ops =
  op_RoleDefinitions :: "'s \<Rightarrow> role list result"
  op_RoleDefinition :: "'s \<Rightarrow> string \<Rightarrow> role result"
  op_CreateRole :: "'s \<Rightarrow> role \<Rightarrow> 's update"
  op_UpdateRole :: "'s \<Rightarrow> role \<Rightarrow> 's update"
  op_DeleteRole :: "'s \<Rightarrow> string \<Rightarrow> 's update"
  op_AddRoleInheritance :: "'s \<Rightarrow> string \<Rightarrow> string \<Rightarrow> 's update"
  op_RoleAssignmentsForPrincipal :: "'s \<Rightarrow> principal_ref \<Rightarrow> role_assignment list result"
  op_RoleAssignmentsForRoleID :: "'s \<Rightarrow> string \<Rightarrow> role_assignment_hit list result"
  op_AssignRole :: "'s \<Rightarrow> principal_ref \<Rightarrow> string \<Rightarrow> role list \<Rightarrow> bindings \<Rightarrow> 's update"
  op_UnassignRole :: "'s \<Rightarrow> principal_ref \<Rightarrow> string \<Rightarrow> role list \<Rightarrow> bindings \<Rightarrow> 's update"
  op_GrantsForPrincipal :: "time \<Rightarrow> 's \<Rightarrow> principal_ref \<Rightarrow> grant list result"
  op_GrantsForOwners :: "time \<Rightarrow> 's \<Rightarrow> principal_ref list \<Rightarrow> request \<Rightarrow> grant list result"
  op_CreateGrant :: "'s \<Rightarrow> grant \<Rightarrow> 's update"
  op_PrincipalsWithGrant :: "time \<Rightarrow> 's \<Rightarrow> request \<Rightarrow> principal_hit list result"
  op_ExpandRoles :: "'s \<Rightarrow> string list \<Rightarrow> string list result"
  op_DeleteGrantsForOwner :: "'s \<Rightarrow> principal_kind \<Rightarrow> string \<Rightarrow> 's update"
  op_DisableBuiltInRole :: "'s \<Rightarrow> string \<Rightarrow> 's update"
  op_EnableBuiltInRole :: "'s \<Rightarrow> string \<Rightarrow> 's update"
  op_DisabledBuiltInRoles :: "'s \<Rightarrow> string list result"
  op_ListGrants :: "'s \<Rightarrow> grant_query \<Rightarrow> grant_query_result result"
  op_BulkCreateGrants :: "('s \<Rightarrow> grant list \<Rightarrow> 's update) option"
  \<comment> \<open>\<open>BulkGrantStore.CreateGrants\<close>, for stores that implement the optional extension\<close>

section \<open>Contracts\<close>

text \<open>Owners are compared by their text keys.\<close>

definition owned_by :: "principal_ref list \<Rightarrow> grant \<Rightarrow> bool" where
  "owned_by owners g \<longleftrightarrow> principalKey (grant_owner g) \<in> principalKey ` set owners"

definition perm_filter :: "request \<Rightarrow> grant \<Rightarrow> bool" where
  "perm_filter req g \<longleftrightarrow> rq_Perm req = '''' \<or> gr_PermissionName g = rq_Perm req"

definition scope_filter :: "request \<Rightarrow> grant \<Rightarrow> bool" where
  "scope_filter req g \<longleftrightarrow> scopeMatches (gr_TeamScope g) (rq_TeamID req) \<and>
     (case gr_ObjectScope g of None \<Rightarrow> True | Some os \<Rightarrow> scopeMatches os (rq_Object req))"

definition valid_owners :: "principal_ref list \<Rightarrow> bool" where
  "valid_owners owners \<longleftrightarrow> (\<forall>p \<in> set owners. PrincipalRef_Validate p = None)"

text \<open>
  Every store: a read for owners returns stored, unexpired grants of these owners, and only
  grants of the requested permission.
\<close>

locale grant_reader =
  fixes ops :: "'s store_ops"
    and grants_of :: "'s \<Rightarrow> grant list"
    and inv :: "'s \<Rightarrow> bool"
  assumes read_sound: "inv st \<Longrightarrow> op_GrantsForOwners ops now st owners req = Inr gs \<Longrightarrow> g \<in> set gs \<Longrightarrow>
    g \<in> set (grants_of st) \<and> owned_by owners g \<and> \<not> IsExpiredAt g now \<and> perm_filter req g"
begin

lemma read_unexpired:
  "inv st \<Longrightarrow> op_GrantsForOwners ops now st owners req = Inr gs \<Longrightarrow> g \<in> set gs \<Longrightarrow> \<not> IsExpiredAt g now"
  using read_sound by blast

lemma read_nothing:
  assumes "inv st" "op_GrantsForOwners ops now st owners req = Inr gs"
    and "\<And>g. g \<in> set (grants_of st) \<Longrightarrow> owned_by owners g \<Longrightarrow> \<not> perm_filter req g"
  shows "gs = []"
  using assms read_sound by (cases gs) fastforce+

end

text \<open>A store whose read for valid owners never fails and applies the scope filter exactly.\<close>

locale scoped_reader = grant_reader +
  assumes read_total: "inv st \<Longrightarrow> valid_owners owners \<Longrightarrow> \<exists>gs. op_GrantsForOwners ops now st owners req = Inr gs"
    and read_exact: "inv st \<Longrightarrow> op_GrantsForOwners ops now st owners req = Inr gs \<Longrightarrow>
      g \<in> set gs \<longleftrightarrow> g \<in> set (grants_of st) \<and> owned_by owners g \<and> \<not> IsExpiredAt g now \<and>
        perm_filter req g \<and> scope_filter req g"
begin

text \<open>No grant that matches a request as it is stored is lost by the filter.\<close>

lemma matching_grant_read:
  assumes "inv st" "op_GrantsForOwners ops now st owners req = Inr gs"
    and "g \<in> set (grants_of st)" "owned_by owners g" "\<not> IsExpiredAt g now"
    and "grantMatchesRequest g req" "gr_ObjectScope g \<noteq> Some ''''"
  shows "g \<in> set gs"
proof -
  have "scope_filter req g"
    using grantMatches_scopeMatches [OF assms(6,7)] by (auto simp: scope_filter_def split: option.splits)
  moreover have "perm_filter req g"
    using assms(6) by (simp add: perm_filter_def grantMatchesRequest_iff)
  ultimately show ?thesis using read_exact [OF assms(1,2)] assms(3-5) by blast
qed

end

text \<open>The writes of grants, and their specification on a plain list of grants.\<close>

datatype grant_call = CreateCall grant | DeleteCall principal_kind string

fun apply_call :: "'s store_ops \<Rightarrow> grant_call \<Rightarrow> 's \<Rightarrow> 's" where
  "apply_call ops (CreateCall g) st = snd (op_CreateGrant ops st g)"
| "apply_call ops (DeleteCall k i) st = snd (op_DeleteGrantsForOwner ops st k i)"

definition run_calls :: "'s store_ops \<Rightarrow> grant_call list \<Rightarrow> 's \<Rightarrow> 's" where
  "run_calls ops calls st = fold (apply_call ops) calls st"

fun spec_call :: "grant_call \<Rightarrow> grant list \<Rightarrow> grant list" where
  "spec_call (CreateCall g) gs = gs @ [g]"
| "spec_call (DeleteCall k i) gs = filter (\<lambda>g. \<not> (gr_OwnerKind g = k \<and> gr_OwnerID g = i)) gs"

definition spec_run :: "grant_call list \<Rightarrow> grant list \<Rightarrow> grant list" where
  "spec_run calls gs = fold spec_call calls gs"

fun wf_call :: "grant_call \<Rightarrow> bool" where
  "wf_call (CreateCall g) \<longleftrightarrow> wf_grant g \<and> gr_OwnerID g \<noteq> '''' \<and> gr_PermissionName g \<noteq> '''' \<and> gr_TeamScope g \<noteq> ''''"
| "wf_call (DeleteCall k i) \<longleftrightarrow> True"

text \<open>A store whose writes have the expected effect on the stored grants.\<close>

locale grant_store = scoped_reader +
  assumes create_stores: "inv st \<Longrightarrow> wf_grant g \<Longrightarrow> gr_OwnerID g \<noteq> '''' \<Longrightarrow> gr_PermissionName g \<noteq> '''' \<Longrightarrow>
      gr_TeamScope g \<noteq> '''' \<Longrightarrow>
      \<exists>st'. op_CreateGrant ops st g = (None, st') \<and> inv st' \<and> grants_of st' = grants_of st @ [g]"
    and delete_removes: "inv st \<Longrightarrow> op_DeleteGrantsForOwner ops st kind oid = (e, st') \<Longrightarrow>
      e = None \<and> inv st' \<and>
      grants_of st' = filter (\<lambda>g. \<not> (gr_OwnerKind g = kind \<and> gr_OwnerID g = oid)) (grants_of st)"
begin

text \<open>A run of writes has the effect of the same run on a plain list.\<close>

lemma run_grant_calls:
  "inv st \<Longrightarrow> \<forall>c \<in> set calls. wf_call c \<Longrightarrow>
     inv (run_calls ops calls st) \<and> grants_of (run_calls ops calls st) = spec_run calls (grants_of st)"
proof (induction calls arbitrary: st)
  case (Cons c calls)
  show ?case
  proof (cases c)
    case (CreateCall g)
    with Cons.prems obtain st1 where st1: "op_CreateGrant ops st g = (None, st1)" "inv st1"
      "grants_of st1 = grants_of st @ [g]"
      using create_stores [of st g] by auto
    with Cons.IH [of st1] Cons.prems CreateCall show ?thesis by (simp add: run_calls_def spec_run_def)
  next
    case (DeleteCall k i)
    obtain e st1 where st1: "op_DeleteGrantsForOwner ops st k i = (e, st1)" by fastforce
    with delete_removes [OF Cons.prems(1) st1] Cons.IH [of st1] Cons.prems DeleteCall
    show ?thesis by (simp add: run_calls_def spec_run_def)
  qed
qed (simp add: run_calls_def spec_run_def)

lemma run_read:
  assumes "inv st" "grants_of st = []" "\<forall>c \<in> set calls. wf_call c" "valid_owners owners"
  shows "\<exists>gs. op_GrantsForOwners ops now (run_calls ops calls st) owners req = Inr gs \<and>
    set gs = {g \<in> set (spec_run calls []). owned_by owners g \<and> \<not> IsExpiredAt g now \<and>
      perm_filter req g \<and> scope_filter req g}"
proof -
  have run: "inv (run_calls ops calls st)" "grants_of (run_calls ops calls st) = spec_run calls []"
    using run_grant_calls [OF assms(1,3)] assms(2) by auto
  from read_total [OF run(1) assms(4)] obtain gs
    where gs: "op_GrantsForOwners ops now (run_calls ops calls st) owners req = Inr gs" by blast
  from read_exact [OF run(1) gs] gs run(2) show ?thesis by (auto simp: set_eq_iff)
qed

text \<open>What was created is read back; what was deleted is not.\<close>

lemma created_is_read:
  assumes "inv st" "wf_grant g" "gr_OwnerID g \<noteq> ''''" "gr_PermissionName g \<noteq> ''''" "gr_TeamScope g \<noteq> ''''"
    and "op_CreateGrant ops st g = (None, st')" "op_GrantsForOwners ops now st' owners req = Inr gs"
    and "owned_by owners g" "\<not> IsExpiredAt g now" "perm_filter req g" "scope_filter req g"
  shows "g \<in> set gs"
proof -
  obtain st'' where "op_CreateGrant ops st g = (None, st'')" "inv st''" "grants_of st'' = grants_of st @ [g]"
    using create_stores assms(1-5) by blast
  with assms(6) have "inv st'" "g \<in> set (grants_of st')" by auto
  with assms(7-) show ?thesis using read_exact by blast
qed

lemma deleted_is_not_read:
  assumes "inv st" "op_DeleteGrantsForOwner ops st kind oid = (e, st')"
    and "op_GrantsForOwners ops now st' owners req = Inr gs" "g \<in> set gs"
  shows "\<not> (gr_OwnerKind g = kind \<and> gr_OwnerID g = oid)"
proof -
  have "inv st'" and grants: "grants_of st' = filter (\<lambda>g. \<not> (gr_OwnerKind g = kind \<and> gr_OwnerID g = oid)) (grants_of st)"
    using delete_removes [OF assms(1,2)] by auto
  then have "g \<in> set (grants_of st')" using read_sound assms(3,4) by blast
  with grants show ?thesis by simp
qed

end

text \<open>
  A store that expands roles along its inheritance edges: for clean, non-empty role IDs the
  result lists exactly the reachable roles, each once.
\<close>

locale role_expander =
  fixes ops :: "'s store_ops"
    and edges_of :: "'s \<Rightarrow> (string \<times> string) set"
    and inv :: "'s \<Rightarrow> bool"
  assumes expand_reachable: "inv st \<Longrightarrow> \<forall>r \<in> set ids. clean r \<and> r \<noteq> '''' \<Longrightarrow>
    \<exists>rs. op_ExpandRoles ops st ids = Inr rs \<and> distinct rs \<and> set rs = (edges_of st)\<^sup>* `` set ids"
begin

lemma expand_contains_root:
  assumes "inv st" "clean r" "r \<noteq> ''''" "op_ExpandRoles ops st [r] = Inr rs"
  shows "r \<in> set rs"
  using expand_reachable [of st "[r]"] assms by auto

lemma expand_step_closed:
  assumes "inv st" "clean r" "r \<noteq> ''''" "op_ExpandRoles ops st [r] = Inr rs"
    and "p \<in> set rs" "(p, c) \<in> edges_of st"
  shows "c \<in> set rs"
  using expand_reachable [of st "[r]"] assms by (auto intro: rtrancl_into_rtrancl)

end

text \<open>A store whose inheritance writes add exactly the edge, unless an ID is empty or both are equal.\<close>

definition inherit_all :: "'s store_ops \<Rightarrow> (string \<times> string) list \<Rightarrow> 's \<Rightarrow> 's" where
  "inherit_all ops ps st = fold (\<lambda>(p, c) st. snd (op_AddRoleInheritance ops st p c)) ps st"

definition proper_edges :: "(string \<times> string) list \<Rightarrow> (string \<times> string) set" where
  "proper_edges ps = {(p, c) \<in> set ps. p \<noteq> '''' \<and> c \<noteq> '''' \<and> p \<noteq> c}"

locale inheritance_store = role_expander +
  assumes inherit: "inv st \<Longrightarrow> op_AddRoleInheritance ops st p c = (e, st') \<Longrightarrow>
    inv st' \<and> edges_of st' = edges_of st \<union> proper_edges [(p, c)]"
begin

lemma inherit_all_edges:
  "inv st \<Longrightarrow> inv (inherit_all ops ps st) \<and> edges_of (inherit_all ops ps st) = edges_of st \<union> proper_edges ps"
proof (induction ps arbitrary: st)
  case (Cons pc ps)
  obtain p c where pc: "pc = (p, c)" by fastforce
  obtain e st1 where st1: "op_AddRoleInheritance ops st p c = (e, st1)" by fastforce
  from inherit [OF Cons.prems st1] have "inv st1" "edges_of st1 = edges_of st \<union> proper_edges [(p, c)]" by simp_all
  moreover have "inherit_all ops (pc # ps) st = inherit_all ops ps st1" by (simp add: inherit_all_def pc st1)
  ultimately show ?case using Cons.IH [of st1] by (auto simp: proper_edges_def pc)
qed (simp add: inherit_all_def proper_edges_def)

text \<open>Whatever edges are added, a role expands to what they reach from it.\<close>

lemma inherit_all_expand:
  assumes "inv st" "edges_of st = {}" "\<forall>r \<in> set ids. clean r \<and> r \<noteq> ''''"
  shows "\<exists>rs. op_ExpandRoles ops (inherit_all ops ps st) ids = Inr rs \<and> distinct rs \<and>
    set rs = (proper_edges ps)\<^sup>* `` set ids"
  using expand_reachable [of "inherit_all ops ps st" ids] inherit_all_edges [OF assms(1), of ps] assms(2,3) by simp

end

text \<open>
  A store of role assignments: what the principals of a kind it supports (\<open>holder\<close>) are assigned,
  what assigning and unassigning change, and the agreement of the two lookups. Whether a second
  assignment of the same role with equal bindings is kept is left to the store.
\<close>

locale assignment_store =
  fixes ops :: "'s store_ops"
    and roles_of :: "'s \<Rightarrow> principal_ref \<Rightarrow> role_assignment list"
    and holder :: "principal_ref \<Rightarrow> bool"
    and inv :: "'s \<Rightarrow> bool"
  assumes lookup_roles: "inv st \<Longrightarrow> holder p \<Longrightarrow> op_RoleAssignmentsForPrincipal ops st p = Inr (roles_of st p)"
    and assign_kept: "inv st \<Longrightarrow> op_AssignRole ops st p r builtIns b = (None, st') \<Longrightarrow>
      holder p \<and> inv st' \<and>
      (\<exists>a \<in> set (roles_of st' p). ra_RoleID a = r \<and> mapEquals (ra_BindingValues a) (copy_map b))"
    and assign_only: "inv st \<Longrightarrow> op_AssignRole ops st p r builtIns b = (None, st') \<Longrightarrow> holder q \<Longrightarrow>
      set (roles_of st q) \<subseteq> set (roles_of st' q) \<and>
      set (roles_of st' q) \<subseteq> set (roles_of st q) \<union>
        (if q = p then {\<lparr>ra_RoleID = r, ra_BindingValues = copy_map b\<rparr>} else {})"
    and unassign_removes: "inv st \<Longrightarrow> op_UnassignRole ops st p r builtIns b = (None, st') \<Longrightarrow>
      holder p \<and> inv st' \<and> (\<forall>q. holder q \<longrightarrow> roles_of st' q =
        (if q = p then filter (\<lambda>a. \<not> (ra_RoleID a = r \<and> BindingValuesEqual (ra_BindingValues a) b)) (roles_of st q)
         else roles_of st q))"
    and reverse_lookup: "inv st \<Longrightarrow> \<exists>hits. op_RoleAssignmentsForRoleID ops st r = Inr hits \<and>
      (\<forall>h. h \<in> set hits \<longleftrightarrow> rh_RoleID h = r \<and> holder (rh_Principal h) \<and>
        \<lparr>ra_RoleID = r, ra_BindingValues = rh_BindingValues h\<rparr> \<in> set (roles_of st (rh_Principal h)))"
begin

lemma unassigned_not_listed:
  assumes "inv st" "op_UnassignRole ops st p r builtIns b = (None, st')"
  shows "\<exists>hits. op_RoleAssignmentsForRoleID ops st' r = Inr hits \<and>
    (\<forall>h \<in> set hits. \<not> (rh_Principal h = p \<and> BindingValuesEqual (rh_BindingValues h) b))"
proof -
  have "inv st'" and kept: "roles_of st' p =
      filter (\<lambda>a. \<not> (ra_RoleID a = r \<and> BindingValuesEqual (ra_BindingValues a) b)) (roles_of st p)"
    using unassign_removes [OF assms] by auto
  from reverse_lookup [OF this(1), of r] obtain hits where
    hits: "op_RoleAssignmentsForRoleID ops st' r = Inr hits"
      "\<And>h. h \<in> set hits \<Longrightarrow> \<lparr>ra_RoleID = r, ra_BindingValues = rh_BindingValues h\<rparr> \<in> set (roles_of st' (rh_Principal h))"
    by blast
  have "\<not> (rh_Principal h = p \<and> BindingValuesEqual (rh_BindingValues h) b)" if "h \<in> set hits" for h
    using hits(2) [OF that] kept by auto
  with hits(1) show ?thesis by blast
qed

lemma assigned_is_listed:
  assumes "inv st" "op_AssignRole ops st p r builtIns b = (None, st')"
  shows "\<exists>hits. op_RoleAssignmentsForRoleID ops st' r = Inr hits \<and>
    (\<exists>h \<in> set hits. rh_Principal h = p \<and> mapEquals (rh_BindingValues h) (copy_map b))"
proof -
  obtain a where a: "holder p" "inv st'" "a \<in> set (roles_of st' p)" "ra_RoleID a = r"
    "mapEquals (ra_BindingValues a) (copy_map b)"
    using assign_kept [OF assms] by blast
  obtain hits where hits: "op_RoleAssignmentsForRoleID ops st' r = Inr hits"
    "\<forall>h. h \<in> set hits \<longleftrightarrow> rh_RoleID h = r \<and> holder (rh_Principal h) \<and>
        \<lparr>ra_RoleID = r, ra_BindingValues = rh_BindingValues h\<rparr> \<in> set (roles_of st' (rh_Principal h))"
    using reverse_lookup [OF a(2), of r] by blast
  have "\<lparr>ra_RoleID = r, ra_BindingValues = ra_BindingValues a\<rparr> = a" using a(4) by simp
  then have "\<lparr>rh_RoleID = r, rh_BindingValues = ra_BindingValues a, rh_Principal = p\<rparr> \<in> set hits"
    using hits(2) a(1,3) by (metis role_assignment_hit.select_convs)
  with hits(1) a(5) show ?thesis by force
qed

end

text \<open>All writes of a store, and the stores whose failed writes leave them unchanged.\<close>

datatype store_write =
    WCreateGrant grant
  | WAssignRole principal_ref string "role list" bindings
  | WUnassignRole principal_ref string "role list" bindings
  | WCreateRole role
  | WUpdateRole role
  | WDeleteRole string
  | WAddRoleInheritance string string
  | WDeleteGrantsForOwner principal_kind string
  | WDisableBuiltInRole string
  | WEnableBuiltInRole string

fun run_write :: "'s store_ops \<Rightarrow> store_write \<Rightarrow> 's \<Rightarrow> 's update" where
  "run_write ops (WCreateGrant g) st = op_CreateGrant ops st g"
| "run_write ops (WAssignRole p r bs b) st = op_AssignRole ops st p r bs b"
| "run_write ops (WUnassignRole p r bs b) st = op_UnassignRole ops st p r bs b"
| "run_write ops (WCreateRole r) st = op_CreateRole ops st r"
| "run_write ops (WUpdateRole r) st = op_UpdateRole ops st r"
| "run_write ops (WDeleteRole r) st = op_DeleteRole ops st r"
| "run_write ops (WAddRoleInheritance p c) st = op_AddRoleInheritance ops st p c"
| "run_write ops (WDeleteGrantsForOwner k i) st = op_DeleteGrantsForOwner ops st k i"
| "run_write ops (WDisableBuiltInRole r) st = op_DisableBuiltInRole ops st r"
| "run_write ops (WEnableBuiltInRole r) st = op_EnableBuiltInRole ops st r"

text \<open>
  What a cache in front of a store relies on: failed writes change nothing, and time only removes
  grants from what a read returns, namely those that have expired in between.
\<close>

locale cacheable_store =
  fixes ops :: "'s store_ops"
  assumes failed_write: "run_write ops w st = (Some e, st') \<Longrightarrow> st' = st"
    and grants_age: "t \<le> now \<Longrightarrow> op_GrantsForOwners ops now st owners req =
      attempt (op_GrantsForOwners ops t st owners req) (\<lambda>gs. Inr (filter (\<lambda>g. \<not> IsExpiredAt g now) gs))"
begin

text \<open>So a list of grants read earlier is as good as a new one to everyone who drops expired grants.\<close>

lemma aged_read:
  assumes "t \<le> now" "op_GrantsForOwners ops t st owners req = Inr gs"
  shows "op_GrantsForOwners ops now st owners req = Inr (filter (\<lambda>g. \<not> IsExpiredAt g now) gs)"
  using grants_age [OF assms(1), of st owners req] assms(2) by simp

lemma write_cases:
  obtains (failed) e where "run_write ops w st = (Some e, st)"
    | (ok) st' where "run_write ops w st = (None, st')"
  using failed_write [of w st] by (cases "run_write ops w st"; cases "fst (run_write ops w st)") auto

end

text \<open>An identity provider whose five queries answer from one membership relation each.\<close>

locale membership =
  fixes provider :: "'p \<Rightarrow> identity_provider" and inv :: "'p \<Rightarrow> bool"
  assumes group_queries: "inv p \<Longrightarrow> \<exists>gs b ms. ip_GetUserGroups (provider p) u = Inr gs \<and>
      ip_IsUserInGroup (provider p) u g = Inr b \<and> ip_GetGroupMembers (provider p) g = Inr ms \<and>
      (b \<longleftrightarrow> g \<in> set gs) \<and> (b \<longleftrightarrow> u \<in> set ms)"
    and team_queries: "inv p \<Longrightarrow> \<exists>ts b. ip_GetUserTeams (provider p) u = Inr ts \<and>
      ip_IsUserInTeam (provider p) u t = Inr b \<and> (b \<longleftrightarrow> t \<in> set ts)"
begin

lemma members_groups:
  "inv p \<Longrightarrow> ip_GetUserGroups (provider p) u = Inr gs \<Longrightarrow> ip_GetGroupMembers (provider p) g = Inr ms \<Longrightarrow>
    g \<in> set gs \<longleftrightarrow> u \<in> set ms"
  using group_queries [of p u g] by auto

end

end
