(* ===== verification/BuiltIn_Registry.thy ===== *)
theory BuiltIn_Registry
  imports Store_Interface
begin

text \<open>
  The in-memory registry of built-in roles and grants (\<open>builtin_registry.go\<close>): role IDs start with
  \<open>builtin.\<close>, grants are kept once up to equivalence, and inheritance is kept with its closure.
  The lock of the source serialises the operations; each is one step here.
\<close>

section \<open>State and operations\<close>

definition BuiltInPrefix :: string where "BuiltInPrefix = ''builtin.''"

definition is_builtin :: "string \<Rightarrow> bool" where
  "is_builtin roleID \<longleftrightarrow> HasPrefix roleID BuiltInPrefix"

record built_in_registry =
  bi_roles :: "(string, role) gomap"
  bi_grants :: "grant list"
  bi_roleInheritance :: role_sets
  bi_roleClosure :: role_sets

definition newBuiltInRegistry :: built_in_registry where
  "newBuiltInRegistry = \<lparr>bi_roles = [], bi_grants = [], bi_roleInheritance = [], bi_roleClosure = []\<rparr>"

definition builtIn_RegisterRole :: "built_in_registry \<Rightarrow> role \<Rightarrow> built_in_registry update" where
  "builtIn_RegisterRole r role0 =
     (if ro_ID role0 = '''' then (Some (Errorf ''role ID is required'' []), r)
      else if \<not> is_builtin (ro_ID role0)
        then (Some (Errorf ''built-in role ID must start with %q, got %q'' [BuiltInPrefix, ro_ID role0]), r)
      else if ro_Name role0 = '''' then (Some (Errorf ''role name is required'' []), r)
      else
        let role1 = role0\<lparr>ro_BuiltIn := True\<rparr> in
        (None, r\<lparr>bi_roles := AList.update (ro_ID role1) role1 (bi_roles r),
                 bi_roleClosure := add_self (ro_ID role1) (bi_roleClosure r)\<rparr>))"

definition builtIn_Role :: "built_in_registry \<Rightarrow> string \<Rightarrow> role option" where
  "builtIn_Role r roleID = map_of (bi_roles r) roleID"

definition builtIn_Roles :: "built_in_registry \<Rightarrow> role list" where
  "builtIn_Roles r = sort_key ro_ID (map snd (bi_roles r))"

definition builtIn_AddRoleInheritance ::
  "built_in_registry \<Rightarrow> string \<Rightarrow> string \<Rightarrow> built_in_registry update" where
  "builtIn_AddRoleInheritance r parent child =
     (if parent = '''' \<or> child = '''' then (Some (Errorf ''parent and child role IDs are required'' []), r)
      else if \<not> is_builtin parent
        then (Some (Errorf ''parent role ID must start with %q, got %q'' [BuiltInPrefix, parent]), r)
      else if \<not> is_builtin child
        then (Some (Errorf ''child role ID must start with %q, got %q'' [BuiltInPrefix, child]), r)
      else if parent = child then (Some (Errorf ''a role cannot inherit itself'' []), r)
      else
        let (inh, clo) = add_edge parent child (bi_roleInheritance r, bi_roleClosure r) in
        (None, r\<lparr>bi_roleInheritance := inh, bi_roleClosure := clo\<rparr>))"

definition builtIn_ExpandRoles :: "built_in_registry \<Rightarrow> string list \<Rightarrow> string list" where
  "builtIn_ExpandRoles r roleIDs = expand_roles (bi_roleClosure r) roleIDs"

definition builtIn_AddGrant :: "built_in_registry \<Rightarrow> grant \<Rightarrow> built_in_registry update" where
  "builtIn_AddGrant r g0 =
     (if gr_OwnerID g0 = '''' then (Some (Errorf ''owner ID is required'' []), r)
      else if \<not> is_builtin (gr_OwnerID g0)
        then (Some (Errorf ''built-in grant owner ID must start with %q, got %q''
               [BuiltInPrefix, gr_OwnerID g0]), r)
      else if gr_PermissionName g0 = '''' then (Some (Errorf ''permission name is required'' []), r)
      else
        let g = (if gr_TeamScope g0 = '''' then g0\<lparr>gr_TeamScope := ''*''\<rparr> else g0) in
        if list_ex (\<lambda>existing. grantsEquivalent existing g) (bi_grants r) then (None, r)
        else (None, r\<lparr>bi_grants := bi_grants r @ [cloneGrant g]\<rparr>))"

definition builtIn_GrantsForOwners ::
  "time \<Rightarrow> built_in_registry \<Rightarrow> principal_ref list \<Rightarrow> request \<Rightarrow> grant list" where
  "builtIn_GrantsForOwners now r owners req =
     (let ownerSet = pr_ID ` set (filter (\<lambda>o'. pr_Kind o' = PrincipalRole) owners) in
      map cloneGrant (filter (\<lambda>g. gr_OwnerID g \<in> ownerSet \<and> \<not> IsExpiredAt g now
        \<and> \<not> (rq_Perm req \<noteq> '''' \<and> gr_PermissionName g \<noteq> rq_Perm req)) (bi_grants r)))"

definition builtIn_RolesWithPermission :: "time \<Rightarrow> built_in_registry \<Rightarrow> string \<Rightarrow> string list" where
  "builtIn_RolesWithPermission now r perm =
     fold (\<lambda>g roleMap.
       if gr_PermissionName g = perm \<and> gr_Effect g = EffectAllow \<and> \<not> IsExpiredAt g now
       then List.insert (gr_OwnerID g) roleMap else roleMap) (bi_grants r) []"

section \<open>The registry invariant\<close>

definition wf_registry :: "built_in_registry \<Rightarrow> bool" where
  "wf_registry r \<longleftrightarrow>
     wf_gomap (bi_roles r) \<and>
     (\<forall>(k, role) \<in> set (bi_roles r). k = ro_ID role \<and> is_builtin k \<and> ro_BuiltIn role \<and> ro_Name role \<noteq> '''') \<and>
     closure_ok (bi_roleInheritance r, bi_roleClosure r) \<and>
     (\<forall>g \<in> set (bi_grants r). is_builtin (gr_OwnerID g) \<and> gr_PermissionName g \<noteq> '''' \<and>
        gr_TeamScope g \<noteq> '''' \<and> wf_grant g) \<and>
     sorted_wrt (\<lambda>a b. \<not> grantsEquivalent a b) (bi_grants r)"

lemma wf_newBuiltInRegistry [simp]: "wf_registry newBuiltInRegistry"
  by (simp add: wf_registry_def newBuiltInRegistry_def)

lemma set_alist_update: "set (AList.update k v m) \<subseteq> insert (k, v) (set m)"
  by (induction m) auto

lemma wf_registry_RegisterRole:
  assumes "wf_registry r" "builtIn_RegisterRole r role = (e, r')"
  shows "wf_registry r'"
proof (cases "e = None")
  case True
  with assms(2) have ok: "ro_ID role \<noteq> ''''" "is_builtin (ro_ID role)" "ro_Name role \<noteq> ''''"
    and r': "r' = r\<lparr>bi_roles := AList.update (ro_ID role) (role\<lparr>ro_BuiltIn := True\<rparr>) (bi_roles r),
                 bi_roleClosure := add_self (ro_ID role) (bi_roleClosure r)\<rparr>"
    by (auto simp: builtIn_RegisterRole_def Let_def split: if_splits)
  have "\<forall>(k, role) \<in> set (bi_roles r'). k = ro_ID role \<and> is_builtin k \<and> ro_BuiltIn role \<and> ro_Name role \<noteq> ''''"
    using assms(1) ok set_alist_update [of "ro_ID role" "role\<lparr>ro_BuiltIn := True\<rparr>" "bi_roles r"]
    by (auto simp: r' wf_registry_def)
  then show ?thesis using assms(1) by (simp add: wf_registry_def r' closure_ok_add_self)
next
  case False
  with assms show ?thesis by (auto simp: builtIn_RegisterRole_def Let_def split: if_splits)
qed

lemma wf_registry_AddRoleInheritance:
  assumes "wf_registry r" "builtIn_AddRoleInheritance r p c = (e, r')"
  shows "wf_registry r'"
proof -
  obtain inh clo where new: "add_edge p c (bi_roleInheritance r, bi_roleClosure r) = (inh, clo)"
    by fastforce
  then have "closure_ok (inh, clo)"
    using assms(1) closure_ok_add_edge [of "bi_roleInheritance r" "bi_roleClosure r" p c]
    by (simp add: wf_registry_def)
  moreover have "r' = r \<or> r' = r\<lparr>bi_roleInheritance := inh, bi_roleClosure := clo\<rparr>"
    using assms(2) by (simp add: builtIn_AddRoleInheritance_def new split: if_splits)
  ultimately show ?thesis using assms(1) by (auto simp: wf_registry_def)
qed

lemma grantsEquivalent_clone: "grantsEquivalent a (cloneGrant g) = grantsEquivalent a g" if "wf_grant g"
  using that by simp

lemma wf_registry_AddGrant:
  assumes "wf_registry r" "wf_grant g" "builtIn_AddGrant r g = (e, r')"
  shows "wf_registry r'"
proof -
  define g' where "g' = (if gr_TeamScope g = '''' then g\<lparr>gr_TeamScope := ''*''\<rparr> else g)"
  have "wf_grant g'" "gr_TeamScope g' \<noteq> ''''" using assms(2) by (auto simp: g'_def wf_grant_def)
  moreover have "r' = r \<or> is_builtin (gr_OwnerID g') \<and> gr_PermissionName g' \<noteq> '''' \<and>
      \<not> list_ex (\<lambda>x. grantsEquivalent x g') (bi_grants r) \<and>
      r' = r\<lparr>bi_grants := bi_grants r @ [cloneGrant g']\<rparr>"
    using assms(3) by (auto simp: builtIn_AddGrant_def g'_def Let_def split: if_splits)
  ultimately show ?thesis
    using assms(1) by (auto simp: wf_registry_def sorted_wrt_append list_ex_iff)
qed

section \<open>What the operations promise\<close>

text \<open>Registering twice is the same as registering the second definition.\<close>

lemma builtIn_Role_RegisterRole:
  assumes "builtIn_RegisterRole r role = (None, r')"
  shows "builtIn_Role r' k = (if k = ro_ID role then Some (role\<lparr>ro_BuiltIn := True\<rparr>) else builtIn_Role r k)"
  using assms by (auto simp: builtIn_RegisterRole_def builtIn_Role_def Let_def split: if_splits)

lemma set_builtIn_Roles: "set (builtIn_Roles r) = snd ` set (bi_roles r)"
  by (simp add: builtIn_Roles_def)

lemma sorted_builtIn_Roles: "sorted (map ro_ID (builtIn_Roles r))"
  by (simp add: builtIn_Roles_def)

lemma builtIn_Roles_iff:
  "wf_registry r \<Longrightarrow> role \<in> set (builtIn_Roles r) \<longleftrightarrow> builtIn_Role r (ro_ID role) = Some role"
proof -
  assume wf: "wf_registry r"
  have key: "(k, x) \<in> set (bi_roles r) \<Longrightarrow> k = ro_ID x" for k x
    using wf by (auto simp: wf_registry_def)
  have "role \<in> snd ` set (bi_roles r) \<longleftrightarrow> (ro_ID role, role) \<in> set (bi_roles r)"
  proof
    assume "role \<in> snd ` set (bi_roles r)"
    then obtain k where k: "(k, role) \<in> set (bi_roles r)" by auto
    with key [OF k] show "(ro_ID role, role) \<in> set (bi_roles r)" by simp
  qed (auto intro: rev_image_eqI)
  then show ?thesis
    using wf by (simp add: set_builtIn_Roles builtIn_Role_def wf_registry_def wf_gomap_in_iff)
qed

text \<open>Adding a grant a second time changes nothing.\<close>

lemma builtIn_AddGrant_twice:
  assumes "wf_grant g" "builtIn_AddGrant r g = (None, r')"
  shows "builtIn_AddGrant r' g = (None, r')"
proof -
  let ?g = "if gr_TeamScope g = '''' then g\<lparr>gr_TeamScope := ''*''\<rparr> else g"
  have wf: "wf_grant ?g" using assms(1) by (auto simp: wf_grant_def)
  have "list_ex (\<lambda>x. grantsEquivalent x ?g) (bi_grants r')"
    using assms(2) wf
    by (auto simp: builtIn_AddGrant_def Let_def list_ex_iff simp del: if_split split: if_splits)
  with assms(2) show ?thesis
    by (auto simp: builtIn_AddGrant_def Let_def split: if_splits)
qed

lemma equivalent_at_most_once:
  assumes "wf_grant g" "\<forall>x \<in> set gs. wf_grant x" "sorted_wrt (\<lambda>a b. \<not> grantsEquivalent a b) gs"
  shows "length (filter (grantsEquivalent g) gs) \<le> 1"
  using assms(2,3)
proof (induction gs)
  case (Cons x gs)
  show ?case
  proof (cases "grantsEquivalent g x")
    case True
    then have x: "grantsEquivalent x g" using assms(1) Cons.prems by (simp add: grantsEquivalent_sym)
    have "\<not> grantsEquivalent g y" if "y \<in> set gs" for y
      using grantsEquivalent_trans [OF _ assms(1) _ x, of y] Cons.prems that by auto
    then have "filter (grantsEquivalent g) gs = []" by (simp add: filter_empty_conv)
    with True show ?thesis by simp
  qed (use Cons in simp)
qed simp

lemma builtIn_AddGrant_present:
  assumes "wf_grant g" "builtIn_AddGrant r g = (None, r')"
  shows "\<exists>x \<in> set (bi_grants r'). grantsEquivalent x (if gr_TeamScope g = '''' then g\<lparr>gr_TeamScope := ''*''\<rparr> else g)"
proof -
  have "wf_grant (if gr_TeamScope g = '''' then g\<lparr>gr_TeamScope := ''*''\<rparr> else g)"
    using assms(1) by (auto simp: wf_grant_def)
  then show ?thesis
    using assms(2) by (auto simp: builtIn_AddGrant_def Let_def list_ex_iff simp del: if_split split: if_splits)
qed

lemma builtIn_ExpandRoles_reachable:
  assumes "wf_registry r"
  shows "set (builtIn_ExpandRoles r roleIDs) =
    (inh_edges (bi_roleInheritance r))\<^sup>* `` {x \<in> TrimSpace ` set roleIDs. x \<noteq> ''''}"
  using assms by (simp add: builtIn_ExpandRoles_def set_expand_roles expansion_reachable wf_registry_def)

lemma in_builtIn_GrantsForOwners:
  assumes "wf_registry r"
  shows "g \<in> set (builtIn_GrantsForOwners now r owners req) \<longleftrightarrow>
    g \<in> set (bi_grants r) \<and> \<lparr>pr_Kind = PrincipalRole, pr_ID = gr_OwnerID g\<rparr> \<in> set owners \<and>
    \<not> IsExpiredAt g now \<and> perm_filter req g"
proof -
  let ?owned = "pr_ID ` set (filter (\<lambda>o'. pr_Kind o' = PrincipalRole) owners)"
  have clone: "map cloneGrant (filter P (bi_grants r)) = filter P (bi_grants r)" for P
    by (rule map_idI) (use assms in \<open>simp add: wf_registry_def\<close>)
  have owned: "gr_OwnerID g \<in> ?owned \<longleftrightarrow> \<lparr>pr_Kind = PrincipalRole, pr_ID = gr_OwnerID g\<rparr> \<in> set owners"
  proof
    assume "gr_OwnerID g \<in> ?owned"
    then obtain p where p: "p \<in> set owners" "pr_Kind p = PrincipalRole" "gr_OwnerID g = pr_ID p"
      by auto
    then have "p = \<lparr>pr_Kind = PrincipalRole, pr_ID = gr_OwnerID g\<rparr>"
      unfolding principal_ref_eq_iff by simp
    with p(1) show "\<lparr>pr_Kind = PrincipalRole, pr_ID = gr_OwnerID g\<rparr> \<in> set owners" by (simp only:)
  next
    assume "\<lparr>pr_Kind = PrincipalRole, pr_ID = gr_OwnerID g\<rparr> \<in> set owners"
    then have "\<lparr>pr_Kind = PrincipalRole, pr_ID = gr_OwnerID g\<rparr> \<in>
        set (filter (\<lambda>o'. pr_Kind o' = PrincipalRole) owners)" by simp
    then show "gr_OwnerID g \<in> ?owned" by (rule rev_image_eqI) simp
  qed
  show ?thesis
    unfolding builtIn_GrantsForOwners_def Let_def clone perm_filter_def
    using owned by simp
qed

lemma set_builtIn_RolesWithPermission:
  "set (builtIn_RolesWithPermission now r perm) =
     gr_OwnerID ` {g \<in> set (bi_grants r). gr_PermissionName g = perm \<and> gr_Effect g = EffectAllow \<and>
       \<not> IsExpiredAt g now}"
proof -
  have "set (fold (\<lambda>g roleMap. if P g then List.insert (gr_OwnerID g) roleMap else roleMap) gs acc) =
      gr_OwnerID ` {g \<in> set gs. P g} \<union> set acc" for P gs acc
    by (induction gs arbitrary: acc) auto
  from this [of "\<lambda>g. gr_PermissionName g = perm \<and> gr_Effect g = EffectAllow \<and> \<not> IsExpiredAt g now"
      "bi_grants r" "[]"]
  show ?thesis by (simp add: builtIn_RolesWithPermission_def)
qed

end
