(* ===== verification/Paging.thy ===== *)
theory Paging
  imports Store_Interface
begin

text \<open>
  Queries over the stored grants (\<open>ListGrants\<close> of every store): the filter of a \<open>GrantQuery\<close> and
  the offset-based paging with its textual cursor. The three Go stores contain the same two
  pieces of code; they are defined here once.
\<close>

section \<open>Filter and page\<close>

text \<open>The filter loop: each non-empty criterion must hold.\<close>

definition query_matches :: "grant_query \<Rightarrow> grant \<Rightarrow> bool" where
  "query_matches q g \<longleftrightarrow>
     (gq_Principals q \<noteq> [] \<longrightarrow>
        list_ex (\<lambda>p. gr_OwnerKind g = pr_Kind p \<and> gr_OwnerID g = pr_ID p) (gq_Principals q)) \<and>
     (gq_TeamScopes q \<noteq> [] \<longrightarrow> list_ex (\<lambda>ts. gr_TeamScope g = ts) (gq_TeamScopes q)) \<and>
     (gq_ObjectScopes q \<noteq> [] \<longrightarrow> list_ex (\<lambda>os. gr_ObjectScope g = Some os) (gq_ObjectScopes q)) \<and>
     (gq_Permissions q \<noteq> [] \<longrightarrow> list_ex (\<lambda>p. gr_PermissionName g = p) (gq_Permissions q)) \<and>
     (gq_PermissionPrefix q \<noteq> '''' \<longrightarrow> HasPrefix (gr_PermissionName g) (gq_PermissionPrefix q))"

definition cursor_offset :: "string \<Rightarrow> int" where
  "cursor_offset cursor =
     (if cursor \<noteq> '''' then (case Atoi cursor of Some parsed \<Rightarrow> parsed | None \<Rightarrow> 0) else 0)"

text \<open>
  One page of a list: the elements from the offset on and the cursor of the next page. \<open>GoPanic\<close>
  is the panic of the slice expression.
\<close>

definition take_page :: "'a list \<Rightarrow> int \<Rightarrow> int \<Rightarrow> ('a list \<times> string) result" where
  "take_page xs offset limit =
     (let end0 = wrap64 (offset + limit);
          end1 = (if int (length xs) < end0 then int (length xs) else end0);
          nextCursor = (if end1 < int (length xs) then Itoa end1 else '''')
      in if offset < int (length xs)
         then (case go_slice xs offset end1 of
                 None \<Rightarrow> Inl (GoPanic ''slice bounds out of range'')
               | Some ys \<Rightarrow> Inr (ys, nextCursor))
         else Inr ([], nextCursor))"

definition list_limit :: "int \<Rightarrow> int" where
  "list_limit l = (if l \<le> 0 then 50 else if 1000 < l then 1000 else l)"

definition list_grants :: "grant list \<Rightarrow> grant_query \<Rightarrow> grant_query_result result" where
  "list_grants grants q =
     (let filtered = filter (query_matches q) grants in
      attempt (take_page filtered (cursor_offset (gq_Cursor q)) (list_limit (gq_Limit q)))
        (\<lambda>(page, next). Inr \<lparr>qr_Grants = page, qr_NextCursor = next, qr_TotalCount = int (length filtered)\<rparr>))"

section \<open>What a page is\<close>

text \<open>Lengths of Go slices leave room for a page below the largest \<open>int\<close>.\<close>

definition sane_length :: "'a list \<Rightarrow> bool" where
  "sane_length xs \<longleftrightarrow> int (length xs) < 2 ^ 62"

lemma list_limit_bounds: "0 < list_limit l" "list_limit l \<le> 1000"
  by (auto simp: list_limit_def)

lemma cursor_offset_Nil [simp]: "cursor_offset '''' = 0"
  by (simp add: cursor_offset_def)

lemma cursor_offset_Itoa [simp]: "in_int64 n \<Longrightarrow> cursor_offset (Itoa n) = n"
  by (simp add: cursor_offset_def Atoi_Itoa Itoa_nonempty)

text \<open>From an offset inside the list a page is the next \<open>limit\<close> elements, and the next cursor is
  the position after them, or empty at the end.\<close>

lemma take_page_inside:
  assumes "sane_length xs" "n \<le> length xs" "0 < limit" "limit \<le> 1000"
  shows "take_page xs (int n) limit =
    Inr (take (nat limit) (drop n xs),
         if n + nat limit < length xs then Itoa (int (n + nat limit)) else '''')"
proof -
  have "wrap64 (int n + limit) = int n + limit"
    using assms by (intro wrap64_id) (auto simp: in_int64_def sane_length_def)
  moreover have "take (length xs - n) (drop n xs) = take (nat limit) (drop n xs)"
    if "length xs \<le> n + nat limit"
    using that by (simp add: take_all)
  ultimately show ?thesis using assms
    by (cases "int (length xs) < int n + limit"; cases "n < length xs")
       (auto simp: take_page_def Let_def go_slice_def nat_add_distrib)
qed

text \<open>A negative offset, which a caller can send as a cursor, panics.\<close>

lemma take_page_negative:
  assumes "offset < 0"
  shows "take_page xs offset limit = Inl (GoPanic ''slice bounds out of range'')"
  using assms by (simp add: take_page_def Let_def go_slice_def)

section \<open>Walking through the pages\<close>

text \<open>
  The client's loop: start with an empty cursor and follow \<open>NextCursor\<close> until it is empty. The
  fuel counts pages; \<open>length\<close> of the filtered grants plus one is always enough, since every page
  but the last is non-empty.
\<close>

fun walk_pages :: "nat \<Rightarrow> grant list \<Rightarrow> grant_query \<Rightarrow> grant list option" where
  "walk_pages 0 grants q = None"
| "walk_pages (Suc fuel) grants q =
     (case list_grants grants q of
        Inl e \<Rightarrow> None
      | Inr r \<Rightarrow> if qr_NextCursor r = '''' then Some (qr_Grants r)
                else map_option (\<lambda>rest. qr_Grants r @ rest)
                       (walk_pages fuel grants (q\<lparr>gq_Cursor := qr_NextCursor r\<rparr>)))"

lemma query_matches_cursor [simp]: "query_matches (q\<lparr>gq_Cursor := c\<rparr>) = query_matches q"
  by (simp add: query_matches_def fun_eq_iff)

lemma walk_pages_from:
  assumes "sane_length (filter (query_matches q) grants)"
    and "cursor_offset (gq_Cursor q) = int n" "n \<le> length (filter (query_matches q) grants)"
    and "length (filter (query_matches q) grants) - n < fuel"
  shows "walk_pages fuel grants q = Some (drop n (filter (query_matches q) grants))"
  using assms
proof (induction fuel arbitrary: n q)
  case (Suc fuel)
  define xs where "xs = filter (query_matches q) grants"
  define lim where "lim = list_limit (gq_Limit q)"
  have lim: "0 < lim" "lim \<le> 1000" by (auto simp: lim_def list_limit_bounds)
  have page: "take_page xs (int n) lim =
      Inr (take (nat lim) (drop n xs), if n + nat lim < length xs then Itoa (int (n + nat lim)) else '''')"
    by (rule take_page_inside) (use Suc.prems lim in \<open>simp_all add: xs_def\<close>)
  show ?case
  proof (cases "n + nat lim < length xs")
    case True
    let ?q = "q\<lparr>gq_Cursor := Itoa (int (n + nat lim))\<rparr>"
    have "int (n + nat lim) < 2 ^ 62"
      using Suc.prems(1) True unfolding sane_length_def xs_def by linarith
    then have "in_int64 (int (n + nat lim))" by (rule in_int64_small [rotated]) (rule of_nat_0_le_iff)
    then have "cursor_offset (gq_Cursor ?q) = int (n + nat lim)" by simp
    moreover have "length xs - (n + nat lim) < fuel"
      using Suc.prems(4) True lim by (simp add: xs_def)
    ultimately have "walk_pages fuel grants ?q = Some (drop (n + nat lim) xs)"
      using Suc.IH [of ?q "n + nat lim"] Suc.prems(1) True by (simp add: xs_def)
    moreover have "take (nat lim) (drop n xs) @ drop (n + nat lim) xs = drop n xs"
      by (metis append_take_drop_id drop_drop add.commute)
    ultimately show ?thesis
      using page True Suc.prems(2) Itoa_nonempty
      by (simp add: list_grants_def Let_def xs_def [symmetric] lim_def [symmetric])
  next
    case False
    then show ?thesis
      using page Suc.prems(2)
      by (simp add: list_grants_def Let_def xs_def [symmetric] lim_def [symmetric])
  qed
qed simp

end
