(* ===== verification/Bootstrap_Store.thy ===== *)
theory Bootstrap_Store
  imports BuiltIn_Registry Paging
begin

text \<open>
  The default store (\<open>bootstrap_store.go\<close>): roles, assignments by principal key, grants in order of
  creation, disabled built-in roles and the inheritance closure, all in memory. Every operation
  of the source is one definition; the lock makes each an atomic step.
\<close>

section \<open>State\<close>

record bootstrap_store =
  bs_roles :: "(string, role) gomap"
  bs_assignments :: "(string, role_assignment list) gomap"
  bs_grants :: "grant list"
  bs_disabledBuiltInRoles :: "string list"
  bs_roleInheritance :: role_sets
  bs_roleClosure :: role_sets

definition newBootstrapStore :: bootstrap_store where
  "newBootstrapStore = \<lparr>bs_roles = [], bs_assignments = [], bs_grants = [],
     bs_disabledBuiltInRoles = [], bs_roleInheritance = [], bs_roleClosure = []\<rparr>"

section \<open>Roles\<close>

definition bootstrap_RoleDefinitions :: "bootstrap_store \<Rightarrow> role list result" where
  "bootstrap_RoleDefinitions s = Inr (sort_key ro_ID (map (\<lambda>(_, role). cloneRole role) (bs_roles s)))"

definition bootstrap_RoleDefinition :: "bootstrap_store \<Rightarrow> string \<Rightarrow> role result" where
  "bootstrap_RoleDefinition s roleID =
     (case map_of (bs_roles s) roleID of
        None \<Rightarrow> Inl (Errorf ''role not found: %s'' [roleID])
      | Some role \<Rightarrow> Inr (cloneRole role))"

definition bootstrap_CreateRole :: "bootstrap_store \<Rightarrow> role \<Rightarrow> bootstrap_store update" where
  "bootstrap_CreateRole s role =
     (if ro_ID role = '''' then (Some (Errorf ''role ID is required'' []), s)
      else if ro_Name role = '''' then (Some (Errorf ''role name is required'' []), s)
      else if map_of (bs_roles s) (ro_ID role) \<noteq> None
        then (Some (Errorf ''role already exists: %s'' [ro_ID role]), s)
      else (None, s\<lparr>bs_roles := AList.update (ro_ID role) (cloneRole role) (bs_roles s),
                    bs_roleClosure := add_self (ro_ID role) (bs_roleClosure s)\<rparr>))"

definition bootstrap_UpdateRole :: "bootstrap_store \<Rightarrow> role \<Rightarrow> bootstrap_store update" where
  "bootstrap_UpdateRole s role =
     (if ro_ID role = '''' then (Some (Errorf ''role ID is required'' []), s)
      else if ro_Name role = '''' then (Some (Errorf ''role name is required'' []), s)
      else if map_of (bs_roles s) (ro_ID role) = None
        then (Some (Errorf ''role not found: %s'' [ro_ID role]), s)
      else (None, s\<lparr>bs_roles := AList.update (ro_ID role) (cloneRole role) (bs_roles s)\<rparr>))"

definition bootstrap_DeleteRole :: "bootstrap_store \<Rightarrow> string \<Rightarrow> bootstrap_store update" where
  "bootstrap_DeleteRole s roleID =
     (if roleID = '''' then (Some (Errorf ''role ID is required'' []), s)
      else if map_of (bs_roles s) roleID = None
        then (Some (Errorf ''role not found: %s'' [roleID]), s)
      else (None, s\<lparr>
        bs_roles := AList.delete roleID (bs_roles s),
        bs_roleInheritance := drop_role roleID (bs_roleInheritance s),
        bs_roleClosure := drop_role roleID (bs_roleClosure s),
        bs_assignments := map (\<lambda>(key, as). (key, filter (\<lambda>a. ra_RoleID a \<noteq> roleID) as))
          (bs_assignments s)\<rparr>))"

definition bootstrap_AddRoleInheritance ::
  "bootstrap_store \<Rightarrow> string \<Rightarrow> string \<Rightarrow> bootstrap_store update" where
  "bootstrap_AddRoleInheritance s parent child =
     (if parent = '''' then (Some (Errorf ''parent role ID is required'' []), s)
      else if child = '''' then (Some (Errorf ''child role ID is required'' []), s)
      else if parent = child then (Some (Errorf ''a role cannot inherit itself'' []), s)
      else
        let (inh, clo) = add_edge parent child (bs_roleInheritance s, bs_roleClosure s) in
        (None, s\<lparr>bs_roleInheritance := inh, bs_roleClosure := clo\<rparr>))"

definition bootstrap_ExpandRoles :: "bootstrap_store \<Rightarrow> string list \<Rightarrow> string list result" where
  "bootstrap_ExpandRoles s roleIDs = Inr (expand_roles (bs_roleClosure s) roleIDs)"

section \<open>Assignments\<close>

definition bootstrap_RoleAssignmentsForPrincipal ::
  "bootstrap_store \<Rightarrow> principal_ref \<Rightarrow> role_assignment list result" where
  "bootstrap_RoleAssignmentsForPrincipal s who =
     (case PrincipalRef_Validate who of
        Some e \<Rightarrow> Inl e
      | None \<Rightarrow> Inr (map (\<lambda>a. \<lparr>ra_RoleID = ra_RoleID a, ra_BindingValues = copy_map (ra_BindingValues a)\<rparr>)
                   (lookup_set (bs_assignments s) (principalKey who))))"

fun hits_for_role :: "string \<Rightarrow> (string, role_assignment list) gomap \<Rightarrow> role_assignment_hit list result" where
  "hits_for_role roleID [] = Inr []"
| "hits_for_role roleID ((key, as) # rest) =
     attempt (parsePrincipalKey key) (\<lambda>p.
     attempt (hits_for_role roleID rest) (\<lambda>hits.
     Inr (map (\<lambda>a. \<lparr>rh_RoleID = roleID, rh_BindingValues = ra_BindingValues a, rh_Principal = p\<rparr>)
            (filter (\<lambda>a. ra_RoleID a = roleID) as) @ hits)))"

definition bootstrap_RoleAssignmentsForRoleID ::
  "bootstrap_store \<Rightarrow> string \<Rightarrow> role_assignment_hit list result" where
  "bootstrap_RoleAssignmentsForRoleID s roleID = hits_for_role roleID (bs_assignments s)"

definition bootstrap_AssignRole ::
  "bootstrap_store \<Rightarrow> principal_ref \<Rightarrow> string \<Rightarrow> role list \<Rightarrow> bindings \<Rightarrow> bootstrap_store update" where
  "bootstrap_AssignRole s who roleID builtIns bindingValues =
     (case PrincipalRef_Validate who of
        Some e \<Rightarrow> (Some e, s)
      | None \<Rightarrow>
          if roleID = '''' then (Some (Errorf ''role ID is required'' []), s)
          else if \<not> list_ex (\<lambda>r. ro_ID r = roleID) builtIns \<and> map_of (bs_roles s) roleID = None
            then (Some (Errorf ''role not found: %s'' [roleID]), s)
          else
            let assignment = \<lparr>ra_RoleID = roleID, ra_BindingValues = copy_map bindingValues\<rparr>;
                key = principalKey who;
                existing = lookup_set (bs_assignments s) key
            in if list_ex (\<lambda>a. ra_RoleID a = ra_RoleID assignment
                    \<and> mapEquals (ra_BindingValues a) (ra_BindingValues assignment)) existing
               then (None, s)
               else (None, s\<lparr>bs_assignments := AList.update key (existing @ [assignment]) (bs_assignments s)\<rparr>))"

definition unassign_matches :: "string \<Rightarrow> bindings \<Rightarrow> role_assignment \<Rightarrow> bool" where
  "unassign_matches roleID bindingValues a \<longleftrightarrow>
     ra_RoleID a = roleID \<and> BindingValuesEqual (ra_BindingValues a) bindingValues"

definition bootstrap_UnassignRole ::
  "bootstrap_store \<Rightarrow> principal_ref \<Rightarrow> string \<Rightarrow> role list \<Rightarrow> bindings \<Rightarrow> bootstrap_store update" where
  "bootstrap_UnassignRole s who roleID builtIns bindingValues =
     (case PrincipalRef_Validate who of
        Some e \<Rightarrow> (Some e, s)
      | None \<Rightarrow>
          if roleID = '''' then (Some (Errorf ''role ID is required'' []), s)
          else
            let key = principalKey who;
                assignments = lookup_set (bs_assignments s) key;
                filtered = filter (\<lambda>a. \<not> unassign_matches roleID bindingValues a) assignments
            in if \<not> list_ex (unassign_matches roleID bindingValues) assignments
               then (Some (Errorf ''role %q was not assigned to principal %s'' [roleID, key]), s)
               else if filtered = []
               then (None, s\<lparr>bs_assignments := AList.delete key (bs_assignments s)\<rparr>)
               else (None, s\<lparr>bs_assignments := AList.update key filtered (bs_assignments s)\<rparr>))"

section \<open>Grants\<close>

definition bootstrap_GrantsForPrincipal ::
  "time \<Rightarrow> bootstrap_store \<Rightarrow> principal_ref \<Rightarrow> grant list result" where
  "bootstrap_GrantsForPrincipal now s who =
     (case PrincipalRef_Validate who of
        Some e \<Rightarrow> Inl e
      | None \<Rightarrow> Inr (map cloneGrant (filter (\<lambda>g.
          \<not> (gr_OwnerKind g \<noteq> pr_Kind who \<or> gr_OwnerID g \<noteq> pr_ID who)
          \<and> \<not> IsExpiredAt g now) (bs_grants s))))"

fun owner_keys :: "principal_ref list \<Rightarrow> string set result" where
  "owner_keys [] = Inr {}"
| "owner_keys (owner # rest) =
     (case PrincipalRef_Validate owner of
        Some e \<Rightarrow> Inl e
      | None \<Rightarrow> attempt (owner_keys rest) (\<lambda>keys. Inr (insert (principalKey owner) keys)))"

definition bootstrap_GrantsForOwners ::
  "time \<Rightarrow> bootstrap_store \<Rightarrow> principal_ref list \<Rightarrow> request \<Rightarrow> grant list result" where
  "bootstrap_GrantsForOwners now s owners req =
     attempt (owner_keys owners) (\<lambda>ownerSet.
     let team = rq_TeamID req; object = rq_Object req in
     Inr (map cloneGrant (filter (\<lambda>g.
       principalKey \<lparr>pr_Kind = gr_OwnerKind g, pr_ID = gr_OwnerID g\<rparr> \<in> ownerSet
       \<and> \<not> IsExpiredAt g now
       \<and> \<not> (rq_Perm req \<noteq> '''' \<and> gr_PermissionName g \<noteq> rq_Perm req)
       \<and> scopeMatches (gr_TeamScope g) team
       \<and> \<not> (case gr_ObjectScope g of None \<Rightarrow> False | Some os \<Rightarrow> \<not> scopeMatches os object))
       (bs_grants s))))"

definition check_grant :: "grant \<Rightarrow> goerror option" where
  "check_grant g =
     (if gr_OwnerID g = '''' then Some (Errorf ''owner ID is required'' [])
      else if gr_PermissionName g = '''' then Some (Errorf ''permission name is required'' [])
      else if gr_TeamScope g = '''' then Some (Errorf ''team scope is required'' [])
      else None)"

definition bootstrap_CreateGrant :: "bootstrap_store \<Rightarrow> grant \<Rightarrow> bootstrap_store update" where
  "bootstrap_CreateGrant s g =
     (case check_grant g of
        Some e \<Rightarrow> (Some e, s)
      | None \<Rightarrow> (None, s\<lparr>bs_grants := bs_grants s @ [cloneGrant g]\<rparr>))"

text \<open>The bulk write stops at the first invalid grant and keeps the grants before it.\<close>

fun bootstrap_CreateGrants :: "bootstrap_store \<Rightarrow> grant list \<Rightarrow> bootstrap_store update" where
  "bootstrap_CreateGrants s [] = (None, s)"
| "bootstrap_CreateGrants s (g # gs) =
     (case check_grant g of
        Some e \<Rightarrow> (Some e, s)
      | None \<Rightarrow> bootstrap_CreateGrants (s\<lparr>bs_grants := bs_grants s @ [cloneGrant g]\<rparr>) gs)"

definition bootstrap_DeleteGrantsForOwner ::
  "bootstrap_store \<Rightarrow> principal_kind \<Rightarrow> string \<Rightarrow> bootstrap_store update" where
  "bootstrap_DeleteGrantsForOwner s ownerKind ownerID =
     (None, s\<lparr>bs_grants := filter (\<lambda>g. \<not> (gr_OwnerKind g = ownerKind \<and> gr_OwnerID g = ownerID)) (bs_grants s)\<rparr>)"

text \<open>The loop of \<open>PrincipalsWithGrant\<close>: a deny of the permission removes the principal's hit for good.\<close>

definition hit_of :: "grant \<Rightarrow> principal_hit" where
  "hit_of g = \<lparr>ph_Kind = gr_OwnerKind g, ph_ID = gr_OwnerID g, ph_TeamScope = gr_TeamScope g,
     ph_ObjectScope = cloneStringPointer (gr_ObjectScope g), ph_PermissionName = gr_PermissionName g\<rparr>"

definition principal_hit_step ::
  "grant \<Rightarrow> string set \<times> (string, principal_hit) gomap \<Rightarrow> string set \<times> (string, principal_hit) gomap" where
  "principal_hit_step g acc =
     (let (denied, allowed) = acc; key = principalKey (grant_owner g) in
      if gr_Effect g = EffectDeny then (insert key denied, AList.delete key allowed)
      else if key \<in> denied then acc
      else if map_of allowed key \<noteq> None then acc
      else (denied, AList.update key (hit_of g) allowed))"

definition bootstrap_PrincipalsWithGrant ::
  "time \<Rightarrow> bootstrap_store \<Rightarrow> request \<Rightarrow> principal_hit list result" where
  "bootstrap_PrincipalsWithGrant now s req =
     (if rq_Perm req = '''' then Inl (Errorf ''permission name is required'' [])
      else
        let (denied, allowed) = fold (\<lambda>g acc.
              if gr_PermissionName g \<noteq> rq_Perm req \<or> IsExpiredAt g now then acc
              else principal_hit_step g acc) (bs_grants s) ({}, [])
        in Inr (sort_key (\<lambda>h. (ph_Kind h, ph_ID h)) (map snd allowed)))"

section \<open>Disabled built-in roles\<close>

definition bootstrap_DisableBuiltInRole :: "bootstrap_store \<Rightarrow> string \<Rightarrow> bootstrap_store update" where
  "bootstrap_DisableBuiltInRole s roleID =
     (if roleID = '''' then (Some (Errorf ''role ID is required'' []), s)
      else (None, s\<lparr>bs_disabledBuiltInRoles := List.insert roleID (bs_disabledBuiltInRoles s)\<rparr>))"

definition bootstrap_EnableBuiltInRole :: "bootstrap_store \<Rightarrow> string \<Rightarrow> bootstrap_store update" where
  "bootstrap_EnableBuiltInRole s roleID =
     (if roleID = '''' then (Some (Errorf ''role ID is required'' []), s)
      else (None, s\<lparr>bs_disabledBuiltInRoles := removeAll roleID (bs_disabledBuiltInRoles s)\<rparr>))"

definition bootstrap_DisabledBuiltInRoles :: "bootstrap_store \<Rightarrow> string list result" where
  "bootstrap_DisabledBuiltInRoles s = Inr (sort (bs_disabledBuiltInRoles s))"

definition bootstrap_ListGrants :: "bootstrap_store \<Rightarrow> grant_query \<Rightarrow> grant_query_result result" where
  "bootstrap_ListGrants s query = list_grants (bs_grants s) query"

definition bootstrap_ops :: "bootstrap_store store_ops" where
  "bootstrap_ops = \<lparr>
     op_RoleDefinitions = bootstrap_RoleDefinitions,
     op_RoleDefinition = bootstrap_RoleDefinition,
     op_CreateRole = bootstrap_CreateRole,
     op_UpdateRole = bootstrap_UpdateRole,
     op_DeleteRole = bootstrap_DeleteRole,
     op_AddRoleInheritance = bootstrap_AddRoleInheritance,
     op_RoleAssignmentsForPrincipal = bootstrap_RoleAssignmentsForPrincipal,
     op_RoleAssignmentsForRoleID = bootstrap_RoleAssignmentsForRoleID,
     op_AssignRole = bootstrap_AssignRole,
     op_UnassignRole = bootstrap_UnassignRole,
     op_GrantsForPrincipal = bootstrap_GrantsForPrincipal,
     op_GrantsForOwners = bootstrap_GrantsForOwners,
     op_CreateGrant = bootstrap_CreateGrant,
     op_PrincipalsWithGrant = bootstrap_PrincipalsWithGrant,
     op_ExpandRoles = bootstrap_ExpandRoles,
     op_DeleteGrantsForOwner = bootstrap_DeleteGrantsForOwner,
     op_DisableBuiltInRole = bootstrap_DisableBuiltInRole,
     op_EnableBuiltInRole = bootstrap_EnableBuiltInRole,
     op_DisabledBuiltInRoles = bootstrap_DisabledBuiltInRoles,
     op_ListGrants = bootstrap_ListGrants,
     op_BulkCreateGrants = Some bootstrap_CreateGrants\<rparr>"

lemma bootstrap_ops_simps [simp]:
  "op_RoleDefinitions bootstrap_ops = bootstrap_RoleDefinitions"
  "op_RoleDefinition bootstrap_ops = bootstrap_RoleDefinition"
  "op_CreateRole bootstrap_ops = bootstrap_CreateRole"
  "op_UpdateRole bootstrap_ops = bootstrap_UpdateRole"
  "op_DeleteRole bootstrap_ops = bootstrap_DeleteRole"
  "op_AddRoleInheritance bootstrap_ops = bootstrap_AddRoleInheritance"
  "op_RoleAssignmentsForPrincipal bootstrap_ops = bootstrap_RoleAssignmentsForPrincipal"
  "op_RoleAssignmentsForRoleID bootstrap_ops = bootstrap_RoleAssignmentsForRoleID"
  "op_AssignRole bootstrap_ops = bootstrap_AssignRole"
  "op_UnassignRole bootstrap_ops = bootstrap_UnassignRole"
  "op_GrantsForPrincipal bootstrap_ops = bootstrap_GrantsForPrincipal"
  "op_GrantsForOwners bootstrap_ops = bootstrap_GrantsForOwners"
  "op_CreateGrant bootstrap_ops = bootstrap_CreateGrant"
  "op_PrincipalsWithGrant bootstrap_ops = bootstrap_PrincipalsWithGrant"
  "op_ExpandRoles bootstrap_ops = bootstrap_ExpandRoles"
  "op_DeleteGrantsForOwner bootstrap_ops = bootstrap_DeleteGrantsForOwner"
  "op_DisableBuiltInRole bootstrap_ops = bootstrap_DisableBuiltInRole"
  "op_EnableBuiltInRole bootstrap_ops = bootstrap_EnableBuiltInRole"
  "op_DisabledBuiltInRoles bootstrap_ops = bootstrap_DisabledBuiltInRoles"
  "op_ListGrants bootstrap_ops = bootstrap_ListGrants"
  "op_BulkCreateGrants bootstrap_ops = Some bootstrap_CreateGrants"
  by (simp_all add: bootstrap_ops_def)

section \<open>The store invariant\<close>

definition wf_roles :: "(string, role) gomap \<Rightarrow> bool" where
  "wf_roles m \<longleftrightarrow> wf_gomap m \<and> (\<forall>(k, r) \<in> set m. k = ro_ID r \<and> k \<noteq> '''' \<and> ro_Name r \<noteq> '''')"

definition wf_assignment :: "role_assignment \<Rightarrow> bool" where
  "wf_assignment a \<longleftrightarrow> ra_RoleID a \<noteq> '''' \<and> wf_gomap (ra_BindingValues a)"

definition wf_assignments :: "(string, role_assignment list) gomap \<Rightarrow> bool" where
  "wf_assignments m \<longleftrightarrow> wf_gomap m \<and>
     (\<forall>(key, as) \<in> set m. (\<exists>p. PrincipalRef_Validate p = None \<and> key = principalKey p) \<and>
        (\<forall>a \<in> set as. wf_assignment a))"

definition stored_grant :: "grant \<Rightarrow> bool" where
  "stored_grant g \<longleftrightarrow> wf_grant g \<and> check_grant g = None"

definition wf_bootstrap :: "bootstrap_store \<Rightarrow> bool" where
  "wf_bootstrap s \<longleftrightarrow> wf_roles (bs_roles s) \<and> wf_assignments (bs_assignments s) \<and>
     (\<forall>g \<in> set (bs_grants s). stored_grant g) \<and>
     distinct (bs_disabledBuiltInRoles s) \<and> '''' \<notin> set (bs_disabledBuiltInRoles s) \<and>
     closure_covers (bs_roleInheritance s, bs_roleClosure s)"

lemma check_grant_None:
  "check_grant g = None \<longleftrightarrow> gr_OwnerID g \<noteq> '''' \<and> gr_PermissionName g \<noteq> '''' \<and> gr_TeamScope g \<noteq> ''''"
  by (simp add: check_grant_def)

lemma check_cloneGrant [simp]: "check_grant (cloneGrant g) = check_grant g"
  by (simp add: check_grant_def)

lemma wf_newBootstrapStore [simp]: "wf_bootstrap newBootstrapStore"
  by (simp add: wf_bootstrap_def newBootstrapStore_def wf_roles_def wf_assignments_def
      closure_ok_covers)

lemma wf_roles_update:
  "wf_roles m \<Longrightarrow> ro_ID r \<noteq> '''' \<Longrightarrow> ro_Name r \<noteq> '''' \<Longrightarrow> wf_roles (AList.update (ro_ID r) r m)"
  using set_alist_update [of "ro_ID r" r m] by (auto simp: wf_roles_def)

lemma wf_assignments_update:
  assumes "wf_assignments m" "PrincipalRef_Validate p = None" "\<forall>a \<in> set as. wf_assignment a"
  shows "wf_assignments (AList.update (principalKey p) as m)"
  using assms set_alist_update [of "principalKey p" as m] unfolding wf_assignments_def by fastforce

lemma wf_assignments_lookup:
  "wf_assignments m \<Longrightarrow> a \<in> set (lookup_set m key) \<Longrightarrow> wf_assignment a"
  by (auto simp: wf_assignments_def lookup_set_def wf_gomap_in_iff [symmetric] split: option.splits)
     (fastforce simp: wf_gomap_in_iff)

lemma set_alist_delete: "set (AList.delete k m) \<subseteq> set m"
  by (auto simp: AList.delete_eq)

lemma wf_bootstrap_CreateRole:
  "wf_bootstrap s \<Longrightarrow> bootstrap_CreateRole s r = (e, s') \<Longrightarrow> wf_bootstrap s'"
  by (auto simp: bootstrap_CreateRole_def wf_bootstrap_def wf_roles_update closure_covers_add_self
      split: if_splits)

lemma wf_bootstrap_UpdateRole:
  "wf_bootstrap s \<Longrightarrow> bootstrap_UpdateRole s r = (e, s') \<Longrightarrow> wf_bootstrap s'"
  by (auto simp: bootstrap_UpdateRole_def wf_bootstrap_def wf_roles_update split: if_splits)

lemma wf_bootstrap_DeleteRole:
  assumes "wf_bootstrap s" "bootstrap_DeleteRole s roleID = (e, s')"
  shows "wf_bootstrap s'"
proof -
  have "wf_roles (AList.delete roleID (bs_roles s))"
    using assms(1) set_alist_delete [of roleID "bs_roles s"] by (auto simp: wf_bootstrap_def wf_roles_def)
  moreover have "wf_assignments (map (\<lambda>(key, as). (key, filter (\<lambda>a. ra_RoleID a \<noteq> roleID) as)) (bs_assignments s))"
    using assms(1) by (fastforce simp: wf_bootstrap_def wf_assignments_def)
  ultimately show ?thesis using assms
    by (auto simp: bootstrap_DeleteRole_def wf_bootstrap_def closure_covers_drop_role split: if_splits)
qed

lemma bootstrap_AddRoleInheritance_cases:
  assumes "bootstrap_AddRoleInheritance s p c = (e, s')"
  obtains (error) "e \<noteq> None" "s' = s"
  | (edge) inh clo where "e = None" "p \<noteq> ''''" "c \<noteq> ''''" "p \<noteq> c"
      "add_edge p c (bs_roleInheritance s, bs_roleClosure s) = (inh, clo)"
      "s' = s\<lparr>bs_roleInheritance := inh, bs_roleClosure := clo\<rparr>"
proof -
  obtain inh clo where new: "add_edge p c (bs_roleInheritance s, bs_roleClosure s) = (inh, clo)"
    by fastforce
  show thesis
    using assms error edge [OF _ _ _ _ new]
    by (auto simp: bootstrap_AddRoleInheritance_def new split: if_splits)
qed

lemma wf_bootstrap_AddRoleInheritance:
  assumes "wf_bootstrap s" "bootstrap_AddRoleInheritance s p c = (e, s')"
  shows "wf_bootstrap s'"
  using assms(2)
proof (cases rule: bootstrap_AddRoleInheritance_cases)
  case (edge inh clo)
  with assms(1) closure_covers_add_edge [of "bs_roleInheritance s" "bs_roleClosure s" p c]
  show ?thesis by (simp add: wf_bootstrap_def)
qed (use assms in simp)

lemma wf_bootstrap_AssignRole:
  assumes "wf_bootstrap s" "bootstrap_AssignRole s p roleID bs b = (e, s')"
  shows "wf_bootstrap s'"
proof -
  let ?a = "\<lparr>ra_RoleID = roleID, ra_BindingValues = copy_map b\<rparr>"
  let ?as = "lookup_set (bs_assignments s) (principalKey p) @ [?a]"
  have "wf_assignments (AList.update (principalKey p) ?as (bs_assignments s))"
    if "PrincipalRef_Validate p = None" "roleID \<noteq> ''''"
    using assms(1) that wf_assignments_lookup [of "bs_assignments s" _ "principalKey p"]
    by (auto simp: wf_bootstrap_def wf_assignment_def intro!: wf_assignments_update)
  with assms show ?thesis
    by (auto simp: bootstrap_AssignRole_def Let_def wf_bootstrap_def split: option.splits if_splits)
qed

lemma wf_bootstrap_UnassignRole:
  assumes "wf_bootstrap s" "bootstrap_UnassignRole s p roleID bs b = (e, s')"
  shows "wf_bootstrap s'"
proof -
  let ?as = "filter (\<lambda>a. \<not> unassign_matches roleID b a) (lookup_set (bs_assignments s) (principalKey p))"
  have "wf_assignments (AList.update (principalKey p) ?as (bs_assignments s))"
    if "PrincipalRef_Validate p = None"
    using assms(1) that wf_assignments_lookup [of "bs_assignments s" _ "principalKey p"]
    by (auto simp: wf_bootstrap_def intro!: wf_assignments_update)
  moreover have "wf_assignments (AList.delete (principalKey p) (bs_assignments s))"
    using assms(1) set_alist_delete [of "principalKey p" "bs_assignments s"]
    unfolding wf_bootstrap_def wf_assignments_def by fastforce
  ultimately show ?thesis using assms
    by (auto simp: bootstrap_UnassignRole_def Let_def wf_bootstrap_def split: option.splits if_splits)
qed

lemma wf_bootstrap_CreateGrant:
  "wf_bootstrap s \<Longrightarrow> bootstrap_CreateGrant s g = (e, s') \<Longrightarrow> wf_bootstrap s'"
  by (auto simp: bootstrap_CreateGrant_def wf_bootstrap_def stored_grant_def split: option.splits)

lemma wf_bootstrap_CreateGrants:
  "wf_bootstrap s \<Longrightarrow> bootstrap_CreateGrants s gs = (e, s') \<Longrightarrow> wf_bootstrap s'"
proof (induction gs arbitrary: s)
  case (Cons g gs)
  have "wf_bootstrap (s\<lparr>bs_grants := bs_grants s @ [cloneGrant g]\<rparr>)" if "check_grant g = None"
    using Cons.prems(1) that by (auto simp: wf_bootstrap_def stored_grant_def)
  with Cons show ?case by (auto split: option.splits)
qed simp

lemma wf_bootstrap_DeleteGrants:
  "wf_bootstrap s \<Longrightarrow> bootstrap_DeleteGrantsForOwner s k i = (e, s') \<Longrightarrow> wf_bootstrap s'"
  by (auto simp: bootstrap_DeleteGrantsForOwner_def wf_bootstrap_def)

lemma wf_bootstrap_toggle:
  "wf_bootstrap s \<Longrightarrow> bootstrap_DisableBuiltInRole s r = (e, s') \<Longrightarrow> wf_bootstrap s'"
  "wf_bootstrap s \<Longrightarrow> bootstrap_EnableBuiltInRole s r = (e, s') \<Longrightarrow> wf_bootstrap s'"
  by (auto simp: bootstrap_DisableBuiltInRole_def bootstrap_EnableBuiltInRole_def wf_bootstrap_def
      distinct_removeAll split: if_splits)

section \<open>Runs of the store\<close>

datatype bootstrap_event =
    EvCreateRole role
  | EvUpdateRole role
  | EvDeleteRole string
  | EvAddRoleInheritance string string
  | EvAssignRole principal_ref string "role list" bindings
  | EvUnassignRole principal_ref string "role list" bindings
  | EvCreateGrant grant
  | EvCreateGrants "grant list"
  | EvDeleteGrants principal_kind string
  | EvDisable string
  | EvEnable string

text \<open>One step is one call of a writing operation, successful or not.\<close>

inductive bootstrap_step :: "bootstrap_store \<Rightarrow> bootstrap_event \<Rightarrow> bootstrap_store \<Rightarrow> bool" where
  create_role: "bootstrap_CreateRole s r = (e, s') \<Longrightarrow> bootstrap_step s (EvCreateRole r) s'"
| update_role: "bootstrap_UpdateRole s r = (e, s') \<Longrightarrow> bootstrap_step s (EvUpdateRole r) s'"
| delete_role: "bootstrap_DeleteRole s r = (e, s') \<Longrightarrow> bootstrap_step s (EvDeleteRole r) s'"
| add_inheritance: "bootstrap_AddRoleInheritance s p c = (e, s') \<Longrightarrow>
    bootstrap_step s (EvAddRoleInheritance p c) s'"
| assign: "bootstrap_AssignRole s p r bs b = (e, s') \<Longrightarrow> bootstrap_step s (EvAssignRole p r bs b) s'"
| unassign: "bootstrap_UnassignRole s p r bs b = (e, s') \<Longrightarrow> bootstrap_step s (EvUnassignRole p r bs b) s'"
| create_grant: "bootstrap_CreateGrant s g = (e, s') \<Longrightarrow> bootstrap_step s (EvCreateGrant g) s'"
| create_grants: "bootstrap_CreateGrants s gs = (e, s') \<Longrightarrow> bootstrap_step s (EvCreateGrants gs) s'"
| delete_grants: "bootstrap_DeleteGrantsForOwner s k i = (e, s') \<Longrightarrow> bootstrap_step s (EvDeleteGrants k i) s'"
| disable: "bootstrap_DisableBuiltInRole s r = (e, s') \<Longrightarrow> bootstrap_step s (EvDisable r) s'"
| enable: "bootstrap_EnableBuiltInRole s r = (e, s') \<Longrightarrow> bootstrap_step s (EvEnable r) s'"

inductive_cases bootstrap_delete_roleE: "bootstrap_step s (EvDeleteRole r) s'"

text \<open>The states reached from an empty store by events of a given kind.\<close>

inductive bootstrap_reachable :: "(bootstrap_event \<Rightarrow> bool) \<Rightarrow> bootstrap_store \<Rightarrow> bool"
  for allowed :: "bootstrap_event \<Rightarrow> bool" where
  start: "bootstrap_reachable allowed newBootstrapStore"
| step: "bootstrap_reachable allowed s \<Longrightarrow> allowed ev \<Longrightarrow> bootstrap_step s ev s' \<Longrightarrow>
    bootstrap_reachable allowed s'"

lemma bootstrap_step_wf: "bootstrap_step s ev s' \<Longrightarrow> wf_bootstrap s \<Longrightarrow> wf_bootstrap s'"
  by (induction rule: bootstrap_step.induct)
     (blast intro: wf_bootstrap_CreateRole wf_bootstrap_UpdateRole wf_bootstrap_DeleteRole
       wf_bootstrap_AddRoleInheritance wf_bootstrap_AssignRole wf_bootstrap_UnassignRole
       wf_bootstrap_CreateGrant wf_bootstrap_CreateGrants wf_bootstrap_DeleteGrants
       wf_bootstrap_toggle)+

lemma bootstrap_reachable_wf: "bootstrap_reachable allowed s \<Longrightarrow> wf_bootstrap s"
  by (induction rule: bootstrap_reachable.induct) (auto intro: bootstrap_step_wf)

definition not_delete_role :: "bootstrap_event \<Rightarrow> bool" where
  "not_delete_role ev \<longleftrightarrow> (case ev of EvDeleteRole r \<Rightarrow> False | _ \<Rightarrow> True)"

definition bootstrap_graph :: "bootstrap_store \<Rightarrow> role_sets \<times> role_sets" where
  "bootstrap_graph s = (bs_roleInheritance s, bs_roleClosure s)"

lemma bootstrap_CreateGrants_graph:
  "bootstrap_CreateGrants s gs = (e, s') \<Longrightarrow> bootstrap_graph s' = bootstrap_graph s"
  by (induction gs arbitrary: s) (fastforce simp: bootstrap_graph_def split: option.splits)+

lemma bootstrap_step_closure_ok:
  "bootstrap_step s ev s' \<Longrightarrow> not_delete_role ev \<Longrightarrow> closure_ok (bootstrap_graph s) \<Longrightarrow>
     closure_ok (bootstrap_graph s')"
proof (induction rule: bootstrap_step.induct)
  case (add_inheritance s p c e s')
  from add_inheritance(1) show ?case
  proof (cases rule: bootstrap_AddRoleInheritance_cases)
    case (edge inh clo)
    with add_inheritance closure_ok_add_edge [of "bs_roleInheritance s" "bs_roleClosure s" p c]
    show ?thesis by (simp add: bootstrap_graph_def)
  qed (use add_inheritance in simp)
next
  case (create_grants s gs e s')
  then show ?case using bootstrap_CreateGrants_graph by metis
qed (auto simp: bootstrap_graph_def not_delete_role_def closure_ok_add_self bootstrap_CreateRole_def
      bootstrap_UpdateRole_def bootstrap_AssignRole_def bootstrap_UnassignRole_def Let_def
      bootstrap_CreateGrant_def bootstrap_DeleteGrantsForOwner_def bootstrap_DisableBuiltInRole_def
      bootstrap_EnableBuiltInRole_def split: if_splits option.splits)

lemma bootstrap_reachable_closure_ok:
  "bootstrap_reachable not_delete_role s \<Longrightarrow> closure_ok (bootstrap_graph s)"
proof (induction rule: bootstrap_reachable.induct)
  case start
  show ?case by (simp add: bootstrap_graph_def newBootstrapStore_def)
next
  case (step s ev s')
  then show ?case by (blast intro: bootstrap_step_closure_ok)
qed

section \<open>The store as a provider\<close>

lemma owner_keys_Inr:
  "owner_keys owners = Inr keys \<longleftrightarrow> valid_owners owners \<and> keys = principalKey ` set owners"
  by (induction owners arbitrary: keys) (auto simp: valid_owners_def split: option.splits)

lemma map_cloneGrant_stored:
  "\<forall>g \<in> set gs. stored_grant g \<Longrightarrow> map cloneGrant (filter P gs) = filter P gs"
  by (rule map_idI) (simp add: stored_grant_def)

lemma bootstrap_GrantsForOwners_Inr:
  assumes "wf_bootstrap s"
  shows "bootstrap_GrantsForOwners now s owners req = Inr gs \<longleftrightarrow>
    valid_owners owners \<and> gs = filter (\<lambda>g. owned_by owners g \<and> \<not> IsExpiredAt g now \<and> perm_filter req g
      \<and> scope_filter req g) (bs_grants s)"
proof -
  have "(\<lambda>g. principalKey \<lparr>pr_Kind = gr_OwnerKind g, pr_ID = gr_OwnerID g\<rparr> \<in> principalKey ` set owners
       \<and> \<not> IsExpiredAt g now \<and> \<not> (rq_Perm req \<noteq> '''' \<and> gr_PermissionName g \<noteq> rq_Perm req)
       \<and> scopeMatches (gr_TeamScope g) (rq_TeamID req)
       \<and> \<not> (case gr_ObjectScope g of None \<Rightarrow> False | Some os \<Rightarrow> \<not> scopeMatches os (rq_Object req))) =
     (\<lambda>g. owned_by owners g \<and> \<not> IsExpiredAt g now \<and> perm_filter req g \<and> scope_filter req g)"
    by (rule ext) (auto simp: owned_by_def grant_owner_def perm_filter_def scope_filter_def
        split: option.splits)
  moreover have "\<forall>g \<in> set (bs_grants s). stored_grant g" using assms by (simp add: wf_bootstrap_def)
  ultimately show ?thesis
    by (auto simp: bootstrap_GrantsForOwners_def Let_def owner_keys_Inr map_cloneGrant_stored)
qed

interpretation bootstrap: grant_store bootstrap_ops bs_grants wf_bootstrap
proof (unfold_locales, goal_cases)
  case (1 st now owners req gs g)
  then show ?case by (auto simp: bootstrap_GrantsForOwners_Inr)
next
  case (2 st owners now req)
  then show ?case by (simp add: bootstrap_GrantsForOwners_Inr)
next
  case (3 st now owners req gs g)
  then show ?case by (auto simp: bootstrap_GrantsForOwners_Inr)
next
  case (4 st g)
  then have "check_grant g = None" by (simp add: check_grant_None)
  moreover from this 4 have "wf_bootstrap (st\<lparr>bs_grants := bs_grants st @ [g]\<rparr>)"
    by (auto simp: wf_bootstrap_def stored_grant_def)
  ultimately show ?case using 4 by (simp add: bootstrap_CreateGrant_def)
next
  case (5 st kind oid e st')
  then show ?case
    using wf_bootstrap_DeleteGrants [of st kind oid e st']
    by (auto simp: bootstrap_DeleteGrantsForOwner_def)
qed

interpretation bootstrap_roles: inheritance_store bootstrap_ops
  "\<lambda>s. inh_edges (bs_roleInheritance s)" "\<lambda>s. closure_ok (bootstrap_graph s)"
proof (unfold_locales, goal_cases)
  case (1 st ids)
  then have "TrimSpace ` set ids = set ids" "'''' \<notin> set ids" by (auto simp: TrimSpace_clean image_iff)
  moreover from this have "{r \<in> set ids. r \<noteq> ''''} = set ids" by auto
  ultimately show ?case
    using 1(1) by (simp add: bootstrap_ExpandRoles_def set_expand_roles bootstrap_graph_def
        expansion_reachable distinct_expand_roles)
next
  case (2 st p c e st')
  then have "bootstrap_AddRoleInheritance st p c = (e, st')" by simp
  then show ?case
  proof (cases rule: bootstrap_AddRoleInheritance_cases)
    case error
    with 2 show ?thesis by (auto simp: bootstrap_AddRoleInheritance_def proper_edges_def split: if_splits prod.splits)
  next
    case (edge inh clo)
    have "inh_edges inh = insert (p, c) (inh_edges (bs_roleInheritance st))"
      using inh_edges_add_edge [of p c "bs_roleInheritance st" "bs_roleClosure st"] by (simp add: edge)
    moreover have "closure_ok (inh, clo)"
      using 2(1) closure_ok_add_edge [of "bs_roleInheritance st" "bs_roleClosure st" p c]
      by (simp add: bootstrap_graph_def edge)
    ultimately show ?thesis using edge by (auto simp: bootstrap_graph_def proper_edges_def)
  qed
qed

section \<open>Assignments\<close>

definition principal_roles :: "bootstrap_store \<Rightarrow> principal_ref \<Rightarrow> role_assignment list" where
  "principal_roles s p = lookup_set (bs_assignments s) (principalKey p)"

lemma copy_assignment: "wf_assignment a \<Longrightarrow>
    \<lparr>ra_RoleID = ra_RoleID a, ra_BindingValues = copy_map (ra_BindingValues a)\<rparr> = a"
  by (simp add: wf_assignment_def)

lemma wf_principal_roles: "wf_bootstrap s \<Longrightarrow> a \<in> set (principal_roles s p) \<Longrightarrow> wf_assignment a"
  unfolding principal_roles_def wf_bootstrap_def by (blast intro: wf_assignments_lookup)

lemma bootstrap_RoleAssignmentsForPrincipal_eq:
  assumes "wf_bootstrap s" "PrincipalRef_Validate p = None"
  shows "bootstrap_RoleAssignmentsForPrincipal s p = Inr (principal_roles s p)"
proof -
  have "map (\<lambda>a. \<lparr>ra_RoleID = ra_RoleID a, ra_BindingValues = copy_map (ra_BindingValues a)\<rparr>)
      (principal_roles s p) = principal_roles s p"
    by (rule map_idI) (use assms(1) in \<open>simp add: copy_assignment wf_principal_roles\<close>)
  with assms(2) show ?thesis
    by (simp add: bootstrap_RoleAssignmentsForPrincipal_def principal_roles_def)
qed

lemma mapEquals_refl [simp]: "wf_gomap m \<Longrightarrow> mapEquals m m"
  by (auto simp: mapEquals_def wf_gomap_in_iff)

lemma valid_principal_key_inj:
  "PrincipalRef_Validate p = None \<Longrightarrow> PrincipalRef_Validate q = None \<Longrightarrow>
     principalKey p = principalKey q \<longleftrightarrow> p = q"
  by (simp add: principalKey_inj PrincipalRef_Validate_None)

text \<open>What a successful assignment does: nothing if an equally printed one is there, else append.\<close>

lemma bootstrap_AssignRole_None:
  "bootstrap_AssignRole s p roleID builtIns b = (None, s') \<longleftrightarrow>
     PrincipalRef_Validate p = None \<and> roleID \<noteq> '''' \<and>
     ((\<exists>r \<in> set builtIns. ro_ID r = roleID) \<or> map_of (bs_roles s) roleID \<noteq> None) \<and>
     (if \<exists>a \<in> set (principal_roles s p). ra_RoleID a = roleID \<and> mapEquals (ra_BindingValues a) (copy_map b)
      then s' = s
      else s' = s\<lparr>bs_assignments := AList.update (principalKey p)
        (principal_roles s p @ [\<lparr>ra_RoleID = roleID, ra_BindingValues = copy_map b\<rparr>]) (bs_assignments s)\<rparr>)"
  by (auto simp: bootstrap_AssignRole_def Let_def list_ex_iff principal_roles_def split: option.splits)

lemma bootstrap_UnassignRole_None:
  "bootstrap_UnassignRole s p roleID builtIns b = (None, s') \<longleftrightarrow>
     PrincipalRef_Validate p = None \<and> roleID \<noteq> '''' \<and>
     (\<exists>a \<in> set (principal_roles s p). unassign_matches roleID b a) \<and>
     (let kept = filter (\<lambda>a. \<not> unassign_matches roleID b a) (principal_roles s p) in
      s' = s\<lparr>bs_assignments := (if kept = [] then AList.delete (principalKey p) (bs_assignments s)
        else AList.update (principalKey p) kept (bs_assignments s))\<rparr>)"
  by (auto simp: bootstrap_UnassignRole_def Let_def list_ex_iff principal_roles_def split: option.splits)

lemma principal_roles_UnassignRole:
  assumes "bootstrap_UnassignRole s p roleID builtIns b = (None, s')" "PrincipalRef_Validate q = None"
  shows "principal_roles s' q =
    (if q = p then filter (\<lambda>a. \<not> unassign_matches roleID b a) (principal_roles s p) else principal_roles s q)"
  using assms valid_principal_key_inj [of q p]
  by (auto simp: bootstrap_UnassignRole_None Let_def principal_roles_def split: if_splits)

lemma principal_roles_AssignRole:
  assumes "bootstrap_AssignRole s p roleID builtIns b = (None, s')" "PrincipalRef_Validate q = None"
  shows "principal_roles s' q = principal_roles s q @
    (if q = p \<and> \<not> (\<exists>a \<in> set (principal_roles s p). ra_RoleID a = roleID \<and>
        mapEquals (ra_BindingValues a) (copy_map b))
     then [\<lparr>ra_RoleID = roleID, ra_BindingValues = copy_map b\<rparr>] else [])"
  using assms valid_principal_key_inj [of q p]
  by (auto simp: bootstrap_AssignRole_None principal_roles_def split: if_splits)

text \<open>The reverse lookup never fails on a well-formed store and finds exactly the assignments.\<close>

lemma hits_for_role_ok:
  assumes "wf_assignments m"
  shows "\<exists>hits. hits_for_role roleID m = Inr hits \<and>
    (\<forall>h. h \<in> set hits \<longleftrightarrow> rh_RoleID h = roleID \<and>
      PrincipalRef_Validate (rh_Principal h) = None \<and>
      \<lparr>ra_RoleID = roleID, ra_BindingValues = rh_BindingValues h\<rparr> \<in> set (lookup_set m (principalKey (rh_Principal h))))"
  using assms
proof (induction m)
  case Nil
  then show ?case by simp
next
  case (Cons entry m)
  obtain key as where entry: "entry = (key, as)" by (cases entry)
  obtain p where p: "PrincipalRef_Validate p = None" "key = principalKey p"
    using Cons.prems entry by (auto simp: wf_assignments_def)
  have "wf_assignments m" using Cons.prems by (auto simp: wf_assignments_def wf_gomap_def)
  then obtain hits where hits: "hits_for_role roleID m = Inr hits"
    "\<forall>h. h \<in> set hits \<longleftrightarrow> rh_RoleID h = roleID \<and> PrincipalRef_Validate (rh_Principal h) = None \<and>
      \<lparr>ra_RoleID = roleID, ra_BindingValues = rh_BindingValues h\<rparr> \<in> set (lookup_set m (principalKey (rh_Principal h)))"
    using Cons.IH by blast
  have fresh: "lookup_set m key = []"
    using Cons.prems entry by (auto simp: wf_assignments_def wf_gomap_def lookup_set_def map_of_eq_None_iff
        split: option.splits dest: map_of_SomeD intro: rev_image_eqI)
  define new where "new = map (\<lambda>a. \<lparr>rh_RoleID = roleID, rh_BindingValues = ra_BindingValues a, rh_Principal = p\<rparr>)
      (filter (\<lambda>a. ra_RoleID a = roleID) as)"
  have parse: "parsePrincipalKey key = Inr p"
    using p by (simp add: parse_principalKey PrincipalRef_Validate_None)
  have new_iff: "h \<in> set new \<longleftrightarrow> rh_RoleID h = roleID \<and> rh_Principal h = p \<and>
      \<lparr>ra_RoleID = roleID, ra_BindingValues = rh_BindingValues h\<rparr> \<in> set as" for h
  proof
    assume "h \<in> set new"
    then obtain a where a: "a \<in> set as" "ra_RoleID a = roleID"
      "h = \<lparr>rh_RoleID = roleID, rh_BindingValues = ra_BindingValues a, rh_Principal = p\<rparr>"
      by (auto simp: new_def)
    have "\<lparr>ra_RoleID = roleID, ra_BindingValues = ra_BindingValues a\<rparr> = a" unfolding a(2) [symmetric] by simp
    with a(1) have "\<lparr>ra_RoleID = roleID, ra_BindingValues = ra_BindingValues a\<rparr> \<in> set as" by (simp only:)
    with a show "rh_RoleID h = roleID \<and> rh_Principal h = p \<and>
        \<lparr>ra_RoleID = roleID, ra_BindingValues = rh_BindingValues h\<rparr> \<in> set as" by simp
  next
    assume h: "rh_RoleID h = roleID \<and> rh_Principal h = p \<and>
        \<lparr>ra_RoleID = roleID, ra_BindingValues = rh_BindingValues h\<rparr> \<in> set as"
    then show "h \<in> set new" unfolding new_def set_map
      by (intro image_eqI [where x = "\<lparr>ra_RoleID = roleID, ra_BindingValues = rh_BindingValues h\<rparr>"])
        (cases h, simp_all)
  qed
  have "lookup_set ((key, as) # m) k = (if k = key then as else lookup_set m k)" for k
    by (simp add: lookup_set_def)
  then have "h \<in> set (new @ hits) \<longleftrightarrow> rh_RoleID h = roleID \<and> PrincipalRef_Validate (rh_Principal h) = None \<and>
      \<lparr>ra_RoleID = roleID, ra_BindingValues = rh_BindingValues h\<rparr>
        \<in> set (lookup_set (entry # m) (principalKey (rh_Principal h)))" for h
    using new_iff [of h] hits(2) p fresh valid_principal_key_inj [of "rh_Principal h" p]
    by (auto simp: entry)
  then show ?case
    using parse hits(1) by (auto simp: entry new_def)
qed

text \<open>The contract of an assignment store, for the principals that pass validation.\<close>

interpretation bootstrap_assignments: assignment_store bootstrap_ops principal_roles
  "\<lambda>p. PrincipalRef_Validate p = None" wf_bootstrap
proof (unfold_locales, goal_cases)
  case (1 st p)
  then show ?case by (simp add: bootstrap_RoleAssignmentsForPrincipal_eq)
next
  case (2 st p r builtIns b st')
  then have call: "bootstrap_AssignRole st p r builtIns b = (None, st')" by simp
  then have valid: "PrincipalRef_Validate p = None" by (simp add: bootstrap_AssignRole_None)
  with principal_roles_AssignRole [OF call valid] wf_bootstrap_AssignRole [OF 2(1) call]
  show ?case by (auto split: if_splits)
next
  case (3 st p r builtIns b st' q)
  then have "bootstrap_AssignRole st p r builtIns b = (None, st')" by simp
  from principal_roles_AssignRole [OF this 3(3)] show ?case by auto
next
  case (4 st p r builtIns b st')
  then have call: "bootstrap_UnassignRole st p r builtIns b = (None, st')" by simp
  then have "PrincipalRef_Validate p = None" by (simp add: bootstrap_UnassignRole_None)
  with principal_roles_UnassignRole [OF call] wf_bootstrap_UnassignRole [OF 4(1) call]
  show ?case by (simp add: unassign_matches_def)
next
  case (5 st r)
  then have "wf_assignments (bs_assignments st)" by (simp add: wf_bootstrap_def)
  from hits_for_role_ok [OF this] show ?case
    by (simp add: bootstrap_RoleAssignmentsForRoleID_def principal_roles_def)
qed

text \<open>Failed writes change nothing, and expiry is final.\<close>

lemma expired_stays: "t \<le> now \<Longrightarrow> IsExpiredAt g t \<Longrightarrow> IsExpiredAt g now"
  by (auto simp: IsExpiredAt_def IsActiveAt_def split: option.splits)

lemma bootstrap_failed_write: "run_write bootstrap_ops w s = (Some e, s') \<Longrightarrow> s' = s"
  by (cases w) (auto simp: bootstrap_CreateGrant_def bootstrap_AssignRole_def bootstrap_UnassignRole_def
      bootstrap_CreateRole_def bootstrap_UpdateRole_def bootstrap_DeleteRole_def bootstrap_AddRoleInheritance_def
      bootstrap_DeleteGrantsForOwner_def bootstrap_DisableBuiltInRole_def bootstrap_EnableBuiltInRole_def Let_def
      split: option.splits if_splits prod.splits)

interpretation bootstrap_cacheable: cacheable_store bootstrap_ops
proof (unfold_locales, goal_cases)
  case (1 w st e st')
  then show ?case by (rule bootstrap_failed_write)
next
  case (2 t now st owners req)
  then have "\<not> IsExpiredAt g now \<and> \<not> IsExpiredAt g t \<and> Q \<longleftrightarrow> \<not> IsExpiredAt g now \<and> Q" for g Q
    using expired_stays by blast
  then show ?case
    by (cases "owner_keys owners")
       (auto simp: bootstrap_GrantsForOwners_def Let_def filter_map comp_def
         intro!: arg_cong [where f = "map cloneGrant"] filter_cong)
qed

end
