(* ===== verification/Inmemory_Store.thy ===== *)
theory Inmemory_Store
  imports Bootstrap_Store
begin

text \<open>
  The in-memory store and identity provider of \<open>inmemory/\<close>: a test double of the store interface.
  Assignments are kept per kind of principal, roles are not stored at all, and the inheritance
  closure is the one of the default store with an additional table of expansions set by hand.
  Hits that the source collects by ranging over a map are listed in the order of the entries; the
  facts speak of their sets.
\<close>

section \<open>State\<close>

record inmemory_store =
  im_userRoleAssignments :: "(string, role_assignment list) gomap"
  im_groupRoleAssignments :: "(string, role_assignment list) gomap"
  im_teamRoleAssignments :: "(string, role_assignment list) gomap"
  im_roleExpansion :: role_sets
  im_roleInheritance :: role_sets
  im_roleClosure :: role_sets
  im_grants :: "grant list"

definition inmemory_NewStore :: inmemory_store where
  "inmemory_NewStore = \<lparr>im_userRoleAssignments = [], im_groupRoleAssignments = [], im_teamRoleAssignments = [],
     im_roleExpansion = [], im_roleInheritance = [], im_roleClosure = [], im_grants = []\<rparr>"

section \<open>Assignments\<close>

text \<open>The three pairs of setters do the same on the map of their kind.\<close>

definition add_assignments ::
  "string \<Rightarrow> role_assignment list \<Rightarrow> (string, role_assignment list) gomap \<Rightarrow> (string, role_assignment list) gomap" where
  "add_assignments i as m = AList.update i (lookup_set m i @ as) m"

definition remove_assignment ::
  "string \<Rightarrow> string \<Rightarrow> bindings \<Rightarrow> (string, role_assignment list) gomap \<Rightarrow> (string, role_assignment list) gomap" where
  "remove_assignment i roleID bindingValues m =
     (let filtered = filter (\<lambda>ra. \<not> (ra_RoleID ra = roleID \<and> BindingValuesEqual (ra_BindingValues ra) bindingValues))
            (lookup_set m i)
      in if filtered = [] then AList.delete i m else AList.update i filtered m)"

definition AddUserRoleAssignments :: "inmemory_store \<Rightarrow> string \<Rightarrow> role_assignment list \<Rightarrow> inmemory_store" where
  "AddUserRoleAssignments s i as = s\<lparr>im_userRoleAssignments := add_assignments i as (im_userRoleAssignments s)\<rparr>"

definition RemoveUserRoleAssignment :: "inmemory_store \<Rightarrow> string \<Rightarrow> string \<Rightarrow> bindings \<Rightarrow> inmemory_store" where
  "RemoveUserRoleAssignment s i r b = s\<lparr>im_userRoleAssignments := remove_assignment i r b (im_userRoleAssignments s)\<rparr>"

definition AddGroupRoleAssignments :: "inmemory_store \<Rightarrow> string \<Rightarrow> role_assignment list \<Rightarrow> inmemory_store" where
  "AddGroupRoleAssignments s i as = s\<lparr>im_groupRoleAssignments := add_assignments i as (im_groupRoleAssignments s)\<rparr>"

definition RemoveGroupRoleAssignment :: "inmemory_store \<Rightarrow> string \<Rightarrow> string \<Rightarrow> bindings \<Rightarrow> inmemory_store" where
  "RemoveGroupRoleAssignment s i r b = s\<lparr>im_groupRoleAssignments := remove_assignment i r b (im_groupRoleAssignments s)\<rparr>"

definition AddTeamRoleAssignments :: "inmemory_store \<Rightarrow> string \<Rightarrow> role_assignment list \<Rightarrow> inmemory_store" where
  "AddTeamRoleAssignments s i as = s\<lparr>im_teamRoleAssignments := add_assignments i as (im_teamRoleAssignments s)\<rparr>"

definition RemoveTeamRoleAssignment :: "inmemory_store \<Rightarrow> string \<Rightarrow> string \<Rightarrow> bindings \<Rightarrow> inmemory_store" where
  "RemoveTeamRoleAssignment s i r b = s\<lparr>im_teamRoleAssignments := remove_assignment i r b (im_teamRoleAssignments s)\<rparr>"

definition inmemory_AssignRole ::
  "inmemory_store \<Rightarrow> principal_ref \<Rightarrow> string \<Rightarrow> role list \<Rightarrow> bindings \<Rightarrow> inmemory_store update" where
  "inmemory_AssignRole s who roleID builtIns bindingValues =
     (case PrincipalRef_Validate who of
        Some e \<Rightarrow> (Some e, s)
      | None \<Rightarrow>
          let assignment = \<lparr>ra_RoleID = roleID, ra_BindingValues = copy_map bindingValues\<rparr> in
          if pr_Kind who = PrincipalUser then (None, AddUserRoleAssignments s (pr_ID who) [assignment])
          else if pr_Kind who = PrincipalGroup then (None, AddGroupRoleAssignments s (pr_ID who) [assignment])
          else if pr_Kind who = PrincipalTeam then (None, AddTeamRoleAssignments s (pr_ID who) [assignment])
          else (Some (Errorf ''role assignments support only user, group, or team principals'' []), s))"

definition inmemory_UnassignRole ::
  "inmemory_store \<Rightarrow> principal_ref \<Rightarrow> string \<Rightarrow> role list \<Rightarrow> bindings \<Rightarrow> inmemory_store update" where
  "inmemory_UnassignRole s who roleID builtIns bindingValues =
     (case PrincipalRef_Validate who of
        Some e \<Rightarrow> (Some e, s)
      | None \<Rightarrow>
          if pr_Kind who = PrincipalUser then (None, RemoveUserRoleAssignment s (pr_ID who) roleID bindingValues)
          else if pr_Kind who = PrincipalGroup then (None, RemoveGroupRoleAssignment s (pr_ID who) roleID bindingValues)
          else if pr_Kind who = PrincipalTeam then (None, RemoveTeamRoleAssignment s (pr_ID who) roleID bindingValues)
          else (Some (Errorf ''role unassignments support only user, group, or team principals'' []), s))"

definition inmemory_roles :: "inmemory_store \<Rightarrow> principal_ref \<Rightarrow> role_assignment list" where
  "inmemory_roles s who =
     (if pr_Kind who = PrincipalUser then lookup_set (im_userRoleAssignments s) (pr_ID who)
      else if pr_Kind who = PrincipalGroup then lookup_set (im_groupRoleAssignments s) (pr_ID who)
      else if pr_Kind who = PrincipalTeam then lookup_set (im_teamRoleAssignments s) (pr_ID who)
      else [])"

definition inmemory_RoleAssignmentsForPrincipal ::
  "inmemory_store \<Rightarrow> principal_ref \<Rightarrow> role_assignment list result" where
  "inmemory_RoleAssignmentsForPrincipal s who = Inr (inmemory_roles s who)"

definition hits_of_kind ::
  "principal_kind \<Rightarrow> string \<Rightarrow> (string, role_assignment list) gomap \<Rightarrow> role_assignment_hit list" where
  "hits_of_kind kind roleID m =
     concat (map (\<lambda>(i, as). map (\<lambda>ra. \<lparr>rh_RoleID = roleID, rh_BindingValues = ra_BindingValues ra,
         rh_Principal = \<lparr>pr_Kind = kind, pr_ID = i\<rparr>\<rparr>) (filter (\<lambda>ra. ra_RoleID ra = roleID) as)) m)"

definition inmemory_RoleAssignmentsForRoleID :: "inmemory_store \<Rightarrow> string \<Rightarrow> role_assignment_hit list result" where
  "inmemory_RoleAssignmentsForRoleID s roleID =
     Inr (hits_of_kind PrincipalUser roleID (im_userRoleAssignments s) @
       hits_of_kind PrincipalGroup roleID (im_groupRoleAssignments s) @
       hits_of_kind PrincipalTeam roleID (im_teamRoleAssignments s))"

section \<open>Roles\<close>

definition inmemory_AddRoleInheritance :: "inmemory_store \<Rightarrow> string \<Rightarrow> string \<Rightarrow> inmemory_store update" where
  "inmemory_AddRoleInheritance s parent child =
     (if parent = '''' then (Some (Errorf ''parent role ID is required'' []), s)
      else if child = '''' then (Some (Errorf ''child role ID is required'' []), s)
      else if parent = child then (Some (Errorf ''a role cannot inherit itself'' []), s)
      else
        let (inh, clo) = add_edge parent child (im_roleInheritance s, im_roleClosure s) in
        (None, s\<lparr>im_roleInheritance := inh, im_roleClosure := clo\<rparr>))"

text \<open>The errors of the mirrored calls are dropped.\<close>

definition SetRoleExpansion :: "inmemory_store \<Rightarrow> string \<Rightarrow> string list \<Rightarrow> inmemory_store" where
  "SetRoleExpansion s roleID expanded =
     fold (\<lambda>child s. snd (inmemory_AddRoleInheritance s roleID child)) expanded
       (s\<lparr>im_roleExpansion := AList.update roleID expanded (im_roleExpansion s)\<rparr>)"

definition inmemory_expand_step :: "inmemory_store \<Rightarrow> string \<Rightarrow> string list \<Rightarrow> string list" where
  "inmemory_expand_step s roleID expanded =
     fold push_new (lookup_set (im_roleExpansion s) roleID)
       (fold push_new (lookup_set (im_roleClosure s) roleID) (push_new roleID expanded))"

definition inmemory_ExpandRoles :: "inmemory_store \<Rightarrow> string list \<Rightarrow> string list result" where
  "inmemory_ExpandRoles s roleIDs = Inr (fold (inmemory_expand_step s) roleIDs [])"

definition inmemory_RoleDefinitions :: "inmemory_store \<Rightarrow> role list result" where
  "inmemory_RoleDefinitions s = Inr []"

definition inmemory_RoleDefinition :: "inmemory_store \<Rightarrow> string \<Rightarrow> role result" where
  "inmemory_RoleDefinition s roleID =
     (if roleID = '''' then Inl (Errorf ''role ID is required'' [])
      else Inr (zero_role\<lparr>ro_ID := roleID, ro_Name := roleID\<rparr>))"

text \<open>The writes of roles and of the switches of built-in roles do nothing.\<close>

definition inmemory_CreateRole :: "inmemory_store \<Rightarrow> role \<Rightarrow> inmemory_store update" where
  "inmemory_CreateRole s r = (None, s)"

definition inmemory_UpdateRole :: "inmemory_store \<Rightarrow> role \<Rightarrow> inmemory_store update" where
  "inmemory_UpdateRole s r = (None, s)"

definition inmemory_DeleteRole :: "inmemory_store \<Rightarrow> string \<Rightarrow> inmemory_store update" where
  "inmemory_DeleteRole s r = (None, s)"

definition inmemory_DisableBuiltInRole :: "inmemory_store \<Rightarrow> string \<Rightarrow> inmemory_store update" where
  "inmemory_DisableBuiltInRole s r = (None, s)"

definition inmemory_EnableBuiltInRole :: "inmemory_store \<Rightarrow> string \<Rightarrow> inmemory_store update" where
  "inmemory_EnableBuiltInRole s r = (None, s)"

definition inmemory_DisabledBuiltInRoles :: "inmemory_store \<Rightarrow> string list result" where
  "inmemory_DisabledBuiltInRoles s = Inr []"

section \<open>Grants\<close>

definition AddGrants :: "inmemory_store \<Rightarrow> grant list \<Rightarrow> inmemory_store" where
  "AddGrants s gs = s\<lparr>im_grants := im_grants s @ gs\<rparr>"

definition inmemory_CreateGrant :: "inmemory_store \<Rightarrow> grant \<Rightarrow> inmemory_store update" where
  "inmemory_CreateGrant s g = (None, AddGrants s [g])"

text \<open>The package has its own copy of the scope test.\<close>

definition inmemory_scopeMatches :: "string \<Rightarrow> string \<Rightarrow> bool" where
  "inmemory_scopeMatches scope reqValue =
     (if scope = ''*'' then True
      else if HasPrefix scope ''?'' then reqValue \<noteq> ''''
      else if reqValue \<noteq> '''' then scope = reqValue
      else False)"

lemma inmemory_scopeMatches_eq [simp]: "inmemory_scopeMatches = scopeMatches"
  by (simp add: inmemory_scopeMatches_def scopeMatches_def fun_eq_iff)

definition inmemory_GrantsForOwners ::
  "time \<Rightarrow> inmemory_store \<Rightarrow> principal_ref list \<Rightarrow> request \<Rightarrow> grant list result" where
  "inmemory_GrantsForOwners now s owners req =
     (let ownerSet = principalKey ` set owners; team = rq_TeamID req; object = rq_Object req in
      Inr (filter (\<lambda>g. IsActiveAt g now
        \<and> principalKey \<lparr>pr_Kind = gr_OwnerKind g, pr_ID = gr_OwnerID g\<rparr> \<in> ownerSet
        \<and> \<not> (rq_Perm req \<noteq> '''' \<and> gr_PermissionName g \<noteq> rq_Perm req)
        \<and> inmemory_scopeMatches (gr_TeamScope g) team
        \<and> \<not> (case gr_ObjectScope g of None \<Rightarrow> False | Some os \<Rightarrow> \<not> inmemory_scopeMatches os object))
        (im_grants s)))"

definition inmemory_GrantsForPrincipal :: "time \<Rightarrow> inmemory_store \<Rightarrow> principal_ref \<Rightarrow> grant list result" where
  "inmemory_GrantsForPrincipal now s who = inmemory_GrantsForOwners now s [who] zero_request"

definition principal_request_matches :: "time \<Rightarrow> request \<Rightarrow> grant \<Rightarrow> bool" where
  "principal_request_matches now req g \<longleftrightarrow>
     IsActiveAt g now \<and> \<not> (rq_Perm req \<noteq> '''' \<and> gr_PermissionName g \<noteq> rq_Perm req) \<and>
     \<not> (if rq_TeamID req \<noteq> '''' then gr_TeamScope g \<noteq> ''*'' \<and> gr_TeamScope g \<noteq> rq_TeamID req
        else gr_TeamScope g \<noteq> ''*'') \<and>
     \<not> (case gr_ObjectScope g of None \<Rightarrow> False | Some os \<Rightarrow> os \<noteq> ''*'' \<and> os \<noteq> rq_Object req)"

definition inmemory_PrincipalsWithGrant :: "time \<Rightarrow> inmemory_store \<Rightarrow> request \<Rightarrow> principal_hit list result" where
  "inmemory_PrincipalsWithGrant now s req =
     (let (denied, allowed) = fold (\<lambda>g acc.
            if principal_request_matches now req g then principal_hit_step g acc else acc) (im_grants s) ({}, [])
      in Inr (map snd allowed))"

definition inmemory_DeleteGrantsForOwner ::
  "inmemory_store \<Rightarrow> principal_kind \<Rightarrow> string \<Rightarrow> inmemory_store update" where
  "inmemory_DeleteGrantsForOwner s ownerKind ownerID =
     (None, s\<lparr>im_grants := filter (\<lambda>g. \<not> (gr_OwnerKind g = ownerKind \<and> gr_OwnerID g = ownerID)) (im_grants s)\<rparr>)"

definition inmemory_ListGrants :: "inmemory_store \<Rightarrow> grant_query \<Rightarrow> grant_query_result result" where
  "inmemory_ListGrants s query = list_grants (im_grants s) query"

definition inmemory_ops :: "inmemory_store store_ops" where
  "inmemory_ops = \<lparr>
     op_RoleDefinitions = inmemory_RoleDefinitions,
     op_RoleDefinition = inmemory_RoleDefinition,
     op_CreateRole = inmemory_CreateRole,
     op_UpdateRole = inmemory_UpdateRole,
     op_DeleteRole = inmemory_DeleteRole,
     op_AddRoleInheritance = inmemory_AddRoleInheritance,
     op_RoleAssignmentsForPrincipal = inmemory_RoleAssignmentsForPrincipal,
     op_RoleAssignmentsForRoleID = inmemory_RoleAssignmentsForRoleID,
     op_AssignRole = inmemory_AssignRole,
     op_UnassignRole = inmemory_UnassignRole,
     op_GrantsForPrincipal = inmemory_GrantsForPrincipal,
     op_GrantsForOwners = inmemory_GrantsForOwners,
     op_CreateGrant = inmemory_CreateGrant,
     op_PrincipalsWithGrant = inmemory_PrincipalsWithGrant,
     op_ExpandRoles = inmemory_ExpandRoles,
     op_DeleteGrantsForOwner = inmemory_DeleteGrantsForOwner,
     op_DisableBuiltInRole = inmemory_DisableBuiltInRole,
     op_EnableBuiltInRole = inmemory_EnableBuiltInRole,
     op_DisabledBuiltInRoles = inmemory_DisabledBuiltInRoles,
     op_ListGrants = inmemory_ListGrants,
     op_BulkCreateGrants = None\<rparr>"

section \<open>The store as a provider of grants\<close>

lemma inmemory_GrantsForOwners_iff:
  "g \<in> set (projr (inmemory_GrantsForOwners now s owners req)) \<longleftrightarrow>
     g \<in> set (im_grants s) \<and> owned_by owners g \<and> \<not> IsExpiredAt g now \<and> perm_filter req g \<and> scope_filter req g"
  by (auto simp: inmemory_GrantsForOwners_def Let_def owned_by_def grant_owner_def IsExpiredAt_def perm_filter_def
      scope_filter_def split: option.splits)

lemma inmemory_GrantsForOwners_Inr:
  "inmemory_GrantsForOwners now s owners req = Inr gs \<longleftrightarrow> gs = projr (inmemory_GrantsForOwners now s owners req)"
  by (auto simp: inmemory_GrantsForOwners_def Let_def)

text \<open>Every state satisfies the contract of a store of grants.\<close>

interpretation inmemory: grant_store inmemory_ops im_grants "\<lambda>_. True"
proof (unfold_locales, goal_cases)
  case (1 st now owners req gs g)
  then show ?case by (simp add: inmemory_ops_def inmemory_GrantsForOwners_Inr inmemory_GrantsForOwners_iff)
next
  case (2 st owners now req)
  then show ?case by (simp add: inmemory_ops_def inmemory_GrantsForOwners_Inr)
next
  case (3 st now owners req gs g)
  then show ?case by (simp add: inmemory_ops_def inmemory_GrantsForOwners_Inr inmemory_GrantsForOwners_iff)
next
  case (4 st g)
  then show ?case by (simp add: inmemory_ops_def inmemory_CreateGrant_def AddGrants_def)
next
  case (5 st kind oid e st')
  then show ?case by (auto simp: inmemory_ops_def inmemory_DeleteGrantsForOwner_def)
qed

section \<open>Expansion\<close>

text \<open>The closure is exact, and what was set by hand follows the edges.\<close>

definition inmemory_roles_ok :: "inmemory_store \<Rightarrow> bool" where
  "inmemory_roles_ok s \<longleftrightarrow> closure_ok (im_roleInheritance s, im_roleClosure s) \<and>
     (\<forall>r. set (lookup_set (im_roleExpansion s) r) \<subseteq> (inh_edges (im_roleInheritance s))\<^sup>* `` {r})"

lemma inmemory_roles_ok_New [simp]: "inmemory_roles_ok inmemory_NewStore"
  by (simp add: inmemory_roles_ok_def inmemory_NewStore_def)

lemma inmemory_AddRoleInheritance_effect:
  assumes "inmemory_AddRoleInheritance s p c = (e, s')"
  shows "im_roleExpansion s' = im_roleExpansion s"
    and "inh_edges (im_roleInheritance s') =
      (if p \<noteq> '''' \<and> c \<noteq> '''' \<and> p \<noteq> c then insert (p, c) (inh_edges (im_roleInheritance s))
       else inh_edges (im_roleInheritance s))"
    and "closure_ok (im_roleInheritance s, im_roleClosure s) \<Longrightarrow> closure_ok (im_roleInheritance s', im_roleClosure s')"
proof -
  obtain inh clo where new: "add_edge p c (im_roleInheritance s, im_roleClosure s) = (inh, clo)" by fastforce
  have edges: "inh_edges inh = insert (p, c) (inh_edges (im_roleInheritance s))"
    using inh_edges_add_edge [of p c "im_roleInheritance s" "im_roleClosure s"] by (simp add: new)
  have ok: "closure_ok (im_roleInheritance s, im_roleClosure s) \<Longrightarrow> closure_ok (inh, clo)"
    using closure_ok_add_edge [of "im_roleInheritance s" "im_roleClosure s" p c] by (simp add: new)
  show "im_roleExpansion s' = im_roleExpansion s"
    and "inh_edges (im_roleInheritance s') =
      (if p \<noteq> '''' \<and> c \<noteq> '''' \<and> p \<noteq> c then insert (p, c) (inh_edges (im_roleInheritance s))
       else inh_edges (im_roleInheritance s))"
    and "closure_ok (im_roleInheritance s, im_roleClosure s) \<Longrightarrow> closure_ok (im_roleInheritance s', im_roleClosure s')"
    using assms ok by (auto simp: inmemory_AddRoleInheritance_def new edges split: if_splits)
qed

lemma inmemory_roles_ok_AddRoleInheritance:
  assumes "inmemory_roles_ok s" "inmemory_AddRoleInheritance s p c = (e, s')"
  shows "inmemory_roles_ok s'"
proof -
  note effect = inmemory_AddRoleInheritance_effect [OF assms(2)]
  have "(inh_edges (im_roleInheritance s))\<^sup>* \<subseteq> (inh_edges (im_roleInheritance s'))\<^sup>*"
    by (rule rtrancl_mono) (auto simp: effect(2))
  with assms(1) effect(1,3) show ?thesis by (fastforce simp: inmemory_roles_ok_def)
qed

text \<open>Mirroring adds an edge for every non-empty child, so the table may contain exactly them.\<close>

lemma inmemory_mirror:
  assumes "s' = fold (\<lambda>child s. snd (inmemory_AddRoleInheritance s r child)) cs s" "r \<noteq> ''''"
  shows "im_roleExpansion s' = im_roleExpansion s \<and>
    (closure_ok (im_roleInheritance s, im_roleClosure s) \<longrightarrow> closure_ok (im_roleInheritance s', im_roleClosure s')) \<and>
    inh_edges (im_roleInheritance s') =
      inh_edges (im_roleInheritance s) \<union> {(r, c) | c. c \<in> set cs \<and> c \<noteq> '''' \<and> c \<noteq> r}"
  using assms(1)
proof (induction cs arbitrary: s)
  case (Cons c cs)
  obtain e s1 where call: "inmemory_AddRoleInheritance s r c = (e, s1)" by fastforce
  then have "s' = fold (\<lambda>child s. snd (inmemory_AddRoleInheritance s r child)) cs s1"
    using Cons.prems by simp
  from Cons.IH [OF this] inmemory_AddRoleInheritance_effect [OF call] assms(2) show ?case by auto
qed simp

lemma inmemory_roles_ok_SetRoleExpansion:
  assumes "inmemory_roles_ok s" "r \<noteq> ''''" "'''' \<notin> set cs"
  shows "inmemory_roles_ok (SetRoleExpansion s r cs)"
proof -
  define s0 where "s0 = s\<lparr>im_roleExpansion := AList.update r cs (im_roleExpansion s)\<rparr>"
  define s' where "s' = SetRoleExpansion s r cs"
  have s': "s' = fold (\<lambda>child s. snd (inmemory_AddRoleInheritance s r child)) cs s0"
    by (simp add: s'_def s0_def SetRoleExpansion_def)
  note effect = inmemory_mirror [OF s' assms(2)]
  let ?E = "inh_edges (im_roleInheritance s)" and ?E' = "inh_edges (im_roleInheritance s')"
  have edges: "?E' = ?E \<union> {(r, c) | c. c \<in> set cs \<and> c \<noteq> '''' \<and> c \<noteq> r}"
    using effect by (simp add: s0_def)
  have "?E\<^sup>* \<subseteq> ?E'\<^sup>*" by (rule rtrancl_mono) (simp add: edges)
  moreover have "(r, c) \<in> ?E'\<^sup>*" if "c \<in> set cs" for c
    using that assms(3) edges by (cases "c = r") auto
  ultimately have "set (lookup_set (im_roleExpansion s') q) \<subseteq> ?E'\<^sup>* `` {q}" for q
    using assms(1) conjunct1 [OF effect] by (cases "q = r") (auto simp: s0_def inmemory_roles_ok_def)
  moreover have "closure_ok (im_roleInheritance s', im_roleClosure s')"
    using assms(1) effect by (simp add: s0_def inmemory_roles_ok_def)
  ultimately show ?thesis by (simp add: inmemory_roles_ok_def s'_def)
qed

lemma inmemory_expand_fold:
  "set (fold (inmemory_expand_step s) ids acc) = set acc \<union>
     (\<Union>r \<in> set ids. insert r (set (lookup_set (im_roleClosure s) r) \<union> set (lookup_set (im_roleExpansion s) r)))"
  by (induction ids arbitrary: acc) (auto simp: inmemory_expand_step_def set_fold_push_new)

lemma distinct_inmemory_expand: "distinct acc \<Longrightarrow> distinct (fold (inmemory_expand_step s) ids acc)"
  by (induction ids arbitrary: acc) (simp_all add: inmemory_expand_step_def distinct_fold_push_new distinct_push_new)

interpretation inmemory_roles: inheritance_store inmemory_ops "\<lambda>s. inh_edges (im_roleInheritance s)" inmemory_roles_ok
proof (unfold_locales, goal_cases)
  case (1 st ids)
  have "insert r (set (lookup_set (im_roleClosure st) r)) = (inh_edges (im_roleInheritance st))\<^sup>* `` {r}" for r
  proof (cases "r \<in> dom (map_of (im_roleClosure st))")
    case True
    with 1(1) show ?thesis by (auto simp: inmemory_roles_ok_def closure_ok_def)
  next
    case False
    with 1(1) have "r \<notin> Field (inh_edges (im_roleInheritance st))"
      by (auto simp: inmemory_roles_ok_def closure_ok_def)
    with False show ?thesis by (simp add: rtrancl_no_edges lookup_not_dom)
  qed
  then have "insert r (set (lookup_set (im_roleClosure st) r) \<union> set (lookup_set (im_roleExpansion st) r)) =
      (inh_edges (im_roleInheritance st))\<^sup>* `` {r}" for r
    using 1(1) by (auto simp: inmemory_roles_ok_def)
  then have "set (fold (inmemory_expand_step st) ids []) = (inh_edges (im_roleInheritance st))\<^sup>* `` set ids"
    unfolding inmemory_expand_fold by auto
  then show ?case by (simp add: inmemory_ops_def inmemory_ExpandRoles_def distinct_inmemory_expand)
next
  case (2 st p c e st')
  then have "inmemory_AddRoleInheritance st p c = (e, st')" by (simp add: inmemory_ops_def)
  with inmemory_AddRoleInheritance_effect(2) [OF this] inmemory_roles_ok_AddRoleInheritance [OF 2(1) this]
  show ?case by (auto simp: proper_edges_def)
qed

section \<open>The store as a provider of assignments\<close>

definition inmemory_holder :: "principal_ref \<Rightarrow> bool" where
  "inmemory_holder p \<longleftrightarrow> pr_Kind p \<in> {PrincipalUser, PrincipalGroup, PrincipalTeam}"

definition inmemory_maps_ok :: "inmemory_store \<Rightarrow> bool" where
  "inmemory_maps_ok s \<longleftrightarrow> wf_gomap (im_userRoleAssignments s) \<and> wf_gomap (im_groupRoleAssignments s) \<and>
     wf_gomap (im_teamRoleAssignments s)"

lemma lookup_add_assignments [simp]:
  "lookup_set (add_assignments i as m) j = (if j = i then lookup_set m i @ as else lookup_set m j)"
  by (simp add: add_assignments_def)

lemma lookup_remove_assignment [simp]:
  "lookup_set (remove_assignment i r b m) j =
     (if j = i then filter (\<lambda>ra. \<not> (ra_RoleID ra = r \<and> BindingValuesEqual (ra_BindingValues ra) b)) (lookup_set m i)
      else lookup_set m j)"
  by (simp add: remove_assignment_def Let_def)

lemma wf_assignment_maps [simp]:
  "wf_gomap m \<Longrightarrow> wf_gomap (add_assignments i as m)"
  "wf_gomap m \<Longrightarrow> wf_gomap (remove_assignment i r b m)"
  by (simp_all add: add_assignments_def remove_assignment_def Let_def)

lemmas kinds_distinct = PrincipalUser_def PrincipalGroup_def PrincipalTeam_def PrincipalRole_def

lemmas inmemory_setters = AddUserRoleAssignments_def AddGroupRoleAssignments_def AddTeamRoleAssignments_def
  RemoveUserRoleAssignment_def RemoveGroupRoleAssignment_def RemoveTeamRoleAssignment_def

lemma inmemory_AssignRole_None:
  assumes "inmemory_AssignRole s p r builtIns b = (None, s')"
  shows "inmemory_holder p" "inmemory_maps_ok s \<Longrightarrow> inmemory_maps_ok s'"
    "inmemory_roles s' q = inmemory_roles s q @ (if q = p then [\<lparr>ra_RoleID = r, ra_BindingValues = copy_map b\<rparr>] else [])"
  using assms
  by (auto simp: inmemory_AssignRole_def inmemory_holder_def inmemory_maps_ok_def inmemory_roles_def inmemory_setters
      Let_def kinds_distinct split: option.splits if_splits)

lemma inmemory_UnassignRole_None:
  assumes "inmemory_UnassignRole s p r builtIns b = (None, s')"
  shows "inmemory_holder p" "inmemory_maps_ok s \<Longrightarrow> inmemory_maps_ok s'"
    "inmemory_roles s' q = (if q = p then filter (\<lambda>ra. \<not> (ra_RoleID ra = r \<and> BindingValuesEqual (ra_BindingValues ra) b))
       (inmemory_roles s p) else inmemory_roles s q)"
  using assms
  by (auto simp: inmemory_UnassignRole_def inmemory_holder_def inmemory_maps_ok_def inmemory_roles_def inmemory_setters
      kinds_distinct split: option.splits if_splits)

lemma set_hits_of_kind:
  assumes "wf_gomap m"
  shows "h \<in> set (hits_of_kind kind r m) \<longleftrightarrow> rh_RoleID h = r \<and> pr_Kind (rh_Principal h) = kind \<and>
    \<lparr>ra_RoleID = r, ra_BindingValues = rh_BindingValues h\<rparr> \<in> set (lookup_set m (pr_ID (rh_Principal h)))"
proof
  assume "h \<in> set (hits_of_kind kind r m)"
  then obtain i as ra where "(i, as) \<in> set m" and ra: "ra \<in> set as" "ra_RoleID ra = r"
    "h = \<lparr>rh_RoleID = r, rh_BindingValues = ra_BindingValues ra, rh_Principal = \<lparr>pr_Kind = kind, pr_ID = i\<rparr>\<rparr>"
    by (auto simp: hits_of_kind_def)
  then have "lookup_set m i = as" using assms by (simp add: lookup_set_def wf_gomap_in_iff)
  moreover have "\<lparr>ra_RoleID = r, ra_BindingValues = ra_BindingValues ra\<rparr> = ra" using ra(2) by simp
  ultimately show "rh_RoleID h = r \<and> pr_Kind (rh_Principal h) = kind \<and>
    \<lparr>ra_RoleID = r, ra_BindingValues = rh_BindingValues h\<rparr> \<in> set (lookup_set m (pr_ID (rh_Principal h)))"
    using ra(1,3) by (metis principal_ref.select_convs role_assignment_hit.select_convs)
next
  assume h: "rh_RoleID h = r \<and> pr_Kind (rh_Principal h) = kind \<and>
    \<lparr>ra_RoleID = r, ra_BindingValues = rh_BindingValues h\<rparr> \<in> set (lookup_set m (pr_ID (rh_Principal h)))"
  then obtain as where as: "map_of m (pr_ID (rh_Principal h)) = Some as"
    "\<lparr>ra_RoleID = r, ra_BindingValues = rh_BindingValues h\<rparr> \<in> set as"
    by (cases "map_of m (pr_ID (rh_Principal h))") (auto simp: lookup_set_def)
  have "h = \<lparr>rh_RoleID = r, rh_BindingValues = rh_BindingValues h,
      rh_Principal = \<lparr>pr_Kind = kind, pr_ID = pr_ID (rh_Principal h)\<rparr>\<rparr>" using h by simp
  with map_of_SomeD [OF as(1)] as(2) show "h \<in> set (hits_of_kind kind r m)"
    unfolding hits_of_kind_def by force
qed

interpretation inmemory_assignments: assignment_store inmemory_ops inmemory_roles inmemory_holder inmemory_maps_ok
proof (unfold_locales, goal_cases)
  case (1 st p)
  then show ?case by (simp add: inmemory_ops_def inmemory_RoleAssignmentsForPrincipal_def)
next
  case (2 st p r builtIns b st')
  then have "inmemory_AssignRole st p r builtIns b = (None, st')" by (simp add: inmemory_ops_def)
  from inmemory_AssignRole_None [OF this] 2(1) show ?case by simp
next
  case (3 st p r builtIns b st' q)
  then have "inmemory_AssignRole st p r builtIns b = (None, st')" by (simp add: inmemory_ops_def)
  from inmemory_AssignRole_None [OF this] show ?case by simp
next
  case (4 st p r builtIns b st')
  then have "inmemory_UnassignRole st p r builtIns b = (None, st')" by (simp add: inmemory_ops_def)
  from inmemory_UnassignRole_None [OF this] 4(1) show ?case by simp
next
  case (5 st r)
  then show ?case
    by (auto simp: inmemory_ops_def inmemory_RoleAssignmentsForRoleID_def inmemory_maps_ok_def set_hits_of_kind
        inmemory_roles_def inmemory_holder_def kinds_distinct)
qed

lemma inmemory_failed_write: "run_write inmemory_ops w s = (Some e, s') \<Longrightarrow> s' = s"
  by (cases w) (auto simp: inmemory_ops_def inmemory_CreateGrant_def inmemory_AssignRole_def inmemory_UnassignRole_def
      inmemory_CreateRole_def inmemory_UpdateRole_def inmemory_DeleteRole_def inmemory_AddRoleInheritance_def
      inmemory_DeleteGrantsForOwner_def inmemory_DisableBuiltInRole_def inmemory_EnableBuiltInRole_def Let_def
      split: option.splits if_splits prod.splits)

interpretation inmemory_cacheable: cacheable_store inmemory_ops
proof (unfold_locales, goal_cases)
  case (1 w st e st')
  then show ?case by (rule inmemory_failed_write)
next
  case (2 t now st owners req)
  then have "IsActiveAt g now \<Longrightarrow> IsActiveAt g t" for g
    using expired_stays [of t now g] by (auto simp: IsExpiredAt_def)
  then show ?case
    by (auto simp: inmemory_ops_def inmemory_GrantsForOwners_def Let_def IsExpiredAt_def intro!: filter_cong)
qed

end
