(* ===== verification/Go_Json.thy ===== *)
theory Go_Json
  imports Types
begin

text \<open>
  The part of \<open>encoding/json\<close> that the caching store uses to print its keys: strings (bytes, with
  the escapes of \<open>json.Marshal\<close>, which escapes HTML and replaces invalid UTF-8), slices, objects.
  Distinct valid texts print differently, and a printed value can be told apart from what follows
  it, so the keys built from them do not collide; invalid bytes all print alike.
\<close>

section \<open>UTF-8\<close>

abbreviation byte :: "char \<Rightarrow> nat" where "byte c \<equiv> of_char c"

definition cont :: "nat \<Rightarrow> nat \<Rightarrow> char \<Rightarrow> bool" where
  "cont lo hi c \<longleftrightarrow> lo \<le> byte c \<and> byte c \<le> hi"

text \<open>The length of the rune at the head, or 0 where \<open>utf8.DecodeRuneInString\<close> reports an error.\<close>

definition lead_len :: "char \<Rightarrow> nat" where
  "lead_len a = (if cont 0xC2 0xDF a then 2 else if cont 0xE0 0xEF a then 3 else if cont 0xF0 0xF4 a then 4 else 0)"

definition second_ok :: "char \<Rightarrow> char \<Rightarrow> bool" where
  "second_ok a b =
     cont (if byte a = 0xE0 then 0xA0 else if byte a = 0xF0 then 0x90 else 0x80)
       (if byte a = 0xED then 0x9F else if byte a = 0xF4 then 0x8F else 0xBF) b"

definition rune_len :: "string \<Rightarrow> nat" where
  "rune_len s =
     (case s of
        [] \<Rightarrow> 0
      | a # t \<Rightarrow>
          if byte a < 0x80 then 1
          else if lead_len a \<noteq> 0 \<and> lead_len a - 1 \<le> length t \<and> second_ok a (hd t) \<and>
            list_all (cont 0x80 0xBF) (take (lead_len a - 2) (tl t))
          then lead_len a else 0)"

lemma lead_len_range: "lead_len a \<noteq> 0 \<Longrightarrow> 2 \<le> lead_len a"
  by (simp add: lead_len_def split: if_splits)

lemma rune_len_le: "rune_len s \<le> length s"
  by (auto simp: rune_len_def split: list.splits)

lemma rune_len_ascii: "byte a < 0x80 \<Longrightarrow> rune_len (a # s) = 1"
  by (simp add: rune_len_def)

lemma rune_len_multi: "\<not> byte a < 0x80 \<Longrightarrow> 0 < rune_len (a # s) \<Longrightarrow> 2 \<le> rune_len (a # s)"
  using lead_len_range [of a] by (simp add: rune_len_def split: if_splits)

lemma rune_len_take:
  assumes "0 < rune_len s"
  shows "rune_len (take (rune_len s) s @ r) = rune_len s"
proof -
  obtain a t where s: "s = a # t" using assms by (cases s) (auto simp: rune_len_def)
  show ?thesis
  proof (cases "byte a < 0x80")
    case True
    then show ?thesis by (simp add: s rune_len_ascii)
  next
    case False
    define n where "n = lead_len a"
    have n: "rune_len s = n" "2 \<le> n" "n - 1 \<le> length t" "second_ok a (hd t)"
      "list_all (cont 0x80 0xBF) (take (n - 2) (tl t))"
      using assms False lead_len_range [of a] by (auto simp: s rune_len_def n_def split: if_splits)
    then obtain b u where t: "t = b # u" by (cases t) auto
    obtain k where k: "n = Suc (Suc k)" using n(2) by (metis add_2_eq_Suc le_Suc_ex)
    have "rune_len (a # b # take k u @ r) = n"
      using n False by (simp add: rune_len_def n_def [symmetric] t k)
    then show ?thesis using n(1) by (simp add: s t k)
  qed
qed

section \<open>Printing\<close>

definition backslash :: char where "backslash = CHR 0x5C"
definition quote :: char where "quote = CHR 0x22"

definition hex_digit :: "nat \<Rightarrow> char" where
  "hex_digit n = ''0123456789abcdef'' ! n"

definition json_safe :: "char \<Rightarrow> bool" where
  "json_safe c \<longleftrightarrow> 0x20 \<le> byte c \<and> byte c < 0x80 \<and> c \<notin> {quote, backslash, CHR ''<'', CHR ''>'', CHR ''&''}"

definition json_escape :: "char \<Rightarrow> string" where
  "json_escape c =
     (if c = backslash \<or> c = quote then [backslash, c]
      else if byte c = 0x08 then [backslash, CHR ''b'']
      else if byte c = 0x0C then [backslash, CHR ''f'']
      else if byte c = 0x0A then [backslash, CHR ''n'']
      else if byte c = 0x0D then [backslash, CHR ''r'']
      else if byte c = 0x09 then [backslash, CHR ''t'']
      else [backslash, CHR ''u'', CHR ''0'', CHR ''0'', hex_digit (byte c div 16), hex_digit (byte c mod 16)])"

definition json_rune :: "string \<Rightarrow> string" where
  "json_rune s =
     (case s of
        [c] \<Rightarrow> if json_safe c then [c] else json_escape c
      | _ \<Rightarrow>
          if map byte s = [0xE2, 0x80, 0xA8] then backslash # ''u2028''
          else if map byte s = [0xE2, 0x80, 0xA9] then backslash # ''u2029''
          else s)"

function json_body :: "string \<Rightarrow> string" where
  "json_body [] = []"
| "json_body (c # cs) =
     (let n = rune_len (c # cs) in
      if n = 0 then (backslash # ''ufffd'') @ json_body cs
      else json_rune (take n (c # cs)) @ json_body (drop n (c # cs)))"
  by pat_completeness auto
termination
  by (relation "measure length") auto

definition json_string :: "string \<Rightarrow> string" where
  "json_string s = [quote] @ json_body s @ [quote]"

text \<open>A nil slice and an empty one are the same list in this development; it prints as \<open>null\<close>.\<close>

definition json_list :: "('a \<Rightarrow> string) \<Rightarrow> 'a list \<Rightarrow> string" where
  "json_list f xs = (if xs = [] then ''null'' else ''['' @ join_with '','' (map f xs) @ '']'')"

definition json_bool :: "bool \<Rightarrow> string" where
  "json_bool b = (if b then ''true'' else ''false'')"

text \<open>An object with its fields in order: \<open>{"name":value,...}\<close>.\<close>

definition json_object :: "(string \<times> string) list \<Rightarrow> string" where
  "json_object members = ''{'' @ join_with '','' (map (\<lambda>(k, v). json_string k @ '':'' @ v) members) @ ''}''"

section \<open>Reading back\<close>

fun valid_text :: "string \<Rightarrow> bool" where
  "valid_text [] = True"
| "valid_text (c # cs) = (rune_len (c # cs) \<noteq> 0 \<and> valid_text (drop (rune_len (c # cs) - 1) cs))"

definition unhex :: "char \<Rightarrow> nat" where
  "unhex c = (if byte c < 0x40 then byte c - 0x30 else byte c - 0x57)"

definition json_token :: "string \<Rightarrow> (string \<times> string) option" where
  "json_token xs =
     (case xs of
        [] \<Rightarrow> None
      | c # cs \<Rightarrow>
          if c = quote then None
          else if c \<noteq> backslash then Some (take (rune_len xs) xs, drop (rune_len xs) xs)
          else (case cs of
              [] \<Rightarrow> None
            | e # r \<Rightarrow>
                if e = backslash \<or> e = quote then Some ([e], r)
                else if e = CHR ''b'' then Some ([char_of (0x08 :: nat)], r)
                else if e = CHR ''f'' then Some ([char_of (0x0C :: nat)], r)
                else if e = CHR ''n'' then Some ([char_of (0x0A :: nat)], r)
                else if e = CHR ''r'' then Some ([char_of (0x0D :: nat)], r)
                else if e = CHR ''t'' then Some ([char_of (0x09 :: nat)], r)
                else if take 4 r = ''2028'' then Some (map char_of [0xE2, 0x80, 0xA8 :: nat], drop 4 r)
                else if take 4 r = ''2029'' then Some (map char_of [0xE2, 0x80, 0xA9 :: nat], drop 4 r)
                else Some ([char_of (16 * unhex (r ! 2) + unhex (r ! 3))], drop 4 r)))"

lemma hex_digits:
  "n < 16 \<Longrightarrow> unhex (hex_digit n) = n"
proof -
  assume "n < 16"
  then have "n \<in> {0..<16}" by simp
  moreover have "\<forall>n \<in> {0..<16}. unhex (hex_digit n) = n" by code_simp
  ultimately show ?thesis by blast
qed

lemma byte_inj: "byte c = byte d \<longleftrightarrow> c = d"
  by simp

lemma json_escape_token:
  assumes "byte c < 0x80"
  shows "json_token (json_escape c @ r) = Some ([c], r)"
proof -
  have char: "char_of (8 :: nat) = c \<longleftrightarrow> byte c = 8" "char_of (9 :: nat) = c \<longleftrightarrow> byte c = 9"
    "char_of (10 :: nat) = c \<longleftrightarrow> byte c = 10" "char_of (12 :: nat) = c \<longleftrightarrow> byte c = 12"
    "char_of (13 :: nat) = c \<longleftrightarrow> byte c = 13"
    by (auto simp: char_of_eq_iff take_bit_eq_mod)
  have "unhex (hex_digit (byte c div 16)) = byte c div 16" "unhex (hex_digit (byte c mod 16)) = byte c mod 16"
    using assms by (simp_all add: hex_digits)
  moreover have "char_of (16 * (byte c div 16) + byte c mod 16) = c" by simp
  ultimately show ?thesis
    by (simp add: json_escape_def json_token_def backslash_def quote_def nth_Cons' char)
qed

lemma json_rune_token:
  assumes "0 < rune_len s"
  shows "json_token (json_rune (take (rune_len s) s) @ r) = Some (take (rune_len s) s, r)"
proof -
  obtain a s1 where s: "s = a # s1" using assms by (cases s) (auto simp: rune_len_def)
  define u where "u = take (rune_len s) s"
  have len: "rune_len (u @ r) = length u" for r
    using rune_len_take [OF assms, of r] rune_len_le [of s] by (simp add: u_def)
  show ?thesis unfolding u_def [symmetric]
  proof (cases "byte a < 0x80")
    case True
    then have u: "u = [a]" by (simp add: u_def s rune_len_ascii)
    show "json_token (json_rune u @ r) = Some (u, r)"
    proof (cases "json_safe a")
      case True
      then show ?thesis using len [of r] by (auto simp: u json_rune_def json_token_def json_safe_def)
    next
      case False
      with json_escape_token [OF \<open>byte a < 0x80\<close>] show ?thesis by (simp add: u json_rune_def)
    qed
  next
    case False
    then have "2 \<le> rune_len s" using rune_len_multi assms by (simp add: s)
    then obtain m where m: "rune_len s = Suc (Suc m)" by (metis add_2_eq_Suc le_Suc_ex)
    then obtain b t where u: "u = a # b # t"
      using rune_len_le [of s] by (cases s1) (simp_all add: u_def s)
    have a: "a \<noteq> quote" "a \<noteq> backslash" using False by (auto simp: quote_def backslash_def)
    have bytes: "map char_of (map byte u) = u" by (simp add: comp_def)
    have rune: "json_rune u = (if map byte u = [0xE2, 0x80, 0xA8] then backslash # ''u2028''
          else if map byte u = [0xE2, 0x80, 0xA9] then backslash # ''u2029'' else u)"
      by (simp add: json_rune_def u)
    consider (ls) "map byte u = [0xE2, 0x80, 0xA8]" | (ps) "map byte u = [0xE2, 0x80, 0xA9]"
      | (plain) "json_rune u = u" using rune by metis
    then show "json_token (json_rune u @ r) = Some (u, r)"
    proof cases
      case plain
      then show ?thesis using a len [of r] by (simp add: json_token_def u)
    next
      case ls
      then have "u = map char_of [0xE2, 0x80, 0xA8 :: nat]" using bytes by metis
      moreover have "json_rune u = backslash # ''u2028''" using rune ls by simp
      ultimately show ?thesis by (simp add: json_token_def backslash_def quote_def)
    next
      case ps
      then have "u = map char_of [0xE2, 0x80, 0xA9 :: nat]" using bytes by metis
      moreover have "json_rune u = backslash # ''u2029''" using rune ps by simp
      ultimately show ?thesis by (simp add: json_token_def backslash_def quote_def)
    qed
  qed
qed

text \<open>Reading tokens up to the closing quote recovers the text and what follows it.\<close>

lemma json_body_inj:
  assumes "json_body s @ quote # r = json_body t @ quote # r'" "valid_text s" "valid_text t"
  shows "s = t \<and> r = r'"
  using assms
proof (induction s arbitrary: t rule: json_body.induct)
  case 1
  show ?case
  proof (cases t)
    case (Cons c cs)
    then have "0 < rune_len t" using 1 by (simp del: json_body.simps)
    from json_rune_token [OF this, of "json_body (drop (rune_len t) t) @ quote # r'"]
    have "json_token (json_body t @ quote # r') \<noteq> None" using Cons \<open>0 < rune_len t\<close> by (simp add: Let_def)
    moreover have "json_token (quote # r) = None" by (simp add: json_token_def)
    ultimately show ?thesis using 1 by simp
  qed (use 1 in simp)
next
  case (2 c cs)
  let ?s = "c # cs"
  have n: "0 < rune_len ?s" "valid_text (drop (rune_len ?s) ?s)"
    using 2(4) by (simp_all add: drop_Cons')
  then have body: "json_body ?s = json_rune (take (rune_len ?s) ?s) @ json_body (drop (rune_len ?s) ?s)"
    by (simp add: Let_def)
  have tok: "json_token (json_body ?s @ quote # r) =
      Some (take (rune_len ?s) ?s, json_body (drop (rune_len ?s) ?s) @ quote # r)"
    unfolding body using json_rune_token [OF n(1)] by simp
  show ?case
  proof (cases t)
    case Nil
    then have "json_token (json_body t @ quote # r') = None" by (simp add: json_token_def)
    with tok 2(3) show ?thesis by simp
  next
    case (Cons d ds)
    have m: "0 < rune_len t" "valid_text (drop (rune_len t) t)"
      using 2(5) by (simp_all add: Cons drop_Cons')
    then have "json_body t = json_rune (take (rune_len t) t) @ json_body (drop (rune_len t) t)"
      by (simp add: Let_def Cons)
    then have "json_token (json_body t @ quote # r') =
        Some (take (rune_len t) t, json_body (drop (rune_len t) t) @ quote # r')"
      using json_rune_token [OF m(1)] by simp
    with tok 2(3) have eq: "take (rune_len ?s) ?s = take (rune_len t) t"
      "json_body (drop (rune_len ?s) ?s) @ quote # r = json_body (drop (rune_len t) t) @ quote # r'"
      by simp_all
    have "rune_len ?s \<noteq> 0" using n(1) by simp
    from 2(2) [OF refl this eq(2) n(2) m(2)] eq(1) show ?thesis
      by (metis append_take_drop_id)
  qed
qed

section \<open>Printed values delimit themselves\<close>

text \<open>
  \<open>delimited f V\<close>: from a printed value followed by anything, the value and the rest are
  determined, for values in \<open>V\<close>.
\<close>

definition delimited :: "('a \<Rightarrow> string) \<Rightarrow> ('a \<Rightarrow> bool) \<Rightarrow> bool" where
  "delimited f V \<longleftrightarrow> (\<forall>x y r r'. V x \<longrightarrow> V y \<longrightarrow> f x @ r = f y @ r' \<longrightarrow> x = y \<and> r = r')"

lemma delimitedD: "delimited f V \<Longrightarrow> V x \<Longrightarrow> V y \<Longrightarrow> f x @ r = f y @ r' \<Longrightarrow> x = y \<and> r = r'"
  unfolding delimited_def by blast

lemma delimited_inj: "delimited f V \<Longrightarrow> V x \<Longrightarrow> V y \<Longrightarrow> f x = f y \<Longrightarrow> x = y"
  using delimitedD [of f V x y "[]" "[]"] by blast

lemma delimited_string: "delimited json_string valid_text"
proof (unfold delimited_def, intro allI impI)
  fix x y r r' assume "valid_text x" "valid_text y" "json_string x @ r = json_string y @ r'"
  with json_body_inj [of x r y r'] show "x = y \<and> r = r'" by (simp add: json_string_def)
qed

lemma delimited_bool: "delimited json_bool (\<lambda>_. True)"
  unfolding delimited_def json_bool_def by (simp split: if_splits)

fun json_items :: "('a \<Rightarrow> string) \<Rightarrow> 'a list \<Rightarrow> string" where
  "json_items f [] = '']''"
| "json_items f (x # xs) = '','' @ f x @ json_items f xs"

lemma json_items_eq: "'','' @ join_with '','' (map f (x # xs)) @ '']'' = json_items f (x # xs)"
  by (induction xs arbitrary: x) auto

lemma json_items_inj:
  assumes "delimited f V" "\<forall>x \<in> set xs. V x" "\<forall>y \<in> set ys. V y" "json_items f xs @ r = json_items f ys @ r'"
  shows "xs = ys \<and> r = r'"
  using assms(2-4)
proof (induction xs arbitrary: ys)
  case Nil
  then show ?case by (cases ys) auto
next
  case (Cons x xs)
  then obtain y ys' where ys: "ys = y # ys'" by (cases ys) auto
  have "f x @ json_items f xs @ r = f y @ json_items f ys' @ r'" using Cons.prems(3) by (simp add: ys)
  from delimitedD [OF assms(1) _ _ this] Cons.prems(1,2)
  have "x = y" "json_items f xs @ r = json_items f ys' @ r'" by (simp_all add: ys)
  with Cons.IH [of ys'] Cons.prems(1,2) show ?case by (simp add: ys)
qed

lemma delimited_list:
  assumes "delimited f V"
  shows "delimited (json_list f) (\<lambda>xs. \<forall>x \<in> set xs. V x)"
proof (unfold delimited_def, intro allI impI)
  fix xs ys r r'
  assume V: "\<forall>x \<in> set xs. V x" "\<forall>y \<in> set ys. V y" and eq: "json_list f xs @ r = json_list f ys @ r'"
  have cons: "'','' @ tl (json_list f (z # zs)) = json_items f (z # zs)" for z zs
    using json_items_eq [of f z zs] by (simp add: json_list_def)
  show "xs = ys \<and> r = r'"
  proof (cases xs)
    case Nil
    then show ?thesis using eq by (cases ys) (simp_all add: json_list_def)
  next
    case xs: (Cons x xs')
    show ?thesis
    proof (cases ys)
      case Nil
      then show ?thesis using eq by (simp add: json_list_def xs)
    next
      case ys: (Cons y ys')
      have "tl (json_list f xs @ r) = tl (json_list f ys @ r')" using eq by (rule arg_cong)
      then have "'','' @ tl (json_list f xs) @ r = '','' @ tl (json_list f ys) @ r'"
        by (simp add: json_list_def xs ys)
      then have "json_items f xs @ r = json_items f ys @ r'"
        using cons [of x xs'] cons [of y ys'] unfolding xs ys by (metis append_assoc)
      then show ?thesis by (rule json_items_inj [OF assms V])
    qed
  qed
qed

end
