(* ===== verification/Cached_Store.thy ===== *)
theory Cached_Store
  imports Inmemory_Store Go_Json
begin

text \<open>
  The caching store (\<open>cachedstore/store.go\<close>): it answers reads from a cache keyed by the printed
  arguments, asks the wrapped store on a miss, and empties the cache after every successful write.

  The cache is the library \<open>go-cache\<close>, which is not part of the repository: its functions are the
  parameter \<open>'c go_cache\<close>, over an unknown type of cache contents, and \<open>cache_laws\<close> states what
  its documentation promises. Reads change the cache, so an operation returns the new store; the
  type assertions of the source are the partial functions \<open>cast\<close>.
\<close>

section \<open>State\<close>

datatype cached_value =
    CV_Roles "role list"
  | CV_Role role
  | CV_Assignments "role_assignment list"
  | CV_Hits "role_assignment_hit list"
  | CV_Grants "grant list"
  | CV_Strings "string list"
  | CV_PrincipalHits "principal_hit list"
  | CV_GrantPage grant_query_result

record 'c go_cache =
  gc_New :: "int \<Rightarrow> int \<Rightarrow> 'c"
  gc_Get :: "time \<Rightarrow> 'c \<Rightarrow> string \<Rightarrow> cached_value option"
  gc_Set :: "time \<Rightarrow> 'c \<Rightarrow> string \<Rightarrow> cached_value \<Rightarrow> int \<Rightarrow> 'c"
  gc_Flush :: "'c \<Rightarrow> 'c"

text \<open>A new or emptied cache holds nothing; setting a key affects only that key, and what it holds
  under it is that value, for at most the given duration.\<close>

definition cache_laws :: "'c go_cache \<Rightarrow> bool" where
  "cache_laws gc \<longleftrightarrow>
     (\<forall>d i now k. gc_Get gc now (gc_New gc d i) k = None) \<and>
     (\<forall>c now k. gc_Get gc now (gc_Flush gc c) k = None) \<and>
     (\<forall>c k v d t now k' w. 0 < d \<longrightarrow> t \<le> now \<longrightarrow> gc_Get gc now (gc_Set gc t c k v d) k' = Some w \<longrightarrow>
        (if k' = k then w = v \<and> now \<le> t + d else gc_Get gc now c k' = Some w))"

record ('s, 'c) cached_store =
  cs_ops :: "'s store_ops"
  cs_base :: 's
  cs_cache :: 'c
  cs_ttl :: int

definition DefaultTTL :: int where
  "DefaultTTL = 60 * 1000000000"

definition NewStoreWithTTL :: "'c go_cache \<Rightarrow> 's store_ops \<Rightarrow> 's \<Rightarrow> int \<Rightarrow> ('s, 'c) cached_store" where
  "NewStoreWithTTL gc ops base ttl0 =
     (let ttl = (if ttl0 \<le> 0 then DefaultTTL else ttl0)
      in \<lparr>cs_ops = ops, cs_base = base, cs_cache = gc_New gc ttl ttl, cs_ttl = ttl\<rparr>)"

definition cached_NewStore :: "'c go_cache \<Rightarrow> 's store_ops \<Rightarrow> 's \<Rightarrow> ('s, 'c) cached_store" where
  "cached_NewStore gc ops base = NewStoreWithTTL gc ops base DefaultTTL"

definition InvalidateAll :: "'c go_cache \<Rightarrow> ('s, 'c) cached_store \<Rightarrow> ('s, 'c) cached_store" where
  "InvalidateAll gc s = s\<lparr>cs_cache := gc_Flush gc (cs_cache s)\<rparr>"

definition setWithTTL :: "'c go_cache \<Rightarrow> time \<Rightarrow> string \<Rightarrow> cached_value \<Rightarrow> ('s, 'c) cached_store \<Rightarrow> ('s, 'c) cached_store" where
  "setWithTTL gc now key value s = s\<lparr>cs_cache := gc_Set gc now (cs_cache s) key value (cs_ttl s)\<rparr>"

section \<open>Copies\<close>

text \<open>The copy of a nil map is an empty map, so a grant without variables gets an empty \<open>VariableSpec\<close>.\<close>

definition cached_cloneMap :: "('k, 'v) gomap option \<Rightarrow> ('k, 'v) gomap" where
  "cached_cloneMap m = (case m of None \<Rightarrow> [] | Some vs \<Rightarrow> if vs = [] then [] else copy_map vs)"

definition cached_cloneGrant :: "grant \<Rightarrow> grant" where
  "cached_cloneGrant g = g\<lparr>gr_ObjectScope := gr_ObjectScope g, gr_ExpiresAt := gr_ExpiresAt g,
     gr_RestrictedFields := gr_RestrictedFields g, gr_VariableSpec := Some (cached_cloneMap (gr_VariableSpec g))\<rparr>"

definition cloneGrants :: "grant list \<Rightarrow> grant list" where
  "cloneGrants values = map cached_cloneGrant values"

definition cloneRoleAssignments :: "role_assignment list \<Rightarrow> role_assignment list" where
  "cloneRoleAssignments values = map (\<lambda>a. \<lparr>ra_RoleID = ra_RoleID a,
     ra_BindingValues = cached_cloneMap (Some (ra_BindingValues a))\<rparr>) values"

definition cloneRoleAssignmentHits :: "role_assignment_hit list \<Rightarrow> role_assignment_hit list" where
  "cloneRoleAssignmentHits values = map (\<lambda>a. \<lparr>rh_RoleID = rh_RoleID a,
     rh_BindingValues = cached_cloneMap (Some (rh_BindingValues a)), rh_Principal = rh_Principal a\<rparr>) values"

definition clonePrincipalHits :: "principal_hit list \<Rightarrow> principal_hit list" where
  "clonePrincipalHits values = map (\<lambda>h. h\<lparr>ph_ObjectScope := ph_ObjectScope h\<rparr>) values"

definition clonePage :: "grant_query_result \<Rightarrow> grant_query_result" where
  "clonePage v = v\<lparr>qr_Grants := cloneGrants (qr_Grants v)\<rparr>"

section \<open>Keys\<close>

definition makeKey :: "string \<Rightarrow> string \<Rightarrow> string" where
  "makeKey name encoded = name @ '':'' @ encoded"

definition json_principal :: "principal_ref \<Rightarrow> string" where
  "json_principal p = json_object [(''Kind'', json_string (pr_Kind p)), (''ID'', json_string (pr_ID p))]"

definition json_request :: "request \<Rightarrow> string" where
  "json_request r = json_object [(''UserID'', json_string (rq_UserID r)), (''TeamID'', json_string (rq_TeamID r)),
     (''Object'', json_string (rq_Object r)), (''Perm'', json_string (rq_Perm r))]"

definition json_grant_query :: "grant_query \<Rightarrow> string" where
  "json_grant_query q = json_object [(''Principals'', json_list json_principal (gq_Principals q)),
     (''TeamScopes'', json_list json_string (gq_TeamScopes q)),
     (''ObjectScopes'', json_list json_string (gq_ObjectScopes q)),
     (''Permissions'', json_list json_string (gq_Permissions q)),
     (''PermissionPrefix'', json_string (gq_PermissionPrefix q)),
     (''IncludeEffective'', json_bool (gq_IncludeEffective q)),
     (''Limit'', Itoa (gq_Limit q)), (''Cursor'', json_string (gq_Cursor q))]"

datatype cache_query =
    QRoleDefinitions
  | QRoleDefinition string
  | QAssignmentsForPrincipal principal_ref
  | QAssignmentsForRoleID string
  | QGrantsForPrincipal principal_ref
  | QExpandRoles "string list"
  | QGrantsForOwners "principal_ref list" request
  | QPrincipalsWithGrant request
  | QListGrants grant_query

fun cache_key :: "cache_query \<Rightarrow> string" where
  "cache_key QRoleDefinitions = ''role-definitions''"
| "cache_key (QRoleDefinition roleID) = makeKey ''role-definition'' (json_object [(''role_id'', json_string roleID)])"
| "cache_key (QAssignmentsForPrincipal p) =
     makeKey ''role-assignments-for-principal'' (json_object [(''principal'', json_principal p)])"
| "cache_key (QAssignmentsForRoleID roleID) = makeKey ''role-assignments-for-role-id'' (json_string roleID)"
| "cache_key (QGrantsForPrincipal p) = makeKey ''grants-for-principal'' (json_object [(''principal'', json_principal p)])"
| "cache_key (QExpandRoles roleIDs) = makeKey ''expand-roles'' (json_object [(''roles'', json_list json_string roleIDs)])"
| "cache_key (QGrantsForOwners owners req) = makeKey ''grants-for-owners''
     (json_object [(''owners'', json_list json_principal owners), (''request'', json_request req)])"
| "cache_key (QPrincipalsWithGrant req) = makeKey ''principals-with-grant'' (json_object [(''request'', json_request req)])"
| "cache_key (QListGrants query) = makeKey ''list-grants'' (json_object [(''query'', json_grant_query query)])"

section \<open>Reads\<close>

text \<open>What every read does: a hit of the right type is copied; otherwise the base store is asked, and
  a copy of its answer is stored. The two halves of a miss are separate steps of the source.\<close>

definition cached_hit ::
  "'c go_cache \<Rightarrow> time \<Rightarrow> string \<Rightarrow> (cached_value \<Rightarrow> 'a option) \<Rightarrow> ('s, 'c) cached_store \<Rightarrow> 'a option" where
  "cached_hit gc now key cast s =
     (case gc_Get gc now (cs_cache s) key of None \<Rightarrow> None | Some cachedValue \<Rightarrow> cast cachedValue)"

definition cached_read ::
  "'c go_cache \<Rightarrow> time \<Rightarrow> string \<Rightarrow> (cached_value \<Rightarrow> 'a option) \<Rightarrow> ('a \<Rightarrow> cached_value) \<Rightarrow> ('a \<Rightarrow> 'a) \<Rightarrow>
   ('s \<Rightarrow> 'a result) \<Rightarrow> ('s, 'c) cached_store \<Rightarrow> 'a result \<times> ('s, 'c) cached_store" where
  "cached_read gc now key cast inject clone base_read s =
     (case cached_hit gc now key cast s of
        Some v \<Rightarrow> (Inr (clone v), s)
      | None \<Rightarrow>
          (case base_read (cs_base s) of
             Inl e \<Rightarrow> (Inl e, s)
           | Inr value \<Rightarrow>
               (let cloned = clone value in (Inr (clone cloned), setWithTTL gc now key (inject cloned) s))))"

definition cached_RoleDefinitions ::
  "'c go_cache \<Rightarrow> time \<Rightarrow> ('s, 'c) cached_store \<Rightarrow> role list result \<times> ('s, 'c) cached_store" where
  "cached_RoleDefinitions gc now s = cached_read gc now (cache_key QRoleDefinitions)
     (\<lambda>v. case v of CV_Roles x \<Rightarrow> Some x | _ \<Rightarrow> None) CV_Roles (\<lambda>x. x) (op_RoleDefinitions (cs_ops s)) s"

definition cached_RoleDefinition ::
  "'c go_cache \<Rightarrow> time \<Rightarrow> ('s, 'c) cached_store \<Rightarrow> string \<Rightarrow> role result \<times> ('s, 'c) cached_store" where
  "cached_RoleDefinition gc now s roleID = cached_read gc now (cache_key (QRoleDefinition roleID))
     (\<lambda>v. case v of CV_Role x \<Rightarrow> Some x | _ \<Rightarrow> None) CV_Role (\<lambda>x. x)
     (\<lambda>b. op_RoleDefinition (cs_ops s) b roleID) s"

definition cached_RoleAssignmentsForPrincipal ::
  "'c go_cache \<Rightarrow> time \<Rightarrow> ('s, 'c) cached_store \<Rightarrow> principal_ref \<Rightarrow> role_assignment list result \<times> ('s, 'c) cached_store" where
  "cached_RoleAssignmentsForPrincipal gc now s p = cached_read gc now (cache_key (QAssignmentsForPrincipal p))
     (\<lambda>v. case v of CV_Assignments x \<Rightarrow> Some x | _ \<Rightarrow> None) CV_Assignments cloneRoleAssignments
     (\<lambda>b. op_RoleAssignmentsForPrincipal (cs_ops s) b p) s"

definition cached_RoleAssignmentsForRoleID ::
  "'c go_cache \<Rightarrow> time \<Rightarrow> ('s, 'c) cached_store \<Rightarrow> string \<Rightarrow> role_assignment_hit list result \<times> ('s, 'c) cached_store" where
  "cached_RoleAssignmentsForRoleID gc now s roleID = cached_read gc now (cache_key (QAssignmentsForRoleID roleID))
     (\<lambda>v. case v of CV_Hits x \<Rightarrow> Some x | _ \<Rightarrow> None) CV_Hits cloneRoleAssignmentHits
     (\<lambda>b. op_RoleAssignmentsForRoleID (cs_ops s) b roleID) s"

definition cached_GrantsForPrincipal ::
  "'c go_cache \<Rightarrow> time \<Rightarrow> ('s, 'c) cached_store \<Rightarrow> principal_ref \<Rightarrow> grant list result \<times> ('s, 'c) cached_store" where
  "cached_GrantsForPrincipal gc now s p = cached_read gc now (cache_key (QGrantsForPrincipal p))
     (\<lambda>v. case v of CV_Grants x \<Rightarrow> Some x | _ \<Rightarrow> None) CV_Grants cloneGrants
     (\<lambda>b. op_GrantsForPrincipal (cs_ops s) now b p) s"

definition cached_ExpandRoles ::
  "'c go_cache \<Rightarrow> time \<Rightarrow> ('s, 'c) cached_store \<Rightarrow> string list \<Rightarrow> string list result \<times> ('s, 'c) cached_store" where
  "cached_ExpandRoles gc now s roleIDs = cached_read gc now (cache_key (QExpandRoles roleIDs))
     (\<lambda>v. case v of CV_Strings x \<Rightarrow> Some x | _ \<Rightarrow> None) CV_Strings (\<lambda>x. x)
     (\<lambda>b. op_ExpandRoles (cs_ops s) b roleIDs) s"

definition cached_GrantsForOwners ::
  "'c go_cache \<Rightarrow> time \<Rightarrow> ('s, 'c) cached_store \<Rightarrow> principal_ref list \<Rightarrow> request \<Rightarrow> grant list result \<times> ('s, 'c) cached_store" where
  "cached_GrantsForOwners gc now s owners req = cached_read gc now (cache_key (QGrantsForOwners owners req))
     (\<lambda>v. case v of CV_Grants x \<Rightarrow> Some x | _ \<Rightarrow> None) CV_Grants cloneGrants
     (\<lambda>b. op_GrantsForOwners (cs_ops s) now b owners req) s"

definition cached_PrincipalsWithGrant ::
  "'c go_cache \<Rightarrow> time \<Rightarrow> ('s, 'c) cached_store \<Rightarrow> request \<Rightarrow> principal_hit list result \<times> ('s, 'c) cached_store" where
  "cached_PrincipalsWithGrant gc now s req = cached_read gc now (cache_key (QPrincipalsWithGrant req))
     (\<lambda>v. case v of CV_PrincipalHits x \<Rightarrow> Some x | _ \<Rightarrow> None) CV_PrincipalHits clonePrincipalHits
     (\<lambda>b. op_PrincipalsWithGrant (cs_ops s) now b req) s"

definition cached_ListGrants ::
  "'c go_cache \<Rightarrow> time \<Rightarrow> ('s, 'c) cached_store \<Rightarrow> grant_query \<Rightarrow> grant_query_result result \<times> ('s, 'c) cached_store" where
  "cached_ListGrants gc now s query = cached_read gc now (cache_key (QListGrants query))
     (\<lambda>v. case v of CV_GrantPage x \<Rightarrow> Some x | _ \<Rightarrow> None) CV_GrantPage clonePage
     (\<lambda>b. op_ListGrants (cs_ops s) b query) s"

text \<open>The disabled roles are the one read that is not cached.\<close>

definition cached_DisabledBuiltInRoles :: "('s, 'c) cached_store \<Rightarrow> string list result" where
  "cached_DisabledBuiltInRoles s = op_DisabledBuiltInRoles (cs_ops s) (cs_base s)"

section \<open>Writes\<close>

definition cached_write ::
  "'c go_cache \<Rightarrow> ('s \<Rightarrow> 's update) \<Rightarrow> ('s, 'c) cached_store \<Rightarrow> ('s, 'c) cached_store update" where
  "cached_write gc base_write s =
     (case base_write (cs_base s) of
        (Some e, b) \<Rightarrow> (Some e, s\<lparr>cs_base := b\<rparr>)
      | (None, b) \<Rightarrow> (None, InvalidateAll gc (s\<lparr>cs_base := b\<rparr>)))"

definition cached_CreateGrant :: "'c go_cache \<Rightarrow> ('s, 'c) cached_store \<Rightarrow> grant \<Rightarrow> ('s, 'c) cached_store update" where
  "cached_CreateGrant gc s g = cached_write gc (\<lambda>b. op_CreateGrant (cs_ops s) b g) s"

definition cached_AssignRole ::
  "'c go_cache \<Rightarrow> ('s, 'c) cached_store \<Rightarrow> principal_ref \<Rightarrow> string \<Rightarrow> role list \<Rightarrow> bindings \<Rightarrow> ('s, 'c) cached_store update" where
  "cached_AssignRole gc s p roleID builtIns bindingValues =
     cached_write gc (\<lambda>b. op_AssignRole (cs_ops s) b p roleID builtIns (cached_cloneMap (Some bindingValues))) s"

definition cached_UnassignRole ::
  "'c go_cache \<Rightarrow> ('s, 'c) cached_store \<Rightarrow> principal_ref \<Rightarrow> string \<Rightarrow> role list \<Rightarrow> bindings \<Rightarrow> ('s, 'c) cached_store update" where
  "cached_UnassignRole gc s p roleID builtIns bindingValues =
     cached_write gc (\<lambda>b. op_UnassignRole (cs_ops s) b p roleID builtIns bindingValues) s"

definition cached_CreateRole :: "'c go_cache \<Rightarrow> ('s, 'c) cached_store \<Rightarrow> role \<Rightarrow> ('s, 'c) cached_store update" where
  "cached_CreateRole gc s role = cached_write gc (\<lambda>b. op_CreateRole (cs_ops s) b role) s"

definition cached_UpdateRole :: "'c go_cache \<Rightarrow> ('s, 'c) cached_store \<Rightarrow> role \<Rightarrow> ('s, 'c) cached_store update" where
  "cached_UpdateRole gc s role = cached_write gc (\<lambda>b. op_UpdateRole (cs_ops s) b role) s"

definition cached_DeleteRole :: "'c go_cache \<Rightarrow> ('s, 'c) cached_store \<Rightarrow> string \<Rightarrow> ('s, 'c) cached_store update" where
  "cached_DeleteRole gc s roleID = cached_write gc (\<lambda>b. op_DeleteRole (cs_ops s) b roleID) s"

definition cached_AddRoleInheritance ::
  "'c go_cache \<Rightarrow> ('s, 'c) cached_store \<Rightarrow> string \<Rightarrow> string \<Rightarrow> ('s, 'c) cached_store update" where
  "cached_AddRoleInheritance gc s parent child =
     cached_write gc (\<lambda>b. op_AddRoleInheritance (cs_ops s) b parent child) s"

definition cached_DeleteGrantsForOwner ::
  "'c go_cache \<Rightarrow> ('s, 'c) cached_store \<Rightarrow> principal_kind \<Rightarrow> string \<Rightarrow> ('s, 'c) cached_store update" where
  "cached_DeleteGrantsForOwner gc s ownerKind ownerID =
     cached_write gc (\<lambda>b. op_DeleteGrantsForOwner (cs_ops s) b ownerKind ownerID) s"

definition cached_DisableBuiltInRole ::
  "'c go_cache \<Rightarrow> ('s, 'c) cached_store \<Rightarrow> string \<Rightarrow> ('s, 'c) cached_store update" where
  "cached_DisableBuiltInRole gc s roleID = cached_write gc (\<lambda>b. op_DisableBuiltInRole (cs_ops s) b roleID) s"

definition cached_EnableBuiltInRole ::
  "'c go_cache \<Rightarrow> ('s, 'c) cached_store \<Rightarrow> string \<Rightarrow> ('s, 'c) cached_store update" where
  "cached_EnableBuiltInRole gc s roleID = cached_write gc (\<lambda>b. op_EnableBuiltInRole (cs_ops s) b roleID) s"

section \<open>Keys do not collide\<close>

text \<open>Queries whose texts are valid UTF-8, so that they print unchanged.\<close>

definition valid_principal_text :: "principal_ref \<Rightarrow> bool" where
  "valid_principal_text p \<longleftrightarrow> valid_text (pr_Kind p) \<and> valid_text (pr_ID p)"

definition valid_request_text :: "request \<Rightarrow> bool" where
  "valid_request_text r \<longleftrightarrow> valid_text (rq_UserID r) \<and> valid_text (rq_TeamID r) \<and> valid_text (rq_Object r) \<and>
     valid_text (rq_Perm r)"

definition valid_grant_query :: "grant_query \<Rightarrow> bool" where
  "valid_grant_query q \<longleftrightarrow> (\<forall>p \<in> set (gq_Principals q). valid_principal_text p) \<and>
     (\<forall>t \<in> set (gq_TeamScopes q). valid_text t) \<and> (\<forall>t \<in> set (gq_ObjectScopes q). valid_text t) \<and>
     (\<forall>t \<in> set (gq_Permissions q). valid_text t) \<and> valid_text (gq_PermissionPrefix q) \<and>
     in_int64 (gq_Limit q) \<and> valid_text (gq_Cursor q)"

fun valid_query :: "cache_query \<Rightarrow> bool" where
  "valid_query QRoleDefinitions = True"
| "valid_query (QRoleDefinition r) = valid_text r"
| "valid_query (QAssignmentsForPrincipal p) = valid_principal_text p"
| "valid_query (QAssignmentsForRoleID r) = valid_text r"
| "valid_query (QGrantsForPrincipal p) = valid_principal_text p"
| "valid_query (QExpandRoles rs) = (\<forall>r \<in> set rs. valid_text r)"
| "valid_query (QGrantsForOwners owners req) = ((\<forall>p \<in> set owners. valid_principal_text p) \<and> valid_request_text req)"
| "valid_query (QPrincipalsWithGrant req) = valid_request_text req"
| "valid_query (QListGrants q) = valid_grant_query q"

lemmas text_step = delimitedD [OF delimited_string]

lemma delimited_principal: "delimited json_principal valid_principal_text"
proof (unfold delimited_def, intro allI impI)
  fix p q r r' assume valid: "valid_principal_text p" "valid_principal_text q"
    and eq: "json_principal p @ r = json_principal q @ r'"
  from eq have "json_string (pr_Kind p) @ '','' @ json_string ''ID'' @ '':'' @ json_string (pr_ID p) @ ''}'' @ r =
      json_string (pr_Kind q) @ '','' @ json_string ''ID'' @ '':'' @ json_string (pr_ID q) @ ''}'' @ r'"
    by (simp add: json_principal_def json_object_def)
  from text_step [OF _ _ this] valid have "pr_Kind p = pr_Kind q"
    and "json_string (pr_ID p) @ ''}'' @ r = json_string (pr_ID q) @ ''}'' @ r'"
    by (simp_all add: valid_principal_text_def)
  moreover from text_step [OF _ _ this(2)] valid have "pr_ID p = pr_ID q" "r = r'"
    by (simp_all add: valid_principal_text_def)
  ultimately show "p = q \<and> r = r'" by simp
qed

lemma delimited_request: "delimited json_request valid_request_text"
proof (unfold delimited_def, intro allI impI)
  fix p q r r' assume valid: "valid_request_text p" "valid_request_text q"
    and eq: "json_request p @ r = json_request q @ r'"
  let ?obj = "\<lambda>q r. json_string (rq_Object q) @ '','' @ json_string ''Perm'' @ '':'' @ json_string (rq_Perm q) @ ''}'' @ r"
  let ?team = "\<lambda>q r. json_string (rq_TeamID q) @ '','' @ json_string ''Object'' @ '':'' @ ?obj q r"
  from eq have "json_string (rq_UserID p) @ '','' @ json_string ''TeamID'' @ '':'' @ ?team p r =
      json_string (rq_UserID q) @ '','' @ json_string ''TeamID'' @ '':'' @ ?team q r'"
    by (simp add: json_request_def json_object_def)
  from text_step [OF _ _ this] valid have user: "rq_UserID p = rq_UserID q" and "?team p r = ?team q r'"
    by (simp_all add: valid_request_text_def)
  from text_step [OF _ _ this(2)] valid have team: "rq_TeamID p = rq_TeamID q" and "?obj p r = ?obj q r'"
    by (simp_all add: valid_request_text_def)
  from text_step [OF _ _ this(2)] valid have obj: "rq_Object p = rq_Object q"
    and "json_string (rq_Perm p) @ ''}'' @ r = json_string (rq_Perm q) @ ''}'' @ r'"
    by (simp_all add: valid_request_text_def)
  from text_step [OF _ _ this(2)] valid have "rq_Perm p = rq_Perm q" "r = r'"
    by (simp_all add: valid_request_text_def)
  with user team obj show "p = q \<and> r = r'" by simp
qed

lemmas principals_step = delimitedD [OF delimited_list [OF delimited_principal]]
lemmas texts_step = delimitedD [OF delimited_list [OF delimited_string]]
lemmas request_step = delimitedD [OF delimited_request]
lemmas bool_step = delimitedD [OF delimited_bool TrueI TrueI]

text \<open>A number is delimited by the comma after it.\<close>

lemma nat_digits_no_comma: "CHR '','' \<notin> set (nat_digits n)"
proof (induction n rule: nat_digits.induct)
  case (1 n)
  have "char_of (48 + d :: nat) \<noteq> CHR '',''" if "d < 10" for d
  proof -
    have "take_bit 8 (48 + d) = 48 + d" using that by (simp add: take_bit_nat_eq_self)
    then show ?thesis by (auto simp: char_of_eq_iff)
  qed
  with 1 show ?case by (cases "n < 10") (auto simp: nat_digits.simps [of n] eq_commute [of "CHR '',''"])
qed

lemma int_step:
  assumes "Itoa m @ '','' @ r = Itoa n @ '','' @ r'" "in_int64 m" "in_int64 n"
  shows "m = n \<and> r = r'"
proof -
  have "CHR '','' \<notin> set (Itoa k)" for k by (simp add: Itoa_def nat_digits_no_comma)
  then have "c \<noteq> CHR '',''" if "c \<in> set (Itoa k)" for c k using that by metis
  then have digits: "takeWhile (\<lambda>c. c \<noteq> CHR '','') (Itoa k @ '','' @ s) = Itoa k" for k s
    by (simp add: takeWhile_append2)
  from arg_cong [OF assms(1), of "takeWhile (\<lambda>c. c \<noteq> CHR '','')"] have same: "Itoa m = Itoa n"
    by (simp only: digits)
  then have "Some m = Some n" using Atoi_Itoa [OF assms(2)] Atoi_Itoa [OF assms(3)] by (simp only: same)
  moreover have "r = r'" using assms(1) unfolding same by simp
  ultimately show ?thesis by blast
qed

lemma delimited_grant_query: "delimited json_grant_query valid_grant_query"
proof (unfold delimited_def, intro allI impI)
  fix p q r r' assume valid: "valid_grant_query p" "valid_grant_query q"
    and eq: "json_grant_query p @ r = json_grant_query q @ r'"
  define field where "field n = '','' @ json_string n @ '':''" for n
  let ?cur = "\<lambda>q r. json_string ''Cursor'' @ '':'' @ json_string (gq_Cursor q) @ ''}'' @ r"
  let ?lim = "\<lambda>q r. Itoa (gq_Limit q) @ '','' @ ?cur q r"
  let ?inc = "\<lambda>q r. json_bool (gq_IncludeEffective q) @ field ''Limit'' @ ?lim q r"
  let ?pre = "\<lambda>q r. json_string (gq_PermissionPrefix q) @ field ''IncludeEffective'' @ ?inc q r"
  let ?per = "\<lambda>q r. json_list json_string (gq_Permissions q) @ field ''PermissionPrefix'' @ ?pre q r"
  let ?obj = "\<lambda>q r. json_list json_string (gq_ObjectScopes q) @ field ''Permissions'' @ ?per q r"
  let ?team = "\<lambda>q r. json_list json_string (gq_TeamScopes q) @ field ''ObjectScopes'' @ ?obj q r"
  from eq have "json_list json_principal (gq_Principals p) @ field ''TeamScopes'' @ ?team p r =
      json_list json_principal (gq_Principals q) @ field ''TeamScopes'' @ ?team q r'"
    by (simp add: json_grant_query_def json_object_def field_def)
  from principals_step [OF _ _ this] valid have 1: "gq_Principals p = gq_Principals q" and "?team p r = ?team q r'"
    by (simp_all add: valid_grant_query_def)
  from texts_step [OF _ _ this(2)] valid have 2: "gq_TeamScopes p = gq_TeamScopes q" and "?obj p r = ?obj q r'"
    by (simp_all add: valid_grant_query_def)
  from texts_step [OF _ _ this(2)] valid have 3: "gq_ObjectScopes p = gq_ObjectScopes q" and "?per p r = ?per q r'"
    by (simp_all add: valid_grant_query_def)
  from texts_step [OF _ _ this(2)] valid have 4: "gq_Permissions p = gq_Permissions q" and "?pre p r = ?pre q r'"
    by (simp_all add: valid_grant_query_def)
  from text_step [OF _ _ this(2)] valid have 5: "gq_PermissionPrefix p = gq_PermissionPrefix q" and "?inc p r = ?inc q r'"
    by (simp_all add: valid_grant_query_def)
  from bool_step [OF this(2)] have 6: "gq_IncludeEffective p = gq_IncludeEffective q" and "?lim p r = ?lim q r'"
    by simp_all
  from int_step [OF this(2)] valid have 7: "gq_Limit p = gq_Limit q" and "?cur p r = ?cur q r'"
    by (simp_all add: valid_grant_query_def)
  then have "json_string (gq_Cursor p) @ ''}'' @ r = json_string (gq_Cursor q) @ ''}'' @ r'" by simp
  from text_step [OF _ _ this] valid have "gq_Cursor p = gq_Cursor q" "r = r'"
    by (simp_all add: valid_grant_query_def)
  with 1 2 3 4 5 6 7 show "p = q \<and> r = r'" by simp
qed

definition query_name :: "cache_query \<Rightarrow> string" where
  "query_name q = takeWhile (\<lambda>c. c \<noteq> CHR '':'') (cache_key q)"

lemma query_name_simps [simp]:
  "query_name QRoleDefinitions = ''role-definitions''"
  "query_name (QRoleDefinition r) = ''role-definition''"
  "query_name (QAssignmentsForPrincipal p) = ''role-assignments-for-principal''"
  "query_name (QAssignmentsForRoleID r) = ''role-assignments-for-role-id''"
  "query_name (QGrantsForPrincipal p) = ''grants-for-principal''"
  "query_name (QExpandRoles rs) = ''expand-roles''"
  "query_name (QGrantsForOwners owners req) = ''grants-for-owners''"
  "query_name (QPrincipalsWithGrant req) = ''principals-with-grant''"
  "query_name (QListGrants gq) = ''list-grants''"
  by (simp_all add: query_name_def makeKey_def)

lemma cache_key_inj:
  assumes "cache_key q = cache_key q'" "valid_query q" "valid_query q'"
  shows "q = q'"
proof -
  have name: "query_name q = query_name q'" using assms(1) by (simp add: query_name_def)
  show ?thesis
  proof (cases q)
    case QRoleDefinitions
    with name show ?thesis by (cases q') simp_all
  next
    case (QRoleDefinition r)
    with name obtain r' where q': "q' = QRoleDefinition r'" by (cases q') simp_all
    have "json_string r @ ''}'' = json_string r' @ ''}''"
      using assms(1) by (simp add: QRoleDefinition q' makeKey_def json_object_def)
    from text_step [OF _ _ this] assms show ?thesis by (simp add: QRoleDefinition q')
  next
    case (QAssignmentsForPrincipal p)
    with name obtain p' where q': "q' = QAssignmentsForPrincipal p'" by (cases q') simp_all
    have "json_principal p @ ''}'' = json_principal p' @ ''}''"
      using assms(1) by (simp add: QAssignmentsForPrincipal q' makeKey_def json_object_def)
    from delimitedD [OF delimited_principal _ _ this] assms show ?thesis by (simp add: QAssignmentsForPrincipal q')
  next
    case (QAssignmentsForRoleID r)
    with name obtain r' where q': "q' = QAssignmentsForRoleID r'" by (cases q') simp_all
    have "json_string r @ [] = json_string r' @ []"
      using assms(1) by (simp add: QAssignmentsForRoleID q' makeKey_def)
    from text_step [OF _ _ this] assms show ?thesis by (simp add: QAssignmentsForRoleID q')
  next
    case (QGrantsForPrincipal p)
    with name obtain p' where q': "q' = QGrantsForPrincipal p'" by (cases q') simp_all
    have "json_principal p @ ''}'' = json_principal p' @ ''}''"
      using assms(1) by (simp add: QGrantsForPrincipal q' makeKey_def json_object_def)
    from delimitedD [OF delimited_principal _ _ this] assms show ?thesis by (simp add: QGrantsForPrincipal q')
  next
    case (QExpandRoles rs)
    with name obtain rs' where q': "q' = QExpandRoles rs'" by (cases q') simp_all
    have "json_list json_string rs @ ''}'' = json_list json_string rs' @ ''}''"
      using assms(1) by (simp add: QExpandRoles q' makeKey_def json_object_def)
    from texts_step [OF _ _ this] assms show ?thesis by (simp add: QExpandRoles q')
  next
    case (QGrantsForOwners owners req)
    with name obtain owners' req' where q': "q' = QGrantsForOwners owners' req'" by (cases q') simp_all
    have "json_list json_principal owners @ '','' @ json_string ''request'' @ '':'' @ json_request req @ ''}'' =
        json_list json_principal owners' @ '','' @ json_string ''request'' @ '':'' @ json_request req' @ ''}''"
      using assms(1) by (simp add: QGrantsForOwners q' makeKey_def json_object_def)
    from principals_step [OF _ _ this] assms have "owners = owners'"
      and "json_request req @ ''}'' = json_request req' @ ''}''" by (simp_all add: QGrantsForOwners q')
    with request_step [OF _ _ this(2)] assms show ?thesis by (simp add: QGrantsForOwners q')
  next
    case (QPrincipalsWithGrant req)
    with name obtain req' where q': "q' = QPrincipalsWithGrant req'" by (cases q') simp_all
    have "json_request req @ ''}'' = json_request req' @ ''}''"
      using assms(1) by (simp add: QPrincipalsWithGrant q' makeKey_def json_object_def)
    from request_step [OF _ _ this] assms show ?thesis by (simp add: QPrincipalsWithGrant q')
  next
    case (QListGrants gq)
    with name obtain gq' where q': "q' = QListGrants gq'" by (cases q') simp_all
    have "json_grant_query gq @ ''}'' = json_grant_query gq' @ ''}''"
      using assms(1) by (simp add: QListGrants q' makeKey_def json_object_def)
    from delimitedD [OF delimited_grant_query _ _ this] assms show ?thesis by (simp add: QListGrants q')
  qed
qed

section \<open>Coherence\<close>

text \<open>What the wrapped store answers at a time, in the form in which it is cached.\<close>

definition answer_of :: "('a \<Rightarrow> cached_value) \<Rightarrow> 'a result \<Rightarrow> cached_value result" where
  "answer_of f r = attempt r (\<lambda>x. Inr (f x))"

fun base_answer :: "'s store_ops \<Rightarrow> 's \<Rightarrow> time \<Rightarrow> cache_query \<Rightarrow> cached_value result" where
  "base_answer ops b t QRoleDefinitions = answer_of CV_Roles (op_RoleDefinitions ops b)"
| "base_answer ops b t (QRoleDefinition r) = answer_of CV_Role (op_RoleDefinition ops b r)"
| "base_answer ops b t (QAssignmentsForPrincipal p) =
     answer_of (CV_Assignments \<circ> cloneRoleAssignments) (op_RoleAssignmentsForPrincipal ops b p)"
| "base_answer ops b t (QAssignmentsForRoleID r) =
     answer_of (CV_Hits \<circ> cloneRoleAssignmentHits) (op_RoleAssignmentsForRoleID ops b r)"
| "base_answer ops b t (QGrantsForPrincipal p) = answer_of (CV_Grants \<circ> cloneGrants) (op_GrantsForPrincipal ops t b p)"
| "base_answer ops b t (QExpandRoles rs) = answer_of CV_Strings (op_ExpandRoles ops b rs)"
| "base_answer ops b t (QGrantsForOwners owners req) =
     answer_of (CV_Grants \<circ> cloneGrants) (op_GrantsForOwners ops t b owners req)"
| "base_answer ops b t (QPrincipalsWithGrant req) =
     answer_of (CV_PrincipalHits \<circ> clonePrincipalHits) (op_PrincipalsWithGrant ops t b req)"
| "base_answer ops b t (QListGrants q) = answer_of (CV_GrantPage \<circ> clonePage) (op_ListGrants ops b q)"

text \<open>Everything the cache can still return after \<open>t0\<close> is an answer of the present base store, given
  at most the time to live before.\<close>

definition coherent :: "'c go_cache \<Rightarrow> time \<Rightarrow> ('s, 'c) cached_store \<Rightarrow> bool" where
  "coherent gc t0 s \<longleftrightarrow> 0 < cs_ttl s \<and> (\<forall>q now cv. valid_query q \<longrightarrow> t0 \<le> now \<longrightarrow>
     gc_Get gc now (cs_cache s) (cache_key q) = Some cv \<longrightarrow>
     (\<exists>t \<le> t0. now \<le> t + cs_ttl s \<and> base_answer (cs_ops s) (cs_base s) t q = Inr cv))"

lemma coherentD:
  assumes "coherent gc t0 s" "valid_query q" "t0 \<le> now" "gc_Get gc now (cs_cache s) (cache_key q) = Some cv"
  shows "\<exists>t \<le> t0. now \<le> t + cs_ttl s \<and> base_answer (cs_ops s) (cs_base s) t q = Inr cv"
  using assms unfolding coherent_def by blast

lemma coherent_later: "coherent gc t0 s \<Longrightarrow> t0 \<le> t1 \<Longrightarrow> coherent gc t1 s"
  unfolding coherent_def by (meson order_trans)

lemma coherent_empty:
  assumes "\<And>now k. gc_Get gc now (cs_cache s) k = None" "0 < cs_ttl s"
  shows "coherent gc t0 s"
  using assms by (simp add: coherent_def)

lemma coherent_New: "cache_laws gc \<Longrightarrow> coherent gc t0 (NewStoreWithTTL gc ops base ttl)"
  by (rule coherent_empty) (simp_all add: NewStoreWithTTL_def Let_def cache_laws_def DefaultTTL_def)

lemma cache_laws_set:
  assumes "cache_laws gc" "0 < d" "t \<le> now" "gc_Get gc now (gc_Set gc t c k v d) k' = Some w"
  shows "if k' = k then w = v \<and> now \<le> t + d else gc_Get gc now c k' = Some w"
  using assms unfolding cache_laws_def by blast

lemma coherent_set:
  assumes laws: "cache_laws gc" and coh: "coherent gc t0 s" and now: "t0 \<le> now"
    and q: "valid_query q" "base_answer (cs_ops s) (cs_base s) now q = Inr v"
  shows "coherent gc now (setWithTTL gc now (cache_key q) v s)"
  unfolding coherent_def
proof (intro conjI allI impI)
  have ttl: "0 < cs_ttl s" using coh by (simp add: coherent_def)
  then show "0 < cs_ttl (setWithTTL gc now (cache_key q) v s)" by (simp add: setWithTTL_def)
  fix q' later cv
  assume q': "valid_query q'" and later: "now \<le> later"
    and get: "gc_Get gc later (cs_cache (setWithTTL gc now (cache_key q) v s)) (cache_key q') = Some cv"
  have "gc_Get gc later (gc_Set gc now (cs_cache s) (cache_key q) v (cs_ttl s)) (cache_key q') = Some cv"
    using get by (simp add: setWithTTL_def)
  note law = cache_laws_set [OF laws ttl later this]
  have "\<exists>t \<le> now. later \<le> t + cs_ttl s \<and> base_answer (cs_ops s) (cs_base s) t q' = Inr cv"
  proof (cases "cache_key q' = cache_key q")
    case True
    then have "q' = q" using cache_key_inj q' q(1) by blast
    with law True q(2) show ?thesis by (intro exI [of _ now]) simp
  next
    case False
    with law have "gc_Get gc later (cs_cache s) (cache_key q') = Some cv" by simp
    from coherentD [OF coh q' _ this] now later obtain t where "t \<le> t0" "later \<le> t + cs_ttl s"
      "base_answer (cs_ops s) (cs_base s) t q' = Inr cv" by (meson order_trans)
    with now show ?thesis by (intro exI [of _ t]) simp
  qed
  then show "\<exists>t \<le> now. later \<le> t + cs_ttl (setWithTTL gc now (cache_key q) v s) \<and>
      base_answer (cs_ops (setWithTTL gc now (cache_key q) v s)) (cs_base (setWithTTL gc now (cache_key q) v s)) t q' = Inr cv"
    by (simp add: setWithTTL_def)
qed

text \<open>One lemma for every read: \<open>rd t\<close> is the read of the base store at time \<open>t\<close>.\<close>

lemma cached_read_fresh:
  assumes laws: "cache_laws gc" and coh: "coherent gc t0 s" and now: "t0 \<le> now" and q: "valid_query q"
    and answer: "\<And>t. base_answer (cs_ops s) (cs_base s) t q = attempt (rd t) (\<lambda>x. Inr (inject (clone x)))"
    and cast: "\<And>x. cast (inject x) = Some x" and clone: "\<And>x. clone (clone x) = clone x"
    and base: "base_read (cs_base s) = rd now"
    and run: "cached_read gc now (cache_key q) cast inject clone base_read s = (res, s')"
  shows "coherent gc now s' \<and> cs_base s' = cs_base s \<and> cs_ops s' = cs_ops s \<and> cs_ttl s' = cs_ttl s \<and>
    (\<exists>t. t \<le> now \<and> now \<le> t + cs_ttl s \<and> res = attempt (rd t) (\<lambda>x. Inr (clone x)))"
proof (cases "cached_hit gc now (cache_key q) cast s")
  case (Some v)
  then obtain cv where cv: "gc_Get gc now (cs_cache s) (cache_key q) = Some cv" "cast cv = Some v"
    by (auto simp: cached_hit_def split: option.splits)
  from coherentD [OF coh q now cv(1)] obtain t where t: "t \<le> t0" "now \<le> t + cs_ttl s"
    "base_answer (cs_ops s) (cs_base s) t q = Inr cv" by blast
  then obtain x where x: "rd t = Inr x" "cv = inject (clone x)"
    by (cases "rd t") (auto simp: answer)
  then have "v = clone x" using cv(2) cast by simp
  with run Some x(1) clone have "res = attempt (rd t) (\<lambda>x. Inr (clone x))" "s' = s"
    by (simp_all add: cached_read_def)
  moreover have "t \<le> now" using t(1) now by simp
  ultimately show ?thesis using t(2) coherent_later [OF coh now] by (intro conjI exI [of _ t]) simp_all
next
  case None
  have ttl: "0 < cs_ttl s" using coh by (simp add: coherent_def)
  show ?thesis
  proof (cases "rd now")
    case (Inl e)
    have "(Inl e, s) = (res, s')" using run unfolding cached_read_def base by (simp add: None Inl)
    then have "res = attempt (rd now) (\<lambda>x. Inr (clone x))" "s' = s" by (auto simp: Inl)
    with ttl coherent_later [OF coh now] show ?thesis by (intro conjI exI [of _ now]) simp_all
  next
    case (Inr x)
    then have "base_answer (cs_ops s) (cs_base s) now q = Inr (inject (clone x))" by (simp add: answer)
    note coh' = coherent_set [OF laws coh now q this]
    have "(Inr (clone x), setWithTTL gc now (cache_key q) (inject (clone x)) s) = (res, s')"
      using run unfolding cached_read_def base by (simp add: None Inr clone Let_def)
    then have "res = attempt (rd now) (\<lambda>x. Inr (clone x))"
      and s': "s' = setWithTTL gc now (cache_key q) (inject (clone x)) s"
      by (auto simp: Inr)
    with ttl coh' show ?thesis by (intro conjI exI [of _ now]) (simp_all add: setWithTTL_def)
  qed
qed

end
