(* ===== verification/Service_State.thy ===== *)
theory Service_State
  imports Bootstrap_Store
begin

text \<open>
  The service's own state (\<open>service.go\<close>): the identity provider, the permission store behind its
  method table, the built-in registry, the five-second cache of disabled built-in roles and the
  IDs of the synthetic roles; its construction and configuration; the cache; role definitions
  and the expansion of a role, which combine registry, store and cache.
\<close>

section \<open>Subjects\<close>

text \<open>
  The dynamic types that \<open>DefaultSubjectID\<close> (utilities.go) tells apart. The two interface cases
  carry what the subject's method returns; the last is any other type, by its name.
\<close>

datatype subject =
    SubjectPlain string
  | SubjectStringSubject string
  | SubjectSubject string
  | SubjectWithSubjectID string
  | SubjectUnsupported string

definition nonempty_subject :: "string \<Rightarrow> string result" where
  "nonempty_subject v = (if v = '''' then Inl (Errorf ''subject ID is required'' []) else Inr v)"

fun DefaultSubjectID :: "subject \<Rightarrow> string result" where
  "DefaultSubjectID (SubjectPlain v) = nonempty_subject v"
| "DefaultSubjectID (SubjectStringSubject v) = nonempty_subject v"
| "DefaultSubjectID (SubjectSubject v) = nonempty_subject v"
| "DefaultSubjectID (SubjectWithSubjectID v) = nonempty_subject v"
| "DefaultSubjectID (SubjectUnsupported ty) = Inl (Errorf ''unsupported subject type %T'' [ty])"

section \<open>State\<close>

text \<open>
  \<open>sv_disabledCacheAt\<close> is \<open>None\<close> for the zero \<open>time.Time\<close>, which \<open>time.Since\<close> puts farther in
  the past than any duration.
\<close>

record 's service =
  sv_identity :: "identity_provider option"
  sv_ops :: "'s store_ops"
  sv_store :: 's
  sv_builtIns :: built_in_registry
  sv_disabledCache :: "string set option"
  sv_disabledCacheAt :: "time option"
  sv_publicRoleID :: string
  sv_authenticatedRoleID :: string
  sv_adminRoleID :: string
  sv_adminGroupID :: string
  sv_subjectFunc :: "(subject \<Rightarrow> string result) option"

definition applyDefaultSyntheticRoleIDs :: "'s service \<Rightarrow> 's service" where
  "applyDefaultSyntheticRoleIDs s =
     (let s1 = (if TrimSpace (sv_publicRoleID s) = ''''
                then s\<lparr>sv_publicRoleID := SyntheticRolePublic\<rparr> else s);
          s2 = (if TrimSpace (sv_authenticatedRoleID s1) = ''''
                then s1\<lparr>sv_authenticatedRoleID := SyntheticRoleAuthenticated\<rparr> else s1)
      in if TrimSpace (sv_adminRoleID s2) = ''''
         then s2\<lparr>sv_adminRoleID := SyntheticRoleAdmin\<rparr> else s2)"

definition NewService :: "'s store_ops \<Rightarrow> 's \<Rightarrow> identity_provider option \<Rightarrow> 's service" where
  "NewService ops store identity = applyDefaultSyntheticRoleIDs
     \<lparr>sv_identity = identity, sv_ops = ops, sv_store = store, sv_builtIns = newBuiltInRegistry,
      sv_disabledCache = None, sv_disabledCacheAt = None, sv_publicRoleID = '''',
      sv_authenticatedRoleID = '''', sv_adminRoleID = '''', sv_adminGroupID = '''',
      sv_subjectFunc = None\<rparr>"

lemma applyDefaultSyntheticRoleIDs_frame [simp, frame_simps]:
  "sv_identity (applyDefaultSyntheticRoleIDs s) = sv_identity s"
  "sv_ops (applyDefaultSyntheticRoleIDs s) = sv_ops s" "sv_store (applyDefaultSyntheticRoleIDs s) = sv_store s"
  "sv_builtIns (applyDefaultSyntheticRoleIDs s) = sv_builtIns s"
  "sv_disabledCacheAt (applyDefaultSyntheticRoleIDs s) = sv_disabledCacheAt s"
  by (simp_all add: applyDefaultSyntheticRoleIDs_def Let_def)

text \<open>\<open>New\<close>, and \<open>NewService\<close> with a nil store: the bootstrap store.\<close>

definition New :: "bootstrap_store service" where
  "New = NewService bootstrap_ops newBootstrapStore None"

definition SetIdentityProvider :: "'s service \<Rightarrow> identity_provider option \<Rightarrow> 's service" where
  "SetIdentityProvider s identity = s\<lparr>sv_identity := identity\<rparr>"

definition invalidateDisabledCache :: "'s service \<Rightarrow> 's service" where
  "invalidateDisabledCache s = s\<lparr>sv_disabledCacheAt := None\<rparr>"

definition SetStore :: "'s service \<Rightarrow> 's store_ops \<Rightarrow> 's \<Rightarrow> 's service" where
  "SetStore s ops store = invalidateDisabledCache (s\<lparr>sv_ops := ops, sv_store := store\<rparr>)"

definition SetSubjectFunc :: "'s service \<Rightarrow> (subject \<Rightarrow> string result) option \<Rightarrow> 's service" where
  "SetSubjectFunc s fn = s\<lparr>sv_subjectFunc := fn\<rparr>"

definition GetSubjectID :: "'s service \<Rightarrow> subject \<Rightarrow> string result" where
  "GetSubjectID s subj = (case sv_subjectFunc s of Some fn \<Rightarrow> fn subj | None \<Rightarrow> DefaultSubjectID subj)"

definition SetPublicRoleID :: "'s service \<Rightarrow> string \<Rightarrow> 's service" where
  "SetPublicRoleID s roleID = s\<lparr>sv_publicRoleID := TrimSpace roleID\<rparr>"

definition SetAuthenticatedRoleID :: "'s service \<Rightarrow> string \<Rightarrow> 's service" where
  "SetAuthenticatedRoleID s roleID = s\<lparr>sv_authenticatedRoleID := TrimSpace roleID\<rparr>"

definition SetAdminRoleID :: "'s service \<Rightarrow> string \<Rightarrow> 's service" where
  "SetAdminRoleID s roleID = s\<lparr>sv_adminRoleID := TrimSpace roleID\<rparr>"

definition SetAdminGroupID :: "'s service \<Rightarrow> string \<Rightarrow> 's service" where
  "SetAdminGroupID s groupID = s\<lparr>sv_adminGroupID := TrimSpace groupID\<rparr>"

definition SetSyntheticRoleIDs :: "'s service \<Rightarrow> string \<Rightarrow> string \<Rightarrow> string \<Rightarrow> 's service" where
  "SetSyntheticRoleIDs s publicRoleID authenticatedRoleID adminRoleID =
     s\<lparr>sv_publicRoleID := TrimSpace publicRoleID, sv_authenticatedRoleID := TrimSpace authenticatedRoleID,
       sv_adminRoleID := TrimSpace adminRoleID\<rparr>"

section \<open>The cache of disabled built-in roles\<close>

definition disabled_ttl :: time where "disabled_ttl = 5 * 10 ^ 9"

definition cached_disabled :: "time \<Rightarrow> 's service \<Rightarrow> string set option" where
  "cached_disabled now s =
     (case sv_disabledCacheAt s of
        None \<Rightarrow> None
      | Some t \<Rightarrow> if now - t < disabled_ttl then sv_disabledCache s else None)"

definition getDisabledBuiltInRoles :: "time \<Rightarrow> 's service \<Rightarrow> string set result \<times> 's service" where
  "getDisabledBuiltInRoles now s =
     (case cached_disabled now s of
        Some cache \<Rightarrow> (Inr cache, s)
      | None \<Rightarrow>
          (case op_DisabledBuiltInRoles (sv_ops s) (sv_store s) of
             Inl e \<Rightarrow> (Inl e, s)
           | Inr disabledList \<Rightarrow>
               (Inr (set disabledList),
                s\<lparr>sv_disabledCache := Some (set disabledList), sv_disabledCacheAt := Some now\<rparr>)))"

section \<open>Role definitions and expansion\<close>

definition RoleDefinition :: "time \<Rightarrow> 's service \<Rightarrow> string \<Rightarrow> role result \<times> 's service" where
  "RoleDefinition now s roleID =
     (case builtIn_Role (sv_builtIns s) roleID of
        Some role \<Rightarrow>
          (let (d, s') = getDisabledBuiltInRoles now s;
               disabledMap = (case d of Inl e \<Rightarrow> {} | Inr m \<Rightarrow> m)
           in (Inr (if roleID \<in> disabledMap then role\<lparr>ro_IsDisabled := True\<rparr> else role), s'))
      | None \<Rightarrow> (op_RoleDefinition (sv_ops s) (sv_store s) roleID, s))"

text \<open>The filter loop at the end of \<open>expandRolesCached\<close> and \<open>ExpandRoles\<close>.\<close>

fun filter_enabled :: "time \<Rightarrow> string set \<Rightarrow> string list \<Rightarrow> 's service \<Rightarrow> string list \<times> 's service" where
  "filter_enabled now disabledMap [] s = ([], s)"
| "filter_enabled now disabledMap (rID # rest) s =
     (if rID \<in> disabledMap then filter_enabled now disabledMap rest s
      else
        let (roleDef, s1) = RoleDefinition now s rID;
            (filtered, s2) = filter_enabled now disabledMap rest s1
        in (case roleDef of
              Inr r \<Rightarrow> if ro_IsDisabled r then (filtered, s2) else (rID # filtered, s2)
            | Inl e \<Rightarrow> (rID # filtered, s2)))"

text \<open>All roles a root reaches, before the filter: the store's expansion of a custom root, then the
  registry's expansion of the result.\<close>

definition raw_expansion :: "'s service \<Rightarrow> string \<Rightarrow> string list result" where
  "raw_expansion s rootRoleID =
     (if is_builtin rootRoleID then Inr (builtIn_ExpandRoles (sv_builtIns s) [rootRoleID])
      else attempt (op_ExpandRoles (sv_ops s) (sv_store s) [rootRoleID])
        (\<lambda>dbExpanded. Inr (builtIn_ExpandRoles (sv_builtIns s) dbExpanded)))"

type_synonym expand_cache = "(string, string list) gomap"

definition expandRolesCached ::
  "time \<Rightarrow> string \<Rightarrow> expand_cache \<Rightarrow> 's service \<Rightarrow> string list result \<times> expand_cache \<times> 's service" where
  "expandRolesCached now rootRoleID cache s =
     (case map_of cache rootRoleID of
        Some cached \<Rightarrow> (Inr cached, cache, s)
      | None \<Rightarrow>
          (let (d, s1) = getDisabledBuiltInRoles now s;
               disabledMap = (case d of Inl e \<Rightarrow> {} | Inr m \<Rightarrow> m)
           in (case raw_expansion s1 rootRoleID of
                 Inl e \<Rightarrow> (Inl e, cache, s1)
               | Inr expanded \<Rightarrow>
                   (let (filtered, s2) = filter_enabled now disabledMap expanded s1
                    in (Inr filtered, AList.update rootRoleID filtered cache, s2)))))"

section \<open>What the cache hides\<close>

text \<open>
  All reads of one request happen at one instant. The first refreshes a stale cache, and nothing
  later in the request can tell the refreshed service from the one before.
\<close>

definition refresh :: "time \<Rightarrow> 's service \<Rightarrow> 's service" where
  "refresh now s = snd (getDisabledBuiltInRoles now s)"

definition disabled_view :: "time \<Rightarrow> 's service \<Rightarrow> string set" where
  "disabled_view now s = (case fst (getDisabledBuiltInRoles now s) of Inl e \<Rightarrow> {} | Inr m \<Rightarrow> m)"

definition same_view :: "time \<Rightarrow> 's service \<Rightarrow> 's service \<Rightarrow> bool" where
  "same_view now s s' \<longleftrightarrow> s' = s \<or> s' = refresh now s"

lemma getDisabled_refresh:
  "getDisabledBuiltInRoles now (refresh now s) = (fst (getDisabledBuiltInRoles now s), refresh now s)"
  by (auto simp: refresh_def getDisabledBuiltInRoles_def cached_disabled_def disabled_ttl_def
      split: option.splits sum.splits if_splits)

lemma refresh_refresh [simp]: "refresh now (refresh now s) = refresh now s"
  using getDisabled_refresh [of now s] by (simp add: refresh_def)

lemma disabled_view_refresh [simp]: "disabled_view now (refresh now s) = disabled_view now s"
  by (simp add: disabled_view_def getDisabled_refresh)

lemma refresh_frame [simp, frame_simps]:
  "sv_identity (refresh now s) = sv_identity s" "sv_ops (refresh now s) = sv_ops s"
  "sv_store (refresh now s) = sv_store s" "sv_builtIns (refresh now s) = sv_builtIns s"
  "sv_publicRoleID (refresh now s) = sv_publicRoleID s"
  "sv_authenticatedRoleID (refresh now s) = sv_authenticatedRoleID s"
  "sv_adminRoleID (refresh now s) = sv_adminRoleID s"
  "sv_adminGroupID (refresh now s) = sv_adminGroupID s"
  by (auto simp: refresh_def getDisabledBuiltInRoles_def split: option.splits sum.splits)

lemma same_view_refl [simp]: "same_view now s s"
  by (simp add: same_view_def)

lemma same_view_refresh [simp]: "same_view now s (refresh now s)"
  by (simp add: same_view_def)

lemma same_view_trans [trans]: "same_view now s s' \<Longrightarrow> same_view now s' s'' \<Longrightarrow> same_view now s s''"
  by (auto simp: same_view_def)

lemma getDisabled_eq:
  "getDisabledBuiltInRoles now s = (d, s') \<longleftrightarrow> d = fst (getDisabledBuiltInRoles now s) \<and> s' = refresh now s"
  by (auto simp: refresh_def prod_eq_iff)

text \<open>The role definition the service answers with, and whether it counts as enabled.\<close>

definition role_view :: "time \<Rightarrow> 's service \<Rightarrow> string \<Rightarrow> role result" where
  "role_view now s roleID =
     (case builtIn_Role (sv_builtIns s) roleID of
        Some role \<Rightarrow> Inr (if roleID \<in> disabled_view now s then role\<lparr>ro_IsDisabled := True\<rparr> else role)
      | None \<Rightarrow> op_RoleDefinition (sv_ops s) (sv_store s) roleID)"

definition role_enabled :: "time \<Rightarrow> 's service \<Rightarrow> string \<Rightarrow> bool" where
  "role_enabled now s roleID \<longleftrightarrow> roleID \<notin> disabled_view now s \<and>
     (case role_view now s roleID of Inl e \<Rightarrow> True | Inr r \<Rightarrow> \<not> ro_IsDisabled r)"

definition expand_view :: "time \<Rightarrow> 's service \<Rightarrow> string \<Rightarrow> string list result" where
  "expand_view now s root =
     attempt (raw_expansion s root) (\<lambda>ids. Inr (filter (role_enabled now s) ids))"

lemma role_view_refresh [simp]: "role_view now (refresh now s) = role_view now s"
  by (rule ext) (simp add: role_view_def split: option.split)

lemma role_enabled_refresh [simp]: "role_enabled now (refresh now s) = role_enabled now s"
  by (rule ext) (simp add: role_enabled_def)

lemma raw_expansion_refresh [simp]: "raw_expansion (refresh now s) = raw_expansion s"
  by (rule ext) (simp add: raw_expansion_def)

lemma expand_view_refresh [simp]: "expand_view now (refresh now s) = expand_view now s"
  by (rule ext) (simp add: expand_view_def)

lemma view_cong:
  assumes "same_view now s s'"
  shows "role_view now s' = role_view now s" "role_enabled now s' = role_enabled now s"
    "raw_expansion s' = raw_expansion s" "expand_view now s' = expand_view now s"
    "disabled_view now s' = disabled_view now s" "sv_identity s' = sv_identity s"
    "sv_ops s' = sv_ops s" "sv_store s' = sv_store s" "sv_builtIns s' = sv_builtIns s"
  using assms by (auto simp: same_view_def)

lemma RoleDefinition_view:
  "fst (RoleDefinition now s r) = role_view now s r" "same_view now s (snd (RoleDefinition now s r))"
  by (auto simp: RoleDefinition_def role_view_def disabled_view_def refresh_def [symmetric] Let_def
      split: option.splits prod.splits) (simp_all add: getDisabled_eq)

lemma filter_enabled_view:
  "fst (filter_enabled now (disabled_view now s) ids s) = filter (role_enabled now s) ids \<and>
   same_view now s (snd (filter_enabled now (disabled_view now s) ids s))"
proof (induction ids arbitrary: s)
  case (Cons rID ids)
  obtain d s1 where rd: "RoleDefinition now s rID = (d, s1)" by fastforce
  then have d: "d = role_view now s rID" and s1: "same_view now s s1"
    using RoleDefinition_view [of now s rID] by auto
  obtain filtered s2 where fe: "filter_enabled now (disabled_view now s) ids s1 = (filtered, s2)"
    by fastforce
  then have "filtered = filter (role_enabled now s) ids" "same_view now s s2"
    using Cons.IH [of s1] view_cong [OF s1] same_view_trans [OF s1] by auto
  moreover have "role_enabled now s rID \<longleftrightarrow> rID \<notin> disabled_view now s \<and>
      (case d of Inl e \<Rightarrow> True | Inr r \<Rightarrow> \<not> ro_IsDisabled r)"
    by (simp add: role_enabled_def d)
  ultimately show ?case using Cons.IH [of s] rd fe by (cases d) auto
qed simp

definition expand_cache_ok :: "time \<Rightarrow> 's service \<Rightarrow> expand_cache \<Rightarrow> bool" where
  "expand_cache_ok now s cache \<longleftrightarrow> (\<forall>root ids. map_of cache root = Some ids \<longrightarrow> expand_view now s root = Inr ids)"

lemma expand_cache_ok_Nil [simp]: "expand_cache_ok now s []"
  by (simp add: expand_cache_ok_def)

lemma expand_cache_ok_cong: "same_view now s s' \<Longrightarrow> expand_cache_ok now s' c = expand_cache_ok now s c"
  by (simp add: expand_cache_ok_def view_cong)

text \<open>The memoised, cache-refreshing expansion returns what the plain one does.\<close>

lemma expandRolesCached_cases:
  assumes "expandRolesCached now root cache s = (r, cache', s')"
  shows "(\<exists>ids. map_of cache root = Some ids \<and> r = Inr ids \<and> cache' = cache \<and> s' = s) \<or>
    same_view now s s' \<and> r = expand_view now s root \<and>
      (cache' = cache \<or> (\<exists>ids. r = Inr ids \<and> cache' = AList.update root ids cache))"
proof (cases "map_of cache root")
  case None
  obtain d where gd: "getDisabledBuiltInRoles now s = (d, refresh now s)"
    and dv: "(case d of Inl e \<Rightarrow> {} | Inr m \<Rightarrow> m) = disabled_view now s"
    by (simp add: refresh_def disabled_view_def prod_eq_iff)
  note unfolded = assms [unfolded expandRolesCached_def gd Let_def prod.case dv
      None option.case raw_expansion_refresh]
  show ?thesis
  proof (cases "raw_expansion s root")
    case (Inl e)
    then have "r = Inl e" "cache' = cache" "s' = refresh now s" using unfolded by simp_all
    then show ?thesis by (simp add: expand_view_def Inl)
  next
    case (Inr ids)
    have fe: "fst (filter_enabled now (disabled_view now s) ids (refresh now s)) = filter (role_enabled now s) ids"
      "same_view now s (snd (filter_enabled now (disabled_view now s) ids (refresh now s)))"
      using filter_enabled_view [of now "refresh now s" ids]
        same_view_trans [OF same_view_refresh, of now s] by simp_all
    then have "r = Inr (filter (role_enabled now s) ids)" "same_view now s s'"
      "cache' = AList.update root (filter (role_enabled now s) ids) cache"
      using unfolded Inr by (auto simp: split_beta)
    then show ?thesis by (simp add: expand_view_def Inr)
  qed
qed (use assms in \<open>simp add: expandRolesCached_def\<close>)

lemma expandRolesCached_view:
  assumes ok: "expand_cache_ok now s cache" and run: "expandRolesCached now root cache s = (r, cache', s')"
  shows "r = expand_view now s root" "expand_cache_ok now s cache'" "same_view now s s'"
proof -
  note hit = expand_cache_ok_def [THEN iffD1, OF ok, rule_format]
  have "r = expand_view now s root \<and> same_view now s s' \<and>
      (cache' = cache \<or> (\<exists>ids. r = Inr ids \<and> cache' = AList.update root ids cache))"
    using expandRolesCached_cases [OF run] hit [of root] by auto
  then show "r = expand_view now s root" "expand_cache_ok now s cache'" "same_view now s s'"
    using hit by (auto simp: expand_cache_ok_def update_conv' split: if_splits)
qed

section \<open>Answers at later instants\<close>

text \<open>
  A refresh at one instant changes nothing that a later instant could read, as long as the store
  stays: what it put into the cache is what the store still lists, and an answer from the cache
  does not prolong the life of the entry.
\<close>

lemma getDisabled_later:
  assumes "now \<le> later"
  shows "fst (getDisabledBuiltInRoles later (refresh now s)) = fst (getDisabledBuiltInRoles later s)"
proof (cases "cached_disabled now s")
  case None
  then have "cached_disabled later s = None"
    using assms by (auto simp: cached_disabled_def split: option.splits if_splits)
  with None show ?thesis
    by (auto simp: refresh_def getDisabledBuiltInRoles_def cached_disabled_def split: option.splits sum.splits if_splits)
qed (simp add: refresh_def getDisabledBuiltInRoles_def)

lemma refresh_cases:
  "refresh now s = s \<or> cached_disabled now s = None \<and>
     (\<exists>ds. op_DisabledBuiltInRoles (sv_ops s) (sv_store s) = Inr ds \<and>
       refresh now s = s\<lparr>sv_disabledCache := Some (set ds), sv_disabledCacheAt := Some now\<rparr>)"
  by (auto simp: refresh_def getDisabledBuiltInRoles_def split: option.splits sum.splits)

text \<open>Services that differ at most in the cache, and agree on what is disabled at an instant.\<close>

definition alike :: "time \<Rightarrow> 's service \<Rightarrow> 's service \<Rightarrow> bool" where
  "alike now s s' \<longleftrightarrow> fst (getDisabledBuiltInRoles now s') = fst (getDisabledBuiltInRoles now s) \<and>
     (\<exists>cache at. s' = s\<lparr>sv_disabledCache := cache, sv_disabledCacheAt := at\<rparr>)"

lemma refresh_update: "\<exists>cache at. refresh now s = s\<lparr>sv_disabledCache := cache, sv_disabledCacheAt := at\<rparr>"
proof -
  have "s = s\<lparr>sv_disabledCache := sv_disabledCache s, sv_disabledCacheAt := sv_disabledCacheAt s\<rparr>" by simp
  then show ?thesis using refresh_cases [of now s] by metis
qed

lemma same_view_alike: "now \<le> later \<Longrightarrow> same_view now s s' \<Longrightarrow> alike later s s'"
  using getDisabled_later [of now later s] refresh_update [of now s] refresh_update [of later s]
  unfolding same_view_def alike_def by (metis service.surjective service.update_convs(5,6))

lemma alike_trans: "alike now s s' \<Longrightarrow> alike now s' s'' \<Longrightarrow> alike now s s''"
  unfolding alike_def by (elim conjE exE, hypsubst) (auto intro!: exI)

lemma alike_sym: "alike now s s' \<Longrightarrow> alike now s' s"
  unfolding alike_def by (metis service.surjective service.update_convs(5,6))

lemma alike_step:
  assumes "alike now s t" "same_view now s s'" "same_view now t t'"
  shows "alike now s' t'"
  using alike_trans [OF alike_trans [OF alike_sym [OF same_view_alike [OF order_refl assms(2)]] assms(1)]
      same_view_alike [OF order_refl assms(3)]] .

lemma alike_frame:
  assumes "alike now s s'"
  shows "sv_identity s' = sv_identity s" "sv_ops s' = sv_ops s" "sv_store s' = sv_store s"
    "sv_builtIns s' = sv_builtIns s" "disabled_view now s' = disabled_view now s"
  using assms by (auto simp: alike_def disabled_view_def)

lemma alike_view:
  assumes "alike now s s'"
  shows "raw_expansion s' = raw_expansion s" "expand_view now s' = expand_view now s"
proof -
  have role: "role_view now s' = role_view now s"
    by (rule ext) (simp add: role_view_def alike_frame [OF assms] split: option.split)
  have enabled: "role_enabled now s' = role_enabled now s"
    by (rule ext) (simp add: role_enabled_def role alike_frame [OF assms])
  show raw: "raw_expansion s' = raw_expansion s"
    by (rule ext) (simp add: raw_expansion_def alike_frame [OF assms])
  show "expand_view now s' = expand_view now s"
    by (rule ext) (simp add: expand_view_def raw enabled)
qed

end
