(* ===== verification/Evaluation.thy ===== *)
theory Evaluation
  imports Service_State
begin

text \<open>
  The permission check (\<open>service.go\<close>: \<open>HasPermission\<close>, \<open>HasFieldPermission\<close>,
  \<open>FilterPermittedFields\<close>, \<open>evaluatePermission\<close> and what they call): the principals of a user,
  the role assignments these hold, and the two loops over direct and role-based grants. The
  second half gives the check a declarative meaning: the candidate grants of a request, and the
  rule that a request is allowed if some candidate allows it and none vetoes it.

  All clock readings of one request are taken to be the same instant \<open>now\<close>.
\<close>

section \<open>The principals and role assignments of a user\<close>

definition resolveUserGroupIDs :: "'s service \<Rightarrow> string \<Rightarrow> string list result" where
  "resolveUserGroupIDs s userID =
     (if userID = '''' then Inr []
      else case sv_identity s of
             None \<Rightarrow> Inr []
           | Some identity \<Rightarrow>
               attempt (ip_GetUserGroups identity userID) (\<lambda>groupIDs. Inr (fold push_new groupIDs [])))"

definition resolveUserTeamIDs :: "'s service \<Rightarrow> string \<Rightarrow> string list result" where
  "resolveUserTeamIDs s userID =
     (if userID = '''' then Inr []
      else case sv_identity s of
             None \<Rightarrow> Inr []
           | Some identity \<Rightarrow>
               attempt (ip_GetUserTeams identity userID) (\<lambda>teamIDs. Inr (fold push_new teamIDs [])))"

definition syntheticRoleAssignments :: "'s service \<Rightarrow> string \<Rightarrow> string list \<Rightarrow> role_assignment list" where
  "syntheticRoleAssignments s userID groupIDs =
     (if sv_publicRoleID s \<noteq> ''''
      then [\<lparr>ra_RoleID = sv_publicRoleID s, ra_BindingValues = []\<rparr>] else []) @
     (if userID \<noteq> '''' \<and> sv_authenticatedRoleID s \<noteq> ''''
      then [\<lparr>ra_RoleID = sv_authenticatedRoleID s, ra_BindingValues = []\<rparr>] else []) @
     (if userID \<noteq> '''' \<and> sv_adminRoleID s \<noteq> '''' \<and> sv_adminGroupID s \<noteq> '''' \<and>
         containsString groupIDs (sv_adminGroupID s)
      then [\<lparr>ra_RoleID = sv_adminRoleID s, ra_BindingValues = []\<rparr>] else [])"

text \<open>The definition that \<open>appendUnique\<close> looks at; \<open>None\<close> where it skips the assignment. The role
  of a built-in assignment is read from the registry, not through the cache of disabled roles.\<close>

definition assignment_role :: "'s service \<Rightarrow> string \<Rightarrow> role option" where
  "assignment_role s roleID =
     (if roleID = sv_publicRoleID s \<or> roleID = sv_authenticatedRoleID s \<or> roleID = sv_adminRoleID s
      then Some (zero_role\<lparr>ro_ID := roleID, ro_BuiltIn := True\<rparr>)
      else if HasPrefix roleID BuiltInPrefix then map_of (bi_roles (sv_builtIns s)) roleID
      else case op_RoleDefinition (sv_ops s) (sv_store s) roleID of
             Inl e \<Rightarrow> None
           | Inr match \<Rightarrow> Some match)"

type_synonym unique_assignments = "string set \<times> role_assignment list"

fun appendUnique ::
  "'s service \<Rightarrow> role_assignment list \<Rightarrow> unique_assignments \<Rightarrow> unique_assignments" where
  "appendUnique s [] acc = acc"
| "appendUnique s (a # rest) (seenPairs, result) =
     (if ra_RoleID a = '''' then appendUnique s rest (seenPairs, result)
      else case assignment_role s (ra_RoleID a) of
             None \<Rightarrow> appendUnique s rest (seenPairs, result)
           | Some roleDef \<Rightarrow>
               if ro_IsDisabled roleDef then appendUnique s rest (seenPairs, result)
               else if assignmentKey a \<in> seenPairs then appendUnique s rest (seenPairs, result)
               else appendUnique s rest (insert (assignmentKey a) seenPairs, result @ [a]))"

fun append_all ::
  "'s service \<Rightarrow> principal_ref list \<Rightarrow> unique_assignments \<Rightarrow> unique_assignments result" where
  "append_all s [] acc = Inr acc"
| "append_all s (p # ps) acc =
     attempt (op_RoleAssignmentsForPrincipal (sv_ops s) (sv_store s) p)
       (\<lambda>assignments. append_all s ps (appendUnique s assignments acc))"

definition resolveRoleAssignmentsForUserGroupsAndTeams ::
  "'s service \<Rightarrow> string \<Rightarrow> string list \<Rightarrow> string list \<Rightarrow> role_assignment list result" where
  "resolveRoleAssignmentsForUserGroupsAndTeams s userID groupIDs teamIDs =
     attempt
       (append_all s
          ((if userID \<noteq> '''' then [\<lparr>pr_Kind = PrincipalUser, pr_ID = userID\<rparr>] else []) @
           map (\<lambda>groupID. \<lparr>pr_Kind = PrincipalGroup, pr_ID = groupID\<rparr>) groupIDs @
           map (\<lambda>teamID. \<lparr>pr_Kind = PrincipalTeam, pr_ID = teamID\<rparr>) teamIDs)
          ({}, []))
       (\<lambda>acc. Inr (snd (appendUnique s (syntheticRoleAssignments s userID groupIDs) acc)))"

section \<open>The two loops\<close>

text \<open>Each loop carries \<open>allowed\<close>; \<open>None\<close> is the early \<open>return false, nil\<close>.\<close>

fun eval_direct :: "time \<Rightarrow> request \<Rightarrow> string option \<Rightarrow> grant list \<Rightarrow> bool \<Rightarrow> bool option" where
  "eval_direct now req fieldPath [] allowed = Some allowed"
| "eval_direct now req fieldPath (g # gs) allowed =
     (if IsExpiredAt g now then eval_direct now req fieldPath gs allowed
      else if \<not> grantMatchesRequest g req \<or> \<not> grantMatchesFieldPath g fieldPath
      then eval_direct now req fieldPath gs allowed
      else if gr_Effect g = EffectDeny
      then (if fieldPath = None \<and> gr_RestrictedFields g \<noteq> []
            then eval_direct now req fieldPath gs allowed else None)
      else eval_direct now req fieldPath gs True)"

fun eval_role_grants ::
  "time \<Rightarrow> request \<Rightarrow> string option \<Rightarrow> string set \<Rightarrow> (string, bindings) gomap \<Rightarrow> grant list \<Rightarrow> bool
   \<Rightarrow> bool option result" where
  "eval_role_grants now req fieldPath roleIDSet bindingMap [] allowed = Inr (Some allowed)"
| "eval_role_grants now req fieldPath roleIDSet bindingMap (g # gs) allowed =
     (if gr_OwnerKind g = PrincipalRole \<and> gr_OwnerID g \<notin> roleIDSet
      then eval_role_grants now req fieldPath roleIDSet bindingMap gs allowed
      else if IsExpiredAt g now then eval_role_grants now req fieldPath roleIDSet bindingMap gs allowed
      else attempt (resolveGrantBindings g bindingMap) (\<lambda>g'.
        if \<not> grantMatchesRequest g' req \<or> \<not> grantMatchesFieldPath g' fieldPath
        then eval_role_grants now req fieldPath roleIDSet bindingMap gs allowed
        else if gr_Effect g' = EffectDeny
        then (if fieldPath = None \<and> gr_RestrictedFields g' \<noteq> []
              then eval_role_grants now req fieldPath roleIDSet bindingMap gs allowed
              else Inr None)
        else eval_role_grants now req fieldPath roleIDSet bindingMap gs True))"

definition role_ref :: "string \<Rightarrow> principal_ref" where
  "role_ref rID = \<lparr>pr_Kind = PrincipalRole, pr_ID = rID\<rparr>"

definition fetchRoleGrants :: "time \<Rightarrow> 's service \<Rightarrow> string list \<Rightarrow> request \<Rightarrow> grant list result" where
  "fetchRoleGrants now s roleIDs req =
     (let builtInOwners = map role_ref (filter (\<lambda>r. HasPrefix r BuiltInPrefix) roleIDs);
          customOwners = map role_ref (filter (\<lambda>r. \<not> HasPrefix r BuiltInPrefix) roleIDs);
          builtInGrants = (if builtInOwners = [] then []
                           else builtIn_GrantsForOwners now (sv_builtIns s) builtInOwners req)
      in if customOwners = [] then Inr builtInGrants
         else attempt (op_GrantsForOwners (sv_ops s) now (sv_store s) customOwners req)
                (\<lambda>cg. Inr (builtInGrants @ cg)))"

fun eval_assignments ::
  "time \<Rightarrow> request \<Rightarrow> string option \<Rightarrow> role_assignment list \<Rightarrow> expand_cache \<Rightarrow> bool \<Rightarrow> 's service
   \<Rightarrow> bool option result \<times> 's service" where
  "eval_assignments now req fieldPath [] expandCache allowed s = (Inr (Some allowed), s)"
| "eval_assignments now req fieldPath (a # rest) expandCache allowed s =
     (case expandRolesCached now (ra_RoleID a) expandCache s of
        (Inl e, _, s') \<Rightarrow> (Inl e, s')
      | (Inr roleIDs, expandCache', s') \<Rightarrow>
          (case fetchRoleGrants now s' roleIDs req of
             Inl e \<Rightarrow> (Inl e, s')
           | Inr roleGrants \<Rightarrow>
               (case eval_role_grants now req fieldPath (set roleIDs)
                       [(ra_RoleID a, ra_BindingValues a)] roleGrants allowed of
                  Inl e \<Rightarrow> (Inl e, s')
                | Inr None \<Rightarrow> (Inr None, s')
                | Inr (Some allowed') \<Rightarrow> eval_assignments now req fieldPath rest expandCache' allowed' s')))"

section \<open>The check\<close>

definition unbound_owners :: "string \<Rightarrow> string list \<Rightarrow> principal_ref list" where
  "unbound_owners userID groupIDs =
     (if userID \<noteq> '''' then [\<lparr>pr_Kind = PrincipalUser, pr_ID = userID\<rparr>] else []) @
     map (\<lambda>groupID. \<lparr>pr_Kind = PrincipalGroup, pr_ID = groupID\<rparr>) groupIDs"

definition direct_grants :: "time \<Rightarrow> 's service \<Rightarrow> principal_ref list \<Rightarrow> request \<Rightarrow> grant list result" where
  "direct_grants now s owners req =
     (if owners = [] then Inr [] else op_GrantsForOwners (sv_ops s) now (sv_store s) owners req)"

definition evaluatePermission ::
  "time \<Rightarrow> 's service \<Rightarrow> request \<Rightarrow> string option \<Rightarrow> bool result \<times> 's service" where
  "evaluatePermission now s req fieldPath =
     (if rq_Perm req = '''' then (Inl (Errorf ''permission name is required'' []), s)
      else
        case attempt (resolveUserGroupIDs s (rq_UserID req)) (\<lambda>groupIDs.
             attempt (resolveUserTeamIDs s (rq_UserID req)) (\<lambda>teamIDs.
             attempt (resolveRoleAssignmentsForUserGroupsAndTeams s (rq_UserID req) groupIDs teamIDs)
               (\<lambda>roleAssignments.
             attempt (direct_grants now s (unbound_owners (rq_UserID req) groupIDs) req)
               (\<lambda>unboundGrants. Inr (roleAssignments, unboundGrants))))) of
          Inl e \<Rightarrow> (Inl e, s)
        | Inr (roleAssignments, unboundGrants) \<Rightarrow>
            (case eval_direct now req fieldPath unboundGrants False of
               None \<Rightarrow> (Inr False, s)
             | Some allowed \<Rightarrow>
                 (case eval_assignments now req fieldPath roleAssignments [] allowed s of
                    (Inl e, s') \<Rightarrow> (Inl e, s')
                  | (Inr None, s') \<Rightarrow> (Inr False, s')
                  | (Inr (Some allowed'), s') \<Rightarrow> (Inr allowed', s'))))"

definition HasPermission :: "time \<Rightarrow> 's service \<Rightarrow> request \<Rightarrow> bool result \<times> 's service" where
  "HasPermission now s req = evaluatePermission now s req None"

definition HasSystemPermission :: "time \<Rightarrow> 's service \<Rightarrow> string \<Rightarrow> string \<Rightarrow> bool result \<times> 's service" where
  "HasSystemPermission now s userID perm =
     HasPermission now s (zero_request\<lparr>rq_UserID := userID, rq_Perm := perm\<rparr>)"

definition HasTeamPermission ::
  "time \<Rightarrow> 's service \<Rightarrow> string \<Rightarrow> string \<Rightarrow> string \<Rightarrow> string \<Rightarrow> bool result \<times> 's service" where
  "HasTeamPermission now s userID teamID obj perm =
     HasPermission now s \<lparr>rq_UserID = userID, rq_TeamID = teamID, rq_Object = obj, rq_Perm = perm\<rparr>"

definition HasFieldPermission ::
  "time \<Rightarrow> 's service \<Rightarrow> request \<Rightarrow> string \<Rightarrow> bool result \<times> 's service" where
  "HasFieldPermission now s req fieldPath =
     (if isIndexedFieldPath fieldPath
      then (Inl (Errorf ''indexed field paths are not supported: %q'' [fieldPath]), s)
      else if TrimSpace fieldPath = '''' then (Inl (Errorf ''field path is required'' []), s)
      else evaluatePermission now s req (Some fieldPath))"

fun filter_fields ::
  "time \<Rightarrow> request \<Rightarrow> string list \<Rightarrow> string set \<Rightarrow> string list \<Rightarrow> 's service \<Rightarrow> string list result \<times> 's service" where
  "filter_fields now req [] seen result s = (Inr result, s)"
| "filter_fields now req (path # rest) seen result s =
     (if path \<in> seen then filter_fields now req rest seen result s
      else case HasFieldPermission now s req path of
             (Inl e, s') \<Rightarrow> (Inl e, s')
           | (Inr allowed, s') \<Rightarrow>
               filter_fields now req rest (insert path seen) (if allowed then result @ [path] else result) s')"

definition FilterPermittedFields ::
  "time \<Rightarrow> 's service \<Rightarrow> request \<Rightarrow> string list \<Rightarrow> string list result \<times> 's service" where
  "FilterPermittedFields now s req fieldPaths = filter_fields now req fieldPaths {} [] s"

section \<open>What the check means\<close>

text \<open>
  A grant takes part in a request if it is unexpired and matches request and field path. A deny
  grant restricted to fields has no say about a request without a field path.
\<close>

definition participates :: "time \<Rightarrow> request \<Rightarrow> string option \<Rightarrow> grant \<Rightarrow> bool" where
  "participates now req fieldPath g \<longleftrightarrow>
     \<not> IsExpiredAt g now \<and> grantMatchesRequest g req \<and> grantMatchesFieldPath g fieldPath"

definition vetoes :: "time \<Rightarrow> request \<Rightarrow> string option \<Rightarrow> grant \<Rightarrow> bool" where
  "vetoes now req fieldPath g \<longleftrightarrow> participates now req fieldPath g \<and> gr_Effect g = EffectDeny \<and>
     \<not> (fieldPath = None \<and> gr_RestrictedFields g \<noteq> [])"

definition allows :: "time \<Rightarrow> request \<Rightarrow> string option \<Rightarrow> grant \<Rightarrow> bool" where
  "allows now req fieldPath g \<longleftrightarrow> participates now req fieldPath g \<and> gr_Effect g \<noteq> EffectDeny"

definition decide :: "time \<Rightarrow> request \<Rightarrow> string option \<Rightarrow> grant set \<Rightarrow> bool" where
  "decide now req fieldPath G \<longleftrightarrow>
     (\<exists>g \<in> G. allows now req fieldPath g) \<and> \<not> (\<exists>g \<in> G. vetoes now req fieldPath g)"

text \<open>The grants a role assignment contributes, with their variables resolved.\<close>

definition role_candidates ::
  "time \<Rightarrow> string set \<Rightarrow> (string, bindings) gomap \<Rightarrow> grant list \<Rightarrow> grant list result" where
  "role_candidates now roleIDSet bindingMap gs =
     collect (\<lambda>g. resolveGrantBindings g bindingMap)
       (filter (\<lambda>g. (gr_OwnerKind g = PrincipalRole \<longrightarrow> gr_OwnerID g \<in> roleIDSet) \<and> \<not> IsExpiredAt g now) gs)"

definition assignment_grants ::
  "time \<Rightarrow> 's service \<Rightarrow> request \<Rightarrow> role_assignment \<Rightarrow> grant list result" where
  "assignment_grants now s req a =
     attempt (expand_view now s (ra_RoleID a)) (\<lambda>roleIDs.
     attempt (fetchRoleGrants now s roleIDs req) (\<lambda>roleGrants.
     role_candidates now (set roleIDs) [(ra_RoleID a, ra_BindingValues a)] roleGrants))"

definition held_assignments :: "'s service \<Rightarrow> string \<Rightarrow> role_assignment list result" where
  "held_assignments s userID =
     attempt (resolveUserGroupIDs s userID) (\<lambda>groupIDs.
     attempt (resolveUserTeamIDs s userID) (\<lambda>teamIDs.
     resolveRoleAssignmentsForUserGroupsAndTeams s userID groupIDs teamIDs))"

definition own_grants :: "time \<Rightarrow> 's service \<Rightarrow> request \<Rightarrow> grant list result" where
  "own_grants now s req =
     attempt (resolveUserGroupIDs s (rq_UserID req)) (\<lambda>groupIDs.
     direct_grants now s (unbound_owners (rq_UserID req) groupIDs) req)"

definition candidate_grants :: "time \<Rightarrow> 's service \<Rightarrow> request \<Rightarrow> grant list result" where
  "candidate_grants now s req =
     attempt (held_assignments s (rq_UserID req)) (\<lambda>roleAssignments.
     attempt (own_grants now s req) (\<lambda>direct.
     attempt (collect (assignment_grants now s req) roleAssignments) (\<lambda>perAssignment.
     Inr (direct @ concat perAssignment))))"

lemmas verdict_defs = participates_def vetoes_def allows_def

text \<open>One round of each loop, in terms of the three outcomes of a grant.\<close>

lemma eval_direct_Cons:
  "eval_direct now req fp (g # gs) allowed =
     (if vetoes now req fp g then None
      else eval_direct now req fp gs (allowed \<or> allows now req fp g))"
  by (cases "grantMatchesRequest g req"; cases "grantMatchesFieldPath g fp") (simp_all add: verdict_defs)

lemma eval_direct_decides:
  "eval_direct now req fp gs allowed =
     (if \<exists>g \<in> set gs. vetoes now req fp g then None
      else Some (allowed \<or> (\<exists>g \<in> set gs. allows now req fp g)))"
  by (induction gs arbitrary: allowed) (simp_all add: eval_direct_Cons del: eval_direct.simps(2))

lemma role_candidates_Cons:
  "role_candidates now ids bm (g # gs) =
     (if (gr_OwnerKind g = PrincipalRole \<longrightarrow> gr_OwnerID g \<in> ids) \<and> \<not> IsExpiredAt g now
      then attempt (resolveGrantBindings g bm) (\<lambda>g'. attempt (role_candidates now ids bm gs) (\<lambda>gs'. Inr (g' # gs')))
      else role_candidates now ids bm gs)"
  by (simp add: role_candidates_def)

lemma resolve_expired: "resolveGrantBindings g bm = Inr g' \<Longrightarrow> IsExpiredAt g' now = IsExpiredAt g now"
  by (simp add: IsExpiredAt_def IsActiveAt_def resolveGrantBindings_frame)

lemma eval_role_grants_Cons:
  "eval_role_grants now req fp ids bm (g # gs) allowed =
     (if (gr_OwnerKind g = PrincipalRole \<longrightarrow> gr_OwnerID g \<in> ids) \<and> \<not> IsExpiredAt g now
      then attempt (resolveGrantBindings g bm) (\<lambda>g'.
             if vetoes now req fp g' then Inr None
             else eval_role_grants now req fp ids bm gs (allowed \<or> allows now req fp g'))
      else eval_role_grants now req fp ids bm gs allowed)"
proof (cases "resolveGrantBindings g bm")
  case (Inr g')
  then show ?thesis
    by (cases "grantMatchesRequest g' req"; cases "grantMatchesFieldPath g' fp")
      (simp_all add: verdict_defs resolve_expired)
qed simp

lemma eval_role_grants_decides:
  "role_candidates now ids bm gs = Inr cs \<Longrightarrow>
   eval_role_grants now req fp ids bm gs allowed =
     Inr (if \<exists>g \<in> set cs. vetoes now req fp g then None
          else Some (allowed \<or> (\<exists>g \<in> set cs. allows now req fp g)))"
proof (induction gs arbitrary: cs allowed)
  case (Cons g gs)
  show ?case
  proof (cases "(gr_OwnerKind g = PrincipalRole \<longrightarrow> gr_OwnerID g \<in> ids) \<and> \<not> IsExpiredAt g now")
    case True
    then obtain g' gs' where g': "resolveGrantBindings g bm = Inr g'" "role_candidates now ids bm gs = Inr gs'"
      "cs = g' # gs'"
      using Cons.prems by (auto simp: role_candidates_Cons)
    show ?thesis
      unfolding eval_role_grants_Cons using True g'
      by (simp add: Cons.IH [OF g'(2)])
  next
    case False
    then have "role_candidates now ids bm gs = Inr cs"
      using Cons.prems unfolding role_candidates_Cons if_not_P [OF False] by blast
    from Cons.IH [OF this] show ?thesis unfolding eval_role_grants_Cons if_not_P [OF False] by blast
  qed
qed (simp add: role_candidates_def)

lemma eval_role_grants_completes:
  "eval_role_grants now req fp ids bm gs allowed = Inr (Some b) \<Longrightarrow> \<exists>cs. role_candidates now ids bm gs = Inr cs"
proof (induction gs arbitrary: allowed)
  case (Cons g gs)
  show ?case
  proof (cases "(gr_OwnerKind g = PrincipalRole \<longrightarrow> gr_OwnerID g \<in> ids) \<and> \<not> IsExpiredAt g now")
    case True
    with Cons.prems obtain g' where g': "resolveGrantBindings g bm = Inr g'"
      "eval_role_grants now req fp ids bm gs (allowed \<or> allows now req fp g') = Inr (Some b)"
      unfolding eval_role_grants_Cons by (auto split: if_splits)
    then show ?thesis using True Cons.IH [OF g'(2)] by (auto simp: role_candidates_Cons)
  next
    case False
    then have "eval_role_grants now req fp ids bm gs allowed = Inr (Some b)"
      using Cons.prems unfolding eval_role_grants_Cons if_not_P [OF False] by blast
    from Cons.IH [OF this] show ?thesis unfolding role_candidates_Cons if_not_P [OF False] by blast
  qed
qed (simp add: role_candidates_def)

text \<open>Nothing that the check reads, apart from the expansion's own refresh, moves the view.\<close>

lemma fetchRoleGrants_cong: "same_view now s s' \<Longrightarrow> fetchRoleGrants now s' = fetchRoleGrants now s"
  by (intro ext) (simp add: fetchRoleGrants_def view_cong)

lemma assignment_grants_cong: "same_view now s s' \<Longrightarrow> assignment_grants now s' = assignment_grants now s"
  by (intro ext) (simp add: assignment_grants_def view_cong fetchRoleGrants_cong)

lemma eval_assignments_same_view:
  "expand_cache_ok now s cache \<Longrightarrow> same_view now s (snd (eval_assignments now req fp as cache allowed s))"
proof (induction as arbitrary: cache allowed s)
  case (Cons a as)
  obtain r cache' s' where run: "expandRolesCached now (ra_RoleID a) cache s = (r, cache', s')"
    using prod_cases3 by blast
  note view = expandRolesCached_view [OF Cons.prems run]
  have "expand_cache_ok now s' cache'" using view expand_cache_ok_cong by blast
  from same_view_trans [OF view(3) Cons.IH [OF this]] view(3) run show ?case
    by (auto split: sum.splits option.splits)
qed simp

text \<open>One assignment's share of the loop, with the cache explained away.\<close>

lemma eval_assignments_Cons:
  assumes ok: "expand_cache_ok now s cache"
  obtains cache' s' where "same_view now s s'" "expand_cache_ok now s' cache'"
    and "fst (eval_assignments now req fp (a # as) cache allowed s) =
      attempt (expand_view now s (ra_RoleID a)) (\<lambda>roleIDs.
      attempt (fetchRoleGrants now s roleIDs req) (\<lambda>gs.
      attempt (eval_role_grants now req fp (set roleIDs) [(ra_RoleID a, ra_BindingValues a)] gs allowed)
        (\<lambda>v. case v of None \<Rightarrow> Inr None
               | Some allowed' \<Rightarrow> fst (eval_assignments now req fp as cache' allowed' s'))))"
proof -
  obtain r cache' s' where run: "expandRolesCached now (ra_RoleID a) cache s = (r, cache', s')"
    using prod_cases3 by blast
  note view = expandRolesCached_view [OF ok run]
  have "expand_cache_ok now s' cache'" using view expand_cache_ok_cong by blast
  with view show ?thesis
    using run fetchRoleGrants_cong [OF view(3)]
    by (intro that [of s' cache']) (auto simp: attempt_def split: sum.splits option.splits)
qed

lemma eval_assignments_decides:
  "expand_cache_ok now s cache \<Longrightarrow> collect (assignment_grants now s req) as = Inr css \<Longrightarrow>
   fst (eval_assignments now req fp as cache allowed s) =
     Inr (if \<exists>g \<in> set (concat css). vetoes now req fp g then None
          else Some (allowed \<or> (\<exists>g \<in> set (concat css). allows now req fp g)))"
proof (induction as arbitrary: cache allowed s css)
  case (Cons a as)
  obtain cs css' where css: "css = cs # css'" "assignment_grants now s req a = Inr cs"
    "collect (assignment_grants now s req) as = Inr css'"
    using Cons.prems(2) by auto
  then obtain ids gs where ids: "expand_view now s (ra_RoleID a) = Inr ids"
    "fetchRoleGrants now s ids req = Inr gs"
    "role_candidates now (set ids) [(ra_RoleID a, ra_BindingValues a)] gs = Inr cs"
    by (auto simp: assignment_grants_def)
  note round = eval_role_grants_decides [OF ids(3), of req fp allowed]
  obtain cache' s' where step: "same_view now s s'" "expand_cache_ok now s' cache'"
    "fst (eval_assignments now req fp (a # as) cache allowed s) =
      attempt (expand_view now s (ra_RoleID a)) (\<lambda>roleIDs.
      attempt (fetchRoleGrants now s roleIDs req) (\<lambda>gs.
      attempt (eval_role_grants now req fp (set roleIDs) [(ra_RoleID a, ra_BindingValues a)] gs allowed)
        (\<lambda>v. case v of None \<Rightarrow> Inr None
               | Some allowed' \<Rightarrow> fst (eval_assignments now req fp as cache' allowed' s'))))"
    by (rule eval_assignments_Cons [OF Cons.prems(1)])
  have "collect (assignment_grants now s' req) as = Inr css'"
    using css(3) assignment_grants_cong [OF step(1)] by simp
  note IH = Cons.IH [OF step(2) this]
  show ?case unfolding step(3) using css(1) ids round by (auto simp: IH)
qed simp

lemma eval_assignments_completes:
  "expand_cache_ok now s cache \<Longrightarrow> fst (eval_assignments now req fp as cache allowed s) = Inr (Some b) \<Longrightarrow>
   \<exists>css. collect (assignment_grants now s req) as = Inr css"
proof (induction as arbitrary: cache allowed s)
  case (Cons a as)
  obtain cache' s' where step: "same_view now s s'" "expand_cache_ok now s' cache'"
    "fst (eval_assignments now req fp (a # as) cache allowed s) =
      attempt (expand_view now s (ra_RoleID a)) (\<lambda>roleIDs.
      attempt (fetchRoleGrants now s roleIDs req) (\<lambda>gs.
      attempt (eval_role_grants now req fp (set roleIDs) [(ra_RoleID a, ra_BindingValues a)] gs allowed)
        (\<lambda>v. case v of None \<Rightarrow> Inr None
               | Some allowed' \<Rightarrow> fst (eval_assignments now req fp as cache' allowed' s'))))"
    by (rule eval_assignments_Cons [OF Cons.prems(1)])
  from Cons.prems(2) [unfolded step(3)] obtain ids gs b' where ids:
    "expand_view now s (ra_RoleID a) = Inr ids" "fetchRoleGrants now s ids req = Inr gs"
    "eval_role_grants now req fp (set ids) [(ra_RoleID a, ra_BindingValues a)] gs allowed = Inr (Some b')"
    "fst (eval_assignments now req fp as cache' b' s') = Inr (Some b)"
    by (auto split: option.splits)
  obtain cs where "assignment_grants now s req a = Inr cs"
    using ids(1,2) eval_role_grants_completes [OF ids(3)] by (auto simp: assignment_grants_def)
  moreover obtain css where "collect (assignment_grants now s req) as = Inr css"
    using Cons.IH [OF step(2) ids(4)] assignment_grants_cong [OF step(1)] by auto
  ultimately show ?case by simp
qed simp

section \<open>The check decides by its candidate grants\<close>

lemma gather_eq:
  "attempt (resolveUserGroupIDs s (rq_UserID req)) (\<lambda>groupIDs.
     attempt (resolveUserTeamIDs s (rq_UserID req)) (\<lambda>teamIDs.
     attempt (resolveRoleAssignmentsForUserGroupsAndTeams s (rq_UserID req) groupIDs teamIDs) (\<lambda>roleAssignments.
     attempt (direct_grants now s (unbound_owners (rq_UserID req) groupIDs) req)
       (\<lambda>unboundGrants. Inr (roleAssignments, unboundGrants))))) =
   attempt (held_assignments s (rq_UserID req)) (\<lambda>as.
   attempt (own_grants now s req) (\<lambda>direct. Inr (as, direct)))"
  by (cases "resolveUserGroupIDs s (rq_UserID req)"; cases "resolveUserTeamIDs s (rq_UserID req)")
    (simp_all add: held_assignments_def own_grants_def)

lemma evaluatePermission_eq:
  fixes s :: "'s service"
  shows "evaluatePermission now s req fp =
     (if rq_Perm req = '''' then (Inl (Errorf ''permission name is required'' []), s)
      else
        case attempt (held_assignments s (rq_UserID req)) (\<lambda>as.
             attempt (own_grants now s req) (\<lambda>direct. Inr (as, direct))) of
          Inl e \<Rightarrow> (Inl e, s)
        | Inr (as, direct) \<Rightarrow>
            if \<exists>g \<in> set direct. vetoes now req fp g then (Inr False, s)
            else map_prod (map_sum id (\<lambda>v. v = Some True)) id
                   (eval_assignments now req fp as [] (\<exists>g \<in> set direct. allows now req fp g) s))"
proof -
  have loop: "(case r of (Inl e, s') \<Rightarrow> (Inl e, s') | (Inr None, s') \<Rightarrow> (Inr False, s')
      | (Inr (Some allowed'), s') \<Rightarrow> (Inr allowed', s')) =
    map_prod (map_sum id (\<lambda>v. v = Some True)) id r" for r :: "(goerror + bool option) \<times> 's service"
    by (auto split: prod.splits sum.splits option.splits)
  show ?thesis
    unfolding evaluatePermission_def gather_eq loop
    by (simp add: eval_direct_decides split: sum.split prod.split)
qed

lemma evaluatePermission_decides:
  assumes perm: "rq_Perm req \<noteq> ''''" and candidates: "candidate_grants now s req = Inr gs"
  shows "fst (evaluatePermission now s req fp) = Inr (decide now req fp (set gs))"
proof -
  obtain as direct css where parts: "held_assignments s (rq_UserID req) = Inr as"
    "own_grants now s req = Inr direct" "collect (assignment_grants now s req) as = Inr css"
    "gs = direct @ concat css"
    using candidates by (auto simp: candidate_grants_def)
  have "fst (eval_assignments now req fp as [] allowed s) =
      Inr (if \<exists>g \<in> set (concat css). vetoes now req fp g then None
           else Some (allowed \<or> (\<exists>g \<in> set (concat css). allows now req fp g)))" for allowed
    by (rule eval_assignments_decides) (simp_all add: parts(3))
  moreover have "set gs = set direct \<union> set (concat css)" by (simp add: parts(4))
  ultimately show ?thesis
    using perm parts(1,2) unfolding evaluatePermission_eq decide_def
    by (auto simp del: set_concat)
qed

text \<open>A positive answer needs every read to have succeeded.\<close>

lemma evaluatePermission_allowed:
  assumes "fst (evaluatePermission now s req fp) = Inr True"
  shows "rq_Perm req \<noteq> ''''" and "\<exists>gs. candidate_grants now s req = Inr gs"
proof -
  show perm: "rq_Perm req \<noteq> ''''" using assms by (auto simp: evaluatePermission_eq)
  obtain as direct where parts: "held_assignments s (rq_UserID req) = Inr as" "own_grants now s req = Inr direct"
    using assms perm by (auto simp: evaluatePermission_eq attempt_def split: sum.splits)
  then have "fst (eval_assignments now req fp as [] (\<exists>g \<in> set direct. allows now req fp g) s) = Inr (Some True)"
    using assms perm
    by (cases "fst (eval_assignments now req fp as [] (\<exists>g \<in> set direct. allows now req fp g) s)")
      (auto simp: evaluatePermission_eq split: if_splits)
  from eval_assignments_completes [OF expand_cache_ok_Nil this] parts
  show "\<exists>gs. candidate_grants now s req = Inr gs" by (auto simp: candidate_grants_def)
qed

lemma evaluatePermission_same_view: "same_view now s (snd (evaluatePermission now s req fp))"
  using eval_assignments_same_view [OF expand_cache_ok_Nil]
  by (auto simp: evaluatePermission_eq split: sum.splits)

lemma held_assignments_cache [simp]:
  "held_assignments (s\<lparr>sv_disabledCache := cache, sv_disabledCacheAt := at\<rparr>) = held_assignments s"
proof -
  let ?s = "s\<lparr>sv_disabledCache := cache, sv_disabledCacheAt := at\<rparr>"
  have role: "assignment_role ?s = assignment_role s"
    by (intro ext) (simp add: assignment_role_def)
  have unique: "appendUnique ?s as acc = appendUnique s as acc" for as acc
    by (induction as arbitrary: acc) (auto simp: role split: option.split)
  have "append_all ?s ps acc = append_all s ps acc" for ps acc
    by (induction ps arbitrary: acc) (simp_all add: unique)
  moreover have "syntheticRoleAssignments ?s = syntheticRoleAssignments s"
    by (intro ext) (simp add: syntheticRoleAssignments_def)
  moreover have "resolveUserGroupIDs ?s = resolveUserGroupIDs s" "resolveUserTeamIDs ?s = resolveUserTeamIDs s"
    by (simp_all add: fun_eq_iff resolveUserGroupIDs_def resolveUserTeamIDs_def)
  ultimately show ?thesis
    by (simp add: fun_eq_iff held_assignments_def resolveRoleAssignmentsForUserGroupsAndTeams_def unique)
qed

lemma own_grants_cache [simp]:
  "own_grants now (s\<lparr>sv_disabledCache := cache, sv_disabledCacheAt := at\<rparr>) = own_grants now s"
  by (rule ext) (simp add: own_grants_def direct_grants_def resolveUserGroupIDs_def cong: if_cong)

lemma held_assignments_refresh [simp]: "held_assignments (refresh now s) = held_assignments s"
  using refresh_update [of now s] by auto

lemma own_grants_refresh [simp]: "own_grants now (refresh now' s) req = own_grants now s req"
  using refresh_update [of now' s] by auto

lemma candidate_grants_cong: "same_view now s s' \<Longrightarrow> candidate_grants now s' req = candidate_grants now s req"
  using assignment_grants_cong [of now s s'] by (auto simp: candidate_grants_def same_view_def)

section \<open>Checks at later instants\<close>

lemma alike_candidates:
  assumes "alike now s s'"
  shows "fetchRoleGrants now s' = fetchRoleGrants now s" "candidate_grants now s' = candidate_grants now s"
    "held_assignments s' = held_assignments s" "own_grants now s' = own_grants now s"
proof -
  show fetch: "fetchRoleGrants now s' = fetchRoleGrants now s"
    by (intro ext) (simp add: fetchRoleGrants_def alike_frame [OF assms])
  have "assignment_grants now s' = assignment_grants now s"
    by (intro ext) (simp add: assignment_grants_def alike_view [OF assms] fetch)
  moreover show "held_assignments s' = held_assignments s" "own_grants now s' = own_grants now s"
    using assms by (auto simp: alike_def)
  ultimately show "candidate_grants now s' = candidate_grants now s"
    by (intro ext) (simp add: candidate_grants_def)
qed

lemma eval_assignments_alike:
  "alike now s t \<Longrightarrow> expand_cache_ok now s cache \<Longrightarrow> expand_cache_ok now t cache' \<Longrightarrow>
   fst (eval_assignments now req fp as cache allowed s) = fst (eval_assignments now req fp as cache' allowed t)"
proof (induction as arbitrary: cache cache' allowed s t)
  case (Cons a as)
  obtain c1 s1 where s1: "same_view now s s1" "expand_cache_ok now s1 c1"
    "fst (eval_assignments now req fp (a # as) cache allowed s) =
      attempt (expand_view now s (ra_RoleID a)) (\<lambda>roleIDs.
      attempt (fetchRoleGrants now s roleIDs req) (\<lambda>gs.
      attempt (eval_role_grants now req fp (set roleIDs) [(ra_RoleID a, ra_BindingValues a)] gs allowed)
        (\<lambda>v. case v of None \<Rightarrow> Inr None
               | Some allowed' \<Rightarrow> fst (eval_assignments now req fp as c1 allowed' s1))))"
    by (rule eval_assignments_Cons [OF Cons.prems(2)])
  obtain c2 t1 where t1: "same_view now t t1" "expand_cache_ok now t1 c2"
    "fst (eval_assignments now req fp (a # as) cache' allowed t) =
      attempt (expand_view now t (ra_RoleID a)) (\<lambda>roleIDs.
      attempt (fetchRoleGrants now t roleIDs req) (\<lambda>gs.
      attempt (eval_role_grants now req fp (set roleIDs) [(ra_RoleID a, ra_BindingValues a)] gs allowed)
        (\<lambda>v. case v of None \<Rightarrow> Inr None
               | Some allowed' \<Rightarrow> fst (eval_assignments now req fp as c2 allowed' t1))))"
    by (rule eval_assignments_Cons [OF Cons.prems(3)])
  note IH = Cons.IH [OF alike_step [OF Cons.prems(1) s1(1) t1(1)] s1(2) t1(2)]
  show ?case
    unfolding s1(3) t1(3) alike_view(2) [OF Cons.prems(1)] alike_candidates(1) [OF Cons.prems(1)] IH ..
qed simp

lemma evaluatePermission_alike:
  "alike now s t \<Longrightarrow> fst (evaluatePermission now s req fp) = fst (evaluatePermission now t req fp)"
  using eval_assignments_alike [of now s t "[]" "[]"]
  by (auto simp: evaluatePermission_eq alike_candidates split: sum.split)

section \<open>Fields\<close>

lemma fieldPathMatches_nested:
  assumes "clean p" "clean (p @ ''.'' @ q)" "fieldPathMatches gp p"
  shows "fieldPathMatches gp (p @ ''.'' @ q)"
  using assms by (auto simp: fieldPathMatches_def Let_def HasPrefix_def TrimSpace_clean split: if_splits)

text \<open>Permission on a nested field gives permission on the field around it, and permission on any
  field gives the permission itself.\<close>

lemma decide_enclosing_field:
  assumes "clean p" "clean (p @ ''.'' @ q)" "decide now req (Some (p @ ''.'' @ q)) G"
  shows "decide now req (Some p) G"
proof -
  have nested: "list_ex (\<lambda>r. fieldPathMatches r p) rs \<Longrightarrow> list_ex (\<lambda>r. fieldPathMatches r (p @ ''.'' @ q)) rs" for rs
    using fieldPathMatches_nested [OF assms(1,2)] by (auto simp: list_ex_iff)
  have "allows now req (Some (p @ ''.'' @ q)) g \<Longrightarrow> allows now req (Some p) g" for g
    using nested [of "gr_RestrictedFields g"]
    by (auto simp: verdict_defs grantMatchesFieldPath_def split: if_splits)
  moreover have "vetoes now req (Some p) g \<Longrightarrow> vetoes now req (Some (p @ ''.'' @ q)) g" for g
    using nested [of "gr_RestrictedFields g"]
    by (auto simp: verdict_defs grantMatchesFieldPath_def split: if_splits)
  ultimately show ?thesis using assms(3) by (auto simp: decide_def)
qed

lemma decide_field_permission: "decide now req (Some p) G \<Longrightarrow> decide now req None G"
  by (force simp: decide_def verdict_defs grantMatchesFieldPath_def split: if_splits)

lemma HasFieldPermission_decides:
  assumes "rq_Perm req \<noteq> ''''" "candidate_grants now s req = Inr gs"
    and "\<not> isIndexedFieldPath p" "TrimSpace p \<noteq> ''''"
  shows "fst (HasFieldPermission now s req p) = Inr (decide now req (Some p) (set gs))"
  using assms by (simp add: HasFieldPermission_def evaluatePermission_decides)

lemma HasFieldPermission_same_view: "same_view now s (snd (HasFieldPermission now s req p))"
  by (simp add: HasFieldPermission_def evaluatePermission_same_view)

lemma filter_fields_decides:
  assumes perm: "rq_Perm req \<noteq> ''''"
  shows "candidate_grants now s req = Inr gs \<Longrightarrow>
   \<forall>p \<in> set paths. \<not> isIndexedFieldPath p \<and> TrimSpace p \<noteq> '''' \<Longrightarrow>
   fst (filter_fields now req paths seen result s) =
     Inr (result @ filter (\<lambda>p. decide now req (Some p) (set gs)) (fresh seen paths))"
proof (induction paths arbitrary: s seen result)
  case (Cons p paths)
  obtain r s' where run: "HasFieldPermission now s req p = (r, s')" by fastforce
  then have "r = Inr (decide now req (Some p) (set gs))"
    using HasFieldPermission_decides [OF perm Cons.prems(1), of p] Cons.prems(2) by simp
  moreover have "candidate_grants now s' req = Inr gs"
    using candidate_grants_cong [OF HasFieldPermission_same_view [of now s req p]] run Cons.prems(1) by simp
  ultimately show ?case using Cons run by simp
qed simp

lemma FilterPermittedFields_decides:
  assumes "rq_Perm req \<noteq> ''''" "candidate_grants now s req = Inr gs"
    and "\<forall>p \<in> set paths. \<not> isIndexedFieldPath p \<and> TrimSpace p \<noteq> ''''"
  shows "fst (FilterPermittedFields now s req paths) =
    Inr (filter (\<lambda>p. decide now req (Some p) (set gs)) (fold push_new paths []))"
  using filter_fields_decides [OF assms, of "{}" "[]"] by (simp add: FilterPermittedFields_def fold_push_new)

end
