(* ===== verification/Service_Admin.thy ===== *)
theory Service_Admin
  imports Evaluation
begin

text \<open>
  The writing side of the service (\<open>service.go\<close>): roles, grants, assignments, built-in seeding and
  the switches of built-in roles, each routed to the registry or to the store by the prefix of the
  role ID; and the reading operations that combine both. The lemmas relate the writes to the
  permission check.
\<close>

section \<open>Routing\<close>

text \<open>A call of the store or of the registry, as a step of the service.\<close>

definition on_store :: "'s service \<Rightarrow> 's update \<Rightarrow> 's service update" where
  "on_store s r = map_prod id (\<lambda>st. s\<lparr>sv_store := st\<rparr>) r"

definition on_registry :: "'s service \<Rightarrow> built_in_registry update \<Rightarrow> 's service update" where
  "on_registry s r = map_prod id (\<lambda>reg. s\<lparr>sv_builtIns := reg\<rparr>) r"

lemma on_store_simps [simp]:
  "on_store s (e, st) = (e, s\<lparr>sv_store := st\<rparr>)" "on_registry s (e, reg) = (e, s\<lparr>sv_builtIns := reg\<rparr>)"
  by (simp_all add: on_store_def on_registry_def)

section \<open>Grants\<close>

definition service_CreateGrant :: "'s service \<Rightarrow> grant \<Rightarrow> 's service update" where
  "service_CreateGrant s g =
     (if gr_OwnerID g = '''' then (Some (Errorf ''owner ID is required'' []), s)
      else if gr_PermissionName g = '''' then (Some (Errorf ''permission name is required'' []), s)
      else if gr_TeamScope g = '''' then (Some (Errorf ''team scope is required'' []), s)
      else if gr_OwnerKind g = PrincipalRole \<and> HasPrefix (gr_OwnerID g) BuiltInPrefix
        then on_registry s (builtIn_AddGrant (sv_builtIns s) g)
      else on_store s (op_CreateGrant (sv_ops s) (sv_store s) g))"

definition new_grant ::
  "principal_kind \<Rightarrow> string \<Rightarrow> effect \<Rightarrow> string \<Rightarrow> string option \<Rightarrow> string \<Rightarrow> time option \<Rightarrow> grant" where
  "new_grant ownerKind ownerID eff teamScope objectScope permission expiresAt =
     \<lparr>gr_ID = 0, gr_OwnerKind = ownerKind, gr_OwnerID = ownerID, gr_Effect = eff,
      gr_TeamScope = teamScope, gr_ObjectScope = objectScope, gr_PermissionName = permission,
      gr_ExpiresAt = expiresAt, gr_RestrictedFields = [], gr_VariableSpec = None\<rparr>"

lemma new_grant_simps [simp]:
  "gr_OwnerKind (new_grant k i e t ob p x) = k" "gr_OwnerID (new_grant k i e t ob p x) = i"
  "gr_Effect (new_grant k i e t ob p x) = e" "gr_TeamScope (new_grant k i e t ob p x) = t"
  "gr_ObjectScope (new_grant k i e t ob p x) = ob" "gr_PermissionName (new_grant k i e t ob p x) = p"
  "gr_ExpiresAt (new_grant k i e t ob p x) = x" "gr_RestrictedFields (new_grant k i e t ob p x) = []"
  "gr_VariableSpec (new_grant k i e t ob p x) = None" "wf_grant (new_grant k i e t ob p x)"
  by (simp_all add: new_grant_def wf_grant_def)

definition AllowUser :: "'s service \<Rightarrow> string \<Rightarrow> string \<Rightarrow> string option \<Rightarrow> 's service update" where
  "AllowUser s userID permission objectID =
     service_CreateGrant s
       (new_grant PrincipalUser userID EffectAllow ''*'' (cloneStringPointer objectID) permission None)"

definition AllowUserUntil ::
  "'s service \<Rightarrow> string \<Rightarrow> string \<Rightarrow> string option \<Rightarrow> time \<Rightarrow> 's service update" where
  "AllowUserUntil s userID permission objectID expiresAt =
     service_CreateGrant s
       (new_grant PrincipalUser userID EffectAllow ''*'' (cloneStringPointer objectID) permission
         (cloneTimePointer (Some expiresAt)))"

definition AllowUserFor ::
  "time \<Rightarrow> 's service \<Rightarrow> string \<Rightarrow> string \<Rightarrow> string option \<Rightarrow> int \<Rightarrow> 's service update" where
  "AllowUserFor now s userID permission objectID ttl =
     (if ttl \<le> 0 then (Some (Errorf ''ttl must be greater than zero'' []), s)
      else AllowUserUntil s userID permission objectID (now + ttl))"

definition DenyUser :: "'s service \<Rightarrow> string \<Rightarrow> string \<Rightarrow> string option \<Rightarrow> 's service update" where
  "DenyUser s userID permission objectID =
     service_CreateGrant s
       (new_grant PrincipalUser userID EffectDeny ''*'' (cloneStringPointer objectID) permission None)"

definition DenyUserUntil ::
  "'s service \<Rightarrow> string \<Rightarrow> string \<Rightarrow> string option \<Rightarrow> time \<Rightarrow> 's service update" where
  "DenyUserUntil s userID permission objectID expiresAt =
     service_CreateGrant s
       (new_grant PrincipalUser userID EffectDeny ''*'' (cloneStringPointer objectID) permission
         (cloneTimePointer (Some expiresAt)))"

definition DenyUserFor ::
  "time \<Rightarrow> 's service \<Rightarrow> string \<Rightarrow> string \<Rightarrow> string option \<Rightarrow> int \<Rightarrow> 's service update" where
  "DenyUserFor now s userID permission objectID ttl =
     (if ttl \<le> 0 then (Some (Errorf ''ttl must be greater than zero'' []), s)
      else DenyUserUntil s userID permission objectID (now + ttl))"

definition AllowRole :: "'s service \<Rightarrow> string \<Rightarrow> string \<Rightarrow> string option \<Rightarrow> 's service update" where
  "AllowRole s roleID permission objectID =
     service_CreateGrant s
       (new_grant PrincipalRole roleID EffectAllow ''*'' (cloneStringPointer objectID) permission None)"

definition AllowRoleUntil ::
  "'s service \<Rightarrow> string \<Rightarrow> string \<Rightarrow> string option \<Rightarrow> time \<Rightarrow> 's service update" where
  "AllowRoleUntil s roleID permission objectID expiresAt =
     service_CreateGrant s
       (new_grant PrincipalRole roleID EffectAllow ''*'' (cloneStringPointer objectID) permission
         (cloneTimePointer (Some expiresAt)))"

definition AllowRoleFor ::
  "time \<Rightarrow> 's service \<Rightarrow> string \<Rightarrow> string \<Rightarrow> string option \<Rightarrow> int \<Rightarrow> 's service update" where
  "AllowRoleFor now s roleID permission objectID ttl =
     (if ttl \<le> 0 then (Some (Errorf ''ttl must be greater than zero'' []), s)
      else AllowRoleUntil s roleID permission objectID (now + ttl))"

text \<open>A panic leaves the service as it was.\<close>

definition AddDefaultGrant :: "'s service \<Rightarrow> string \<Rightarrow> string \<Rightarrow> string \<Rightarrow> 's service update" where
  "AddDefaultGrant s roleID0 permission0 teamScope0 =
     (let roleID = TrimSpace roleID0; permission = TrimSpace permission0; teamScope = TrimSpace teamScope0 in
      if roleID = '''' then (Some (GoPanic ''role ID is required''), s)
      else if permission = '''' then (Some (GoPanic ''permission name is required''), s)
      else
        let teamScope = (if teamScope = '''' then ''*'' else teamScope);
            roleID = (if \<not> HasPrefix roleID BuiltInPrefix then BuiltInPrefix @ roleID else roleID)
        in (None, snd (on_registry s (builtIn_AddGrant (sv_builtIns s)
              (new_grant PrincipalRole roleID EffectAllow teamScope None permission None)))))"

fun validated_grants :: "grant list \<Rightarrow> grant list result" where
  "validated_grants [] = Inr []"
| "validated_grants (g # gs) =
     (if gr_OwnerID g = '''' then Inl (Errorf ''owner ID is required'' [])
      else if gr_PermissionName g = '''' then Inl (Errorf ''permission name is required'' [])
      else if gr_TeamScope g = '''' then Inl (Errorf ''team scope is required'' [])
      else attempt (validated_grants gs) (\<lambda>gs'. Inr (cloneGrant g # gs')))"

fun create_each :: "'s store_ops \<Rightarrow> 's \<Rightarrow> grant list \<Rightarrow> 's update" where
  "create_each ops st [] = (None, st)"
| "create_each ops st (g # gs) =
     (case op_CreateGrant ops st g of
        (Some e, st') \<Rightarrow> (Some e, st')
      | (None, st') \<Rightarrow> create_each ops st' gs)"

definition service_CreateGrants :: "'s service \<Rightarrow> grant list \<Rightarrow> 's service update" where
  "service_CreateGrants s grants =
     (if grants = [] then (None, s)
      else case validated_grants grants of
             Inl e \<Rightarrow> (Some e, s)
           | Inr validated \<Rightarrow>
               (case op_BulkCreateGrants (sv_ops s) of
                  Some bulk \<Rightarrow> on_store s (bulk (sv_store s) validated)
                | None \<Rightarrow> on_store s (create_each (sv_ops s) (sv_store s) validated)))"

text \<open>Whether an equivalent active grant is stored for the owner.\<close>

definition grant_exists :: "time \<Rightarrow> 's service \<Rightarrow> grant \<Rightarrow> bool result" where
  "grant_exists now s g =
     (if gr_OwnerID g = '''' then Inl (Errorf ''owner ID is required'' [])
      else if gr_PermissionName g = '''' then Inl (Errorf ''permission name is required'' [])
      else if gr_TeamScope g = '''' then Inl (Errorf ''team scope is required'' [])
      else case PrincipalRef_Validate (grant_owner g) of
             Some e \<Rightarrow> Inl e
           | None \<Rightarrow>
               attempt (op_GrantsForPrincipal (sv_ops s) now (sv_store s) (grant_owner g)) (\<lambda>existing.
               Inr (list_ex (\<lambda>current. \<not> IsExpiredAt current now \<and> grantsEquivalent current g) existing)))"

fun missing_grants :: "time \<Rightarrow> 's service \<Rightarrow> grant list \<Rightarrow> grant list result" where
  "missing_grants now s [] = Inr []"
| "missing_grants now s (g # gs) =
     attempt (grant_exists now s g) (\<lambda>exists.
     attempt (missing_grants now s gs) (\<lambda>missing.
     Inr (if exists then missing else cloneGrant g # missing)))"

definition EnsureGrantsForOwners :: "time \<Rightarrow> 's service \<Rightarrow> grant list \<Rightarrow> 's service update" where
  "EnsureGrantsForOwners now s grants =
     (if grants = [] then (None, s)
      else case missing_grants now s grants of
             Inl e \<Rightarrow> (Some e, s)
           | Inr missing \<Rightarrow> service_CreateGrants s missing)"

definition EnsureGrantForOwner :: "time \<Rightarrow> 's service \<Rightarrow> grant \<Rightarrow> 's service update" where
  "EnsureGrantForOwner now s g =
     (case grant_exists now s g of
        Inl e \<Rightarrow> (Some e, s)
      | Inr True \<Rightarrow> (None, s)
      | Inr False \<Rightarrow> on_store s (op_CreateGrant (sv_ops s) (sv_store s) g))"

definition service_DeleteGrantsForOwner :: "'s service \<Rightarrow> principal_kind \<Rightarrow> string \<Rightarrow> 's service update" where
  "service_DeleteGrantsForOwner s ownerKind ownerID =
     (if ownerKind = PrincipalRole \<and> HasPrefix ownerID BuiltInPrefix
      then (Some (Errorf ''cannot delete grants for built-in role: %s'' [ownerID]), s)
      else on_store s (op_DeleteGrantsForOwner (sv_ops s) (sv_store s) ownerKind ownerID))"

definition service_GrantsForPrincipal :: "time \<Rightarrow> 's service \<Rightarrow> principal_ref \<Rightarrow> grant list result" where
  "service_GrantsForPrincipal now s who =
     (if pr_Kind who = PrincipalRole \<and> HasPrefix (pr_ID who) BuiltInPrefix
      then Inr (builtIn_GrantsForOwners now (sv_builtIns s) [who] zero_request)
      else op_GrantsForPrincipal (sv_ops s) now (sv_store s) who)"

definition service_GrantsForOwners ::
  "time \<Rightarrow> 's service \<Rightarrow> principal_ref list \<Rightarrow> request \<Rightarrow> grant list result" where
  "service_GrantsForOwners now s owners req =
     (let in_registry = (\<lambda>p. pr_Kind p = PrincipalRole \<and> HasPrefix (pr_ID p) BuiltInPrefix);
          builtInOwners = filter in_registry owners;
          customOwners = filter (\<lambda>p. \<not> in_registry p) owners;
          builtInGrants = (if builtInOwners = [] then []
                           else builtIn_GrantsForOwners now (sv_builtIns s) builtInOwners req)
      in if customOwners = [] then Inr builtInGrants
         else attempt (op_GrantsForOwners (sv_ops s) now (sv_store s) customOwners req)
                (\<lambda>cg. Inr (builtInGrants @ cg)))"

definition service_PrincipalsWithGrant :: "time \<Rightarrow> 's service \<Rightarrow> request \<Rightarrow> principal_hit list result" where
  "service_PrincipalsWithGrant now s req = op_PrincipalsWithGrant (sv_ops s) now (sv_store s) req"

section \<open>Roles\<close>

definition service_CreateRole :: "'s service \<Rightarrow> role \<Rightarrow> 's service update" where
  "service_CreateRole s role =
     (if HasPrefix (ro_ID role) BuiltInPrefix
      then on_registry s (builtIn_RegisterRole (sv_builtIns s) role)
      else on_store s (op_CreateRole (sv_ops s) (sv_store s) role))"

definition service_AddRoleInheritance :: "'s service \<Rightarrow> string \<Rightarrow> string \<Rightarrow> 's service update" where
  "service_AddRoleInheritance s parentRoleID childRoleID =
     (if HasPrefix parentRoleID BuiltInPrefix \<and> HasPrefix childRoleID BuiltInPrefix
      then on_registry s (builtIn_AddRoleInheritance (sv_builtIns s) parentRoleID childRoleID)
      else on_store s (op_AddRoleInheritance (sv_ops s) (sv_store s) parentRoleID childRoleID))"

definition service_UpdateRole :: "'s service \<Rightarrow> role \<Rightarrow> 's service update" where
  "service_UpdateRole s role =
     (if HasPrefix (ro_ID role) BuiltInPrefix
      then (Some (Errorf ''cannot update built-in role: %s'' [ro_ID role]), s)
      else on_store s (op_UpdateRole (sv_ops s) (sv_store s) role))"

definition service_DeleteRole :: "'s service \<Rightarrow> string \<Rightarrow> 's service update" where
  "service_DeleteRole s roleID =
     (if HasPrefix roleID BuiltInPrefix
      then (Some (Errorf ''cannot delete built-in role: %s'' [roleID]), s)
      else on_store s (op_DeleteRole (sv_ops s) (sv_store s) roleID))"

definition ensureRoleExists :: "'s service \<Rightarrow> role \<Rightarrow> 's service update" where
  "ensureRoleExists s role =
     (if ro_ID role = '''' then (Some (Errorf ''role ID is required'' []), s)
      else if ro_Name role = '''' then (Some (Errorf ''role name is required'' []), s)
      else if HasPrefix (ro_ID role) BuiltInPrefix
        then on_registry s (builtIn_RegisterRole (sv_builtIns s) role)
      else on_store s (op_CreateRole (sv_ops s) (sv_store s) role))"

definition synthetic_roles :: "'s service \<Rightarrow> role list" where
  "synthetic_roles s =
     (let role = (\<lambda>id' description. if id' \<noteq> ''''
            then [zero_role\<lparr>ro_ID := id', ro_Name := id', ro_Description := description\<rparr>] else []) in
      role (sv_publicRoleID s) ''synthetic public role'' @
      role (sv_authenticatedRoleID s) ''synthetic authenticated role'' @
      role (sv_adminRoleID s) ''synthetic admin role'')"

fun ensure_roles :: "role list \<Rightarrow> string set \<Rightarrow> 's service \<Rightarrow> 's service update" where
  "ensure_roles [] seen s = (None, s)"
| "ensure_roles (role # rest) seen s =
     (if ro_ID role = '''' \<or> ro_ID role \<in> seen then ensure_roles rest seen s
      else case ensureRoleExists s role of
             (Some e, s') \<Rightarrow> (Some e, s')
           | (None, s') \<Rightarrow> ensure_roles rest (insert (ro_ID role) seen) s')"

definition EnsureSyntheticRoles :: "'s service \<Rightarrow> 's service update" where
  "EnsureSyntheticRoles s = ensure_roles (synthetic_roles s) {} s"

fun seed_grants :: "grant list \<Rightarrow> 's service \<Rightarrow> 's service update" where
  "seed_grants [] s = (None, s)"
| "seed_grants (g # gs) s =
     (if gr_OwnerKind g \<noteq> PrincipalRole
      then (Some (Errorf ''save built-ins only supports role-owned grants'' []), s)
      else case on_registry s (builtIn_AddGrant (sv_builtIns s) g) of
             (Some e, s') \<Rightarrow> (Some e, s')
           | (None, s') \<Rightarrow> seed_grants gs s')"

definition SaveBuiltIns :: "'s service \<Rightarrow> grant list \<Rightarrow> 's service update" where
  "SaveBuiltIns s grants =
     (case EnsureSyntheticRoles s of
        (Some e, s') \<Rightarrow> (Some e, s')
      | (None, s') \<Rightarrow> seed_grants grants s')"

definition SetBuiltInGrants :: "'s service \<Rightarrow> grant list \<Rightarrow> 's service" where
  "SetBuiltInGrants s grants = snd (SaveBuiltIns s grants)"

definition syntheticRoleIDSet :: "'s service \<Rightarrow> string set" where
  "syntheticRoleIDSet s =
     {sv_publicRoleID s, sv_authenticatedRoleID s, sv_adminRoleID s} - {''''}"

text \<open>\<open>AddBuiltInRole\<close> and \<open>AddBuiltInTeamRole\<close> differ in the grant they seed per permission.\<close>

fun seed_permissions :: "string \<Rightarrow> (string \<Rightarrow> grant) \<Rightarrow> string list \<Rightarrow> 's service \<Rightarrow> 's service update" where
  "seed_permissions roleID grant_for [] s = (None, s)"
| "seed_permissions roleID grant_for (perm # perms) s =
     (case on_registry s (builtIn_AddGrant (sv_builtIns s) (grant_for perm)) of
        (Some e, s') \<Rightarrow> (Some (Wrapf ''failed to seed grant for built-in role %s: %w'' [roleID] e), s')
      | (None, s') \<Rightarrow> seed_permissions roleID grant_for perms s')"

definition add_built_in :: "(string \<Rightarrow> string \<Rightarrow> grant) \<Rightarrow> 's service \<Rightarrow> role \<Rightarrow> 's service update" where
  "add_built_in grant_for s role0 =
     (if ro_ID role0 = '''' then (Some (Errorf ''role ID is required'' []), s)
      else if ro_Name role0 = '''' then (Some (Errorf ''role name is required'' []), s)
      else
        let roleID = (if \<not> HasPrefix (ro_ID role0) BuiltInPrefix then BuiltInPrefix @ ro_ID role0 else ro_ID role0);
            role = role0\<lparr>ro_ID := roleID, ro_BuiltIn := True\<rparr>
        in case on_registry s (builtIn_RegisterRole (sv_builtIns s) role) of
             (Some e, s') \<Rightarrow> (Some (Wrapf ''failed to register built-in role %s: %w'' [roleID] e), s')
           | (None, s') \<Rightarrow> seed_permissions roleID (grant_for roleID) (ro_Permissions role) s')"

definition AddBuiltInRole :: "'s service \<Rightarrow> role \<Rightarrow> 's service update" where
  "AddBuiltInRole = add_built_in (\<lambda>roleID perm.
     new_grant PrincipalRole roleID EffectAllow ''*'' None perm None)"

definition AddBuiltInTeamRole :: "'s service \<Rightarrow> role \<Rightarrow> 's service update" where
  "AddBuiltInTeamRole = add_built_in (\<lambda>roleID perm.
     (new_grant PrincipalRole roleID EffectAllow ''?team'' None perm None)
       \<lparr>gr_VariableSpec := Some [(''team'', GString ''required'')]\<rparr>)"

definition service_DisableBuiltInRole :: "'s service \<Rightarrow> string \<Rightarrow> 's service update" where
  "service_DisableBuiltInRole s roleID =
     (case on_store s (op_DisableBuiltInRole (sv_ops s) (sv_store s) roleID) of
        (Some e, s') \<Rightarrow> (Some e, s')
      | (None, s') \<Rightarrow> (None, invalidateDisabledCache s'))"

definition service_EnableBuiltInRole :: "'s service \<Rightarrow> string \<Rightarrow> 's service update" where
  "service_EnableBuiltInRole s roleID =
     (case on_store s (op_EnableBuiltInRole (sv_ops s) (sv_store s) roleID) of
        (Some e, s') \<Rightarrow> (Some e, s')
      | (None, s') \<Rightarrow> (None, invalidateDisabledCache s'))"

definition service_DisabledBuiltInRoles :: "'s service \<Rightarrow> string list result" where
  "service_DisabledBuiltInRoles s = op_DisabledBuiltInRoles (sv_ops s) (sv_store s)"

text \<open>\<open>RoleDefinitions\<close>: the registry's roles, overridden by the store's, in the order of their IDs.\<close>

definition merge_roles :: "role list \<Rightarrow> (string, role) gomap \<Rightarrow> (string, role) gomap" where
  "merge_roles roles m = fold (\<lambda>r acc. AList.update (ro_ID r) r acc) roles m"

definition service_RoleDefinitions :: "time \<Rightarrow> 's service \<Rightarrow> role list result \<times> 's service" where
  "service_RoleDefinitions now s =
     (let (d, s') = getDisabledBuiltInRoles now s;
          disabledMap = (case d of Inl e \<Rightarrow> {} | Inr m \<Rightarrow> m);
          builtInRoles = map (\<lambda>r. if ro_ID r \<in> disabledMap then r\<lparr>ro_IsDisabled := True\<rparr> else r)
                           (builtIn_Roles (sv_builtIns s'));
          dbRoles = (case op_RoleDefinitions (sv_ops s') (sv_store s') of Inl e \<Rightarrow> [] | Inr rs \<Rightarrow> rs);
          rolesByID = merge_roles dbRoles (merge_roles builtInRoles [])
      in (Inr (sort_key ro_ID (map snd rolesByID)), s'))"

definition service_RoleDefinitionsByScope ::
  "time \<Rightarrow> 's service \<Rightarrow> role_scope \<Rightarrow> role list result \<times> 's service" where
  "service_RoleDefinitionsByScope now s scope =
     (case service_RoleDefinitions now s of
        (Inl e, s') \<Rightarrow> (Inl e, s')
      | (Inr allRoles, s') \<Rightarrow> (Inr (filter (\<lambda>r. ro_Scope r = scope) allRoles), s'))"

text \<open>\<open>strings.EqualFold\<close>: the texts are equal once every character is replaced by \<open>folded\<close>.\<close>

definition service_RoleDefinitionsByTag ::
  "(string \<Rightarrow> string) \<Rightarrow> time \<Rightarrow> 's service \<Rightarrow> string \<Rightarrow> role list result \<times> 's service" where
  "service_RoleDefinitionsByTag folded now s tag =
     (let tag = TrimSpace tag in
      if tag = '''' then (Inr [], s)
      else case service_RoleDefinitions now s of
        (Inl e, s') \<Rightarrow> (Inl e, s')
      | (Inr allRoles, s') \<Rightarrow> (Inr (filter (\<lambda>r. list_ex (\<lambda>t. folded t = folded tag) (ro_Tags r)) allRoles), s'))"

lemma roles_by_tag_are_roles:
  assumes "service_RoleDefinitionsByTag folded now s tag = (Inr roles, s')" "r \<in> set roles"
  shows "\<exists>allRoles. service_RoleDefinitions now s = (Inr allRoles, s') \<and> r \<in> set allRoles \<and>
    (\<exists>t \<in> set (ro_Tags r). folded t = folded (TrimSpace tag))"
  using assms by (auto simp: service_RoleDefinitionsByTag_def Let_def list_ex_iff split: if_splits prod.splits sum.splits)

section \<open>Assignments\<close>

definition service_AssignRole ::
  "'s service \<Rightarrow> principal_ref \<Rightarrow> string \<Rightarrow> bindings \<Rightarrow> 's service update" where
  "service_AssignRole s who roleID bindingValues =
     on_store s (op_AssignRole (sv_ops s) (sv_store s) who roleID (builtIn_Roles (sv_builtIns s)) bindingValues)"

definition AssignRoleToUser :: "'s service \<Rightarrow> string \<Rightarrow> string \<Rightarrow> bindings \<Rightarrow> 's service update" where
  "AssignRoleToUser s userID roleID bindingValues =
     (if userID = '''' then (Some (Errorf ''user ID is required'' []), s)
      else if roleID = '''' then (Some (Errorf ''role ID is required'' []), s)
      else on_store s (op_AssignRole (sv_ops s) (sv_store s) \<lparr>pr_Kind = PrincipalUser, pr_ID = userID\<rparr> roleID
             (builtIn_Roles (sv_builtIns s)) (copy_map bindingValues)))"

definition service_UnassignRole ::
  "'s service \<Rightarrow> principal_ref \<Rightarrow> string \<Rightarrow> bindings \<Rightarrow> 's service update" where
  "service_UnassignRole s who roleID bindingValues =
     on_store s (op_UnassignRole (sv_ops s) (sv_store s) who roleID (builtIn_Roles (sv_builtIns s)) bindingValues)"

definition service_RoleAssignmentsForPrincipal :: "'s service \<Rightarrow> principal_ref \<Rightarrow> role_assignment list result" where
  "service_RoleAssignmentsForPrincipal s who = op_RoleAssignmentsForPrincipal (sv_ops s) (sv_store s) who"

definition service_RoleAssignmentsForRoleID :: "'s service \<Rightarrow> string \<Rightarrow> role_assignment_hit list result" where
  "service_RoleAssignmentsForRoleID s roleID = op_RoleAssignmentsForRoleID (sv_ops s) (sv_store s) roleID"

section \<open>Expansion of a list of roles\<close>

fun filter_expanded :: "time \<Rightarrow> string set \<Rightarrow> string list \<Rightarrow> string set \<Rightarrow> 's service \<Rightarrow> string list \<times> 's service" where
  "filter_expanded now disabledMap [] seen s = ([], s)"
| "filter_expanded now disabledMap (rID # rest) seen s =
     (if rID \<in> seen then filter_expanded now disabledMap rest seen s
      else if rID \<in> disabledMap then filter_expanded now disabledMap rest (insert rID seen) s
      else
        let (roleDef, s1) = RoleDefinition now s rID;
            (filtered, s2) = filter_expanded now disabledMap rest (insert rID seen) s1
        in (case roleDef of
              Inr r \<Rightarrow> if ro_IsDisabled r then (filtered, s2) else (rID # filtered, s2)
            | Inl e \<Rightarrow> (rID # filtered, s2)))"

definition raw_expand_all :: "'s service \<Rightarrow> string list \<Rightarrow> string list result" where
  "raw_expand_all s roleIDs =
     (let builtInIDs = filter (\<lambda>id'. HasPrefix id' BuiltInPrefix) roleIDs;
          customIDs = filter (\<lambda>id'. \<not> HasPrefix id' BuiltInPrefix) roleIDs in
      attempt (if customIDs = [] then Inr [] else op_ExpandRoles (sv_ops s) (sv_store s) customIDs)
        (\<lambda>dbExpanded. Inr (builtIn_ExpandRoles (sv_builtIns s) (dbExpanded @ builtInIDs))))"

definition service_ExpandRoles :: "time \<Rightarrow> 's service \<Rightarrow> string list \<Rightarrow> string list result \<times> 's service" where
  "service_ExpandRoles now s roleIDs =
     (case raw_expand_all s roleIDs of
        Inl e \<Rightarrow> (Inl e, s)
      | Inr expanded \<Rightarrow>
          (let (d, s1) = getDisabledBuiltInRoles now s;
               disabledMap = (case d of Inl e \<Rightarrow> {} | Inr m \<Rightarrow> m);
               (filtered, s2) = filter_expanded now disabledMap expanded {} s1
           in (Inr filtered, s2)))"

section \<open>The registry stays well formed\<close>

definition wf_builtIns :: "'s service \<Rightarrow> bool" where
  "wf_builtIns s \<longleftrightarrow> wf_registry (sv_builtIns s)"

lemma wf_builtIns_on_store [simp]: "wf_builtIns (snd (on_store s r)) = wf_builtIns s"
  by (cases r) (simp add: wf_builtIns_def)

lemma wf_builtIns_on_store_eq: "on_store s r = (e, s') \<Longrightarrow> wf_builtIns s' = wf_builtIns s"
  by (cases r) (auto simp: wf_builtIns_def)

lemma wf_builtIns_AddGrant:
  "wf_builtIns s \<Longrightarrow> wf_grant g \<Longrightarrow> on_registry s (builtIn_AddGrant (sv_builtIns s) g) = (e, s') \<Longrightarrow> wf_builtIns s'"
  by (cases "builtIn_AddGrant (sv_builtIns s) g") (auto simp: wf_builtIns_def intro: wf_registry_AddGrant)

lemma wf_builtIns_RegisterRole:
  "wf_builtIns s \<Longrightarrow> on_registry s (builtIn_RegisterRole (sv_builtIns s) r) = (e, s') \<Longrightarrow> wf_builtIns s'"
  by (cases "builtIn_RegisterRole (sv_builtIns s) r") (auto simp: wf_builtIns_def intro: wf_registry_RegisterRole)

lemma wf_builtIns_AddRoleInheritance:
  "wf_builtIns s \<Longrightarrow> on_registry s (builtIn_AddRoleInheritance (sv_builtIns s) p c) = (e, s') \<Longrightarrow> wf_builtIns s'"
  by (cases "builtIn_AddRoleInheritance (sv_builtIns s) p c")
    (auto simp: wf_builtIns_def intro: wf_registry_AddRoleInheritance)

lemmas wf_builtIns_writes =
  wf_builtIns_on_store_eq wf_builtIns_AddGrant wf_builtIns_RegisterRole wf_builtIns_AddRoleInheritance

lemma wf_builtIns_CreateGrant:
  "wf_builtIns s \<Longrightarrow> wf_grant g \<Longrightarrow> service_CreateGrant s g = (e, s') \<Longrightarrow> wf_builtIns s'"
  by (auto simp: service_CreateGrant_def wf_builtIns_on_store_eq dest: wf_builtIns_AddGrant split: if_splits)

lemma wf_builtIns_CreateGrants:
  "wf_builtIns s \<Longrightarrow> service_CreateGrants s gs = (e, s') \<Longrightarrow> wf_builtIns s'"
  by (auto simp: service_CreateGrants_def wf_builtIns_on_store_eq split: if_splits sum.splits option.splits)

lemma wf_builtIns_Ensure:
  "wf_builtIns s \<Longrightarrow> EnsureGrantForOwner now s g = (e, s') \<Longrightarrow> wf_builtIns s'"
  "wf_builtIns s \<Longrightarrow> EnsureGrantsForOwners now s gs = (e, s') \<Longrightarrow> wf_builtIns s'"
  by (auto simp: EnsureGrantForOwner_def EnsureGrantsForOwners_def wf_builtIns_on_store_eq
      dest: wf_builtIns_CreateGrants split: if_splits sum.splits bool.splits)

lemma wf_builtIns_ensure_roles:
  "wf_builtIns s \<Longrightarrow> ensure_roles roles seen s = (e, s') \<Longrightarrow> wf_builtIns s'"
proof (induction roles seen s rule: ensure_roles.induct)
  case (2 role rest seen s)
  show ?case
  proof (cases "ro_ID role = '''' \<or> ro_ID role \<in> seen")
    case False
    obtain e1 s1 where run: "ensureRoleExists s role = (e1, s1)" by fastforce
    then have "wf_builtIns s1" using 2(3)
      by (auto simp: ensureRoleExists_def wf_builtIns_on_store_eq dest: wf_builtIns_RegisterRole split: if_splits)
    then show ?thesis using 2 False run by (auto split: option.splits)
  qed (use 2 in auto)
qed simp

lemma wf_builtIns_seed_grants:
  "\<forall>g \<in> set gs. wf_grant g \<Longrightarrow> wf_builtIns s \<Longrightarrow> seed_grants gs s = (e, s') \<Longrightarrow> wf_builtIns s'"
proof (induction gs arbitrary: s)
  case (Cons g gs)
  obtain e1 s1 where run: "on_registry s (builtIn_AddGrant (sv_builtIns s) g) = (e1, s1)" by fastforce
  then have "wf_builtIns s1" using Cons.prems(1,2) by (auto dest: wf_builtIns_AddGrant)
  then show ?case using Cons run by (auto split: if_splits option.splits)
qed simp

lemma wf_builtIns_SaveBuiltIns:
  assumes "\<forall>g \<in> set gs. wf_grant g" "wf_builtIns s" "SaveBuiltIns s gs = (e, s')"
  shows "wf_builtIns s'"
proof -
  obtain e1 s1 where run: "EnsureSyntheticRoles s = (e1, s1)" by fastforce
  then have "wf_builtIns s1" using assms(2) wf_builtIns_ensure_roles unfolding EnsureSyntheticRoles_def by blast
  then show ?thesis
    using assms(3) run wf_builtIns_seed_grants [OF assms(1)] by (auto simp: SaveBuiltIns_def split: option.splits)
qed

lemma wf_builtIns_seed_permissions:
  "\<forall>p. wf_grant (grant_for p) \<Longrightarrow> wf_builtIns s \<Longrightarrow> seed_permissions r grant_for perms s = (e, s') \<Longrightarrow> wf_builtIns s'"
proof (induction perms arbitrary: s)
  case (Cons p perms)
  obtain e1 s1 where run: "on_registry s (builtIn_AddGrant (sv_builtIns s) (grant_for p)) = (e1, s1)" by fastforce
  then have "wf_builtIns s1" using Cons.prems(1,2) by (auto dest: wf_builtIns_AddGrant)
  then show ?case using Cons run by (auto split: option.splits)
qed simp

lemma wf_builtIns_add_built_in:
  assumes "\<forall>r p. wf_grant (grant_for r p)" "wf_builtIns s" "add_built_in grant_for s role = (e, s')"
  shows "wf_builtIns s'"
proof -
  define id' where "id' = (if \<not> HasPrefix (ro_ID role) BuiltInPrefix then BuiltInPrefix @ ro_ID role else ro_ID role)"
  obtain e1 s1 where run: "on_registry s (builtIn_RegisterRole (sv_builtIns s)
      (role\<lparr>ro_ID := id', ro_BuiltIn := True\<rparr>)) = (e1, s1)" by fastforce
  then have "wf_builtIns s1" using assms(2) by (blast dest: wf_builtIns_RegisterRole)
  moreover have "s' = s \<or> s' = s1 \<or> seed_permissions id' (grant_for id') (ro_Permissions role) s1 = (e, s')"
    using assms(3) unfolding add_built_in_def id'_def [symmetric] Let_def run
    by (cases e1) (simp_all split: if_splits)
  ultimately show ?thesis
    using wf_builtIns_seed_permissions [of "grant_for id'" s1] assms(1,2) by blast
qed

lemma wf_builtIns_AddBuiltIn:
  "wf_builtIns s \<Longrightarrow> AddBuiltInRole s role = (e, s') \<Longrightarrow> wf_builtIns s'"
  "wf_builtIns s \<Longrightarrow> AddBuiltInTeamRole s role = (e, s') \<Longrightarrow> wf_builtIns s'"
  unfolding AddBuiltInRole_def AddBuiltInTeamRole_def
  by (rule wf_builtIns_add_built_in; simp add: wf_grant_def wf_gomap_def new_grant_def)+

end
