(* ===== verification/Service_Queries.thy ===== *)
theory Service_Queries
  imports Service_Admin
begin

text \<open>
  The reading operations that list rather than decide (\<open>service.go\<close>): \<open>EffectivePermissions\<close>,
  \<open>AllowedTeamsForUser\<close>, \<open>PrincipalsWithPermission\<close> and the two reports. A \<open>range\<close> over a Go map
  visits its entries in an order that differs from run to run; where the order reaches a result
  it is the parameter \<open>visit\<close>, a permutation of the entries.
\<close>

section \<open>Effective permissions\<close>

type_synonym effective_acc = "string set \<times> (string, effective_permission) gomap"

text \<open>\<open>accumulateGrant\<close>: a deny of a key removes it for good, the first allow of a key is kept.\<close>

definition accumulateGrant :: "time \<Rightarrow> grant \<Rightarrow> effective_acc \<Rightarrow> 's service \<Rightarrow> effective_acc \<times> 's service" where
  "accumulateGrant now g acc s =
     (let (denied, allowed) = acc; key = permissionKey g in
      if gr_Effect g = EffectDeny then ((insert key denied, AList.delete key allowed), s)
      else if key \<in> denied then (acc, s)
      else if map_of allowed key \<noteq> None then (acc, s)
      else
        let ((name, description), s') =
              (if gr_OwnerKind g = PrincipalRole
               then (case RoleDefinition now s (gr_OwnerID g) of
                       (Inr roleDef, s') \<Rightarrow> ((ro_Name roleDef, ro_Description roleDef), s')
                     | (Inl e, s') \<Rightarrow> (('''', ''''), s'))
               else (('''', ''''), s));
            eff = \<lparr>ep_TeamScope = gr_TeamScope g, ep_ObjectScope = gr_ObjectScope g,
                   ep_PermissionName = gr_PermissionName g,
                   ep_Source = \<lparr>es_Principal = \<lparr>pr_Kind = gr_OwnerKind g, pr_ID = gr_OwnerID g\<rparr>,
                                es_Name = name, es_Description = description\<rparr>,
                   ep_Effect = gr_Effect g, ep_RestrictedFields = [] @ gr_RestrictedFields g\<rparr>
        in ((denied, AList.update key eff allowed), s'))"

fun accumulate_direct :: "time \<Rightarrow> grant list \<Rightarrow> effective_acc \<Rightarrow> 's service \<Rightarrow> effective_acc \<times> 's service" where
  "accumulate_direct now [] acc s = (acc, s)"
| "accumulate_direct now (g # gs) acc s =
     (if \<not> IsExpiredAt g now
      then (let (acc', s') = accumulateGrant now g acc s in accumulate_direct now gs acc' s')
      else accumulate_direct now gs acc s)"

fun accumulate_role_grants ::
  "time \<Rightarrow> string \<Rightarrow> string set \<Rightarrow> (string, bindings) gomap \<Rightarrow> grant list \<Rightarrow> effective_acc \<Rightarrow> 's service
   \<Rightarrow> effective_acc \<times> 's service" where
  "accumulate_role_grants now teamID roleIDSet bindingMap [] acc s = (acc, s)"
| "accumulate_role_grants now teamID roleIDSet bindingMap (g # gs) acc s =
     (if gr_OwnerKind g = PrincipalRole \<and> gr_OwnerID g \<notin> roleIDSet
      then accumulate_role_grants now teamID roleIDSet bindingMap gs acc s
      else if IsExpiredAt g now then accumulate_role_grants now teamID roleIDSet bindingMap gs acc s
      else case resolveGrantBindings g bindingMap of
             Inl e \<Rightarrow> accumulate_role_grants now teamID roleIDSet bindingMap gs acc s
           | Inr g' \<Rightarrow>
               if teamID \<noteq> ''*'' \<and> \<not> matchesTeamScope g' teamID
               then accumulate_role_grants now teamID roleIDSet bindingMap gs acc s
               else (let (acc', s') = accumulateGrant now g' acc s
                     in accumulate_role_grants now teamID roleIDSet bindingMap gs acc' s'))"

fun accumulate_assignments ::
  "time \<Rightarrow> request \<Rightarrow> string \<Rightarrow> role_assignment list \<Rightarrow> expand_cache \<Rightarrow> effective_acc \<Rightarrow> 's service
   \<Rightarrow> effective_acc result \<times> 's service" where
  "accumulate_assignments now baseReq teamID [] expandCache acc s = (Inr acc, s)"
| "accumulate_assignments now baseReq teamID (a # rest) expandCache acc s =
     (case expandRolesCached now (ra_RoleID a) expandCache s of
        (Inl e, _, s1) \<Rightarrow> (Inl e, s1)
      | (Inr roleIDs, expandCache', s1) \<Rightarrow>
          (case fetchRoleGrants now s1 roleIDs baseReq of
             Inl e \<Rightarrow> (Inl e, s1)
           | Inr roleGrants \<Rightarrow>
               (let (acc', s2) = accumulate_role_grants now teamID (set roleIDs)
                      [(ra_RoleID a, ra_BindingValues a)] roleGrants acc s1
                in accumulate_assignments now baseReq teamID rest expandCache' acc' s2)))"

text \<open>The result lists the entries of a map, in some order.\<close>

definition EffectivePermissions ::
  "time \<Rightarrow> 's service \<Rightarrow> string \<Rightarrow> string \<Rightarrow> string \<Rightarrow> effective_permission list result \<times> 's service" where
  "EffectivePermissions now s userID teamID objectID =
     (if userID = '''' then (Inl (Errorf ''user ID is required'' []), s)
      else
        let baseReq = \<lparr>rq_UserID = userID, rq_TeamID = teamID, rq_Object = objectID, rq_Perm = ''''\<rparr> in
        case attempt (resolveUserGroupIDs s userID) (\<lambda>groupIDs.
             attempt (resolveUserTeamIDs s userID) (\<lambda>teamIDs.
             attempt (resolveRoleAssignmentsForUserGroupsAndTeams s userID groupIDs teamIDs) (\<lambda>roleAssignments.
             attempt (op_GrantsForOwners (sv_ops s) now (sv_store s) (unbound_owners userID groupIDs) baseReq)
               (\<lambda>unboundGrants. Inr (roleAssignments, unboundGrants))))) of
          Inl e \<Rightarrow> (Inl e, s)
        | Inr (roleAssignments, unboundGrants) \<Rightarrow>
            (let (acc, s1) = accumulate_direct now unboundGrants ({}, []) s in
             case accumulate_assignments now baseReq teamID roleAssignments [] acc s1 of
               (Inl e, s2) \<Rightarrow> (Inl e, s2)
             | (Inr (denied, allowed), s2) \<Rightarrow> (Inr (map snd allowed), s2)))"

fun allowed_teams :: "string \<Rightarrow> effective_permission list \<Rightarrow> string set \<Rightarrow> string list" where
  "allowed_teams perm [] seen = []"
| "allowed_teams perm (p # ps) seen =
     (if ep_PermissionName p = perm \<and> ep_TeamScope p \<notin> seen \<and> ep_Effect p \<noteq> EffectDeny
      then ep_TeamScope p # allowed_teams perm ps (insert (ep_TeamScope p) seen)
      else allowed_teams perm ps seen)"

definition AllowedTeamsForUser ::
  "time \<Rightarrow> 's service \<Rightarrow> string \<Rightarrow> string \<Rightarrow> string list result \<times> 's service" where
  "AllowedTeamsForUser now s userID perm =
     (if perm = '''' then (Inl (Errorf ''permission name is required'' []), s)
      else case EffectivePermissions now s userID ''*'' ''*'' of
             (Inl e, s') \<Rightarrow> (Inl e, s')
           | (Inr perms, s') \<Rightarrow> (Inr (allowed_teams perm perms {}), s'))"

definition hit_order :: "principal_hit \<Rightarrow> string \<times> string \<times> string \<times> string" where
  "hit_order h = (ph_Kind h, ph_ID h, ph_TeamScope h,
     (case ph_ObjectScope h of None \<Rightarrow> '''' | Some os \<Rightarrow> os))"

definition PrincipalsWithPermission ::
  "time \<Rightarrow> 's service \<Rightarrow> string \<Rightarrow> string \<Rightarrow> string \<Rightarrow> principal_hit list result" where
  "PrincipalsWithPermission now s teamID object perm =
     (if perm = '''' then Inl (Errorf ''permission name is required'' [])
      else attempt (op_PrincipalsWithGrant (sv_ops s) now (sv_store s)
             \<lparr>rq_UserID = '''', rq_TeamID = teamID, rq_Object = object, rq_Perm = perm\<rparr>)
        (\<lambda>hits. Inr (sort_key hit_order hits)))"

section \<open>Reports\<close>

definition direct_source :: "grant \<Rightarrow> permission_source" where
  "direct_source g = \<lparr>ps_Kind = gr_OwnerKind g, ps_ID = gr_OwnerID g, ps_GrantID = Some (gr_ID g),
     ps_RoleID = None\<rparr>"

definition direct_report :: "grant \<Rightarrow> permission_report" where
  "direct_report g = \<lparr>rp_Principal = \<lparr>pr_Kind = gr_OwnerKind g, pr_ID = gr_OwnerID g\<rparr>,
     rp_TeamScope = gr_TeamScope g, rp_ObjectScope = gr_ObjectScope g,
     rp_PermissionName = gr_PermissionName g, rp_Effect = gr_Effect g,
     rp_RestrictedFields = gr_RestrictedFields g, rp_IsDirect = True, rp_Sources = [direct_source g]\<rparr>"

definition generateDirectReport :: "'s service \<Rightarrow> grant_query \<Rightarrow> report_query_result result" where
  "generateDirectReport s query =
     attempt (op_ListGrants (sv_ops s) (sv_store s) query) (\<lambda>storeResult.
     Inr \<lparr>rr_Reports = map direct_report (qr_Grants storeResult),
          rr_NextCursor = qr_NextCursor storeResult, rr_TotalCount = qr_TotalCount storeResult\<rparr>)"

text \<open>The role IDs whose definitions an effective report lists for a principal.\<close>

definition report_role_ids :: "'s service \<Rightarrow> principal_ref \<Rightarrow> role_assignment list \<Rightarrow> string list" where
  "report_role_ids s who assignments =
     map ra_RoleID assignments @
     (if pr_Kind who = PrincipalUser
      then [SyntheticRoleAuthenticated] @
        (case sv_identity s of
           None \<Rightarrow> []
         | Some identity \<Rightarrow>
             if sv_adminGroupID s \<noteq> '''' \<and>
                (case ip_IsUserInGroup identity (pr_ID who) (sv_adminGroupID s) of Inl e \<Rightarrow> False | Inr b \<Rightarrow> b)
             then [SyntheticRoleAdmin] else [])
      else []) @
     [SyntheticRolePublic]"

fun enabled_definitions :: "time \<Rightarrow> string list \<Rightarrow> 's service \<Rightarrow> role list \<times> 's service" where
  "enabled_definitions now [] s = ([], s)"
| "enabled_definitions now (rID # rest) s =
     (let (def, s1) = RoleDefinition now s rID;
          (defs, s2) = enabled_definitions now rest s1
      in (case def of
            Inr r \<Rightarrow> if \<not> ro_IsDisabled r then (r # defs, s2) else (defs, s2)
          | Inl e \<Rightarrow> (defs, s2)))"

type_synonym report_map = "(string, permission_report) gomap"

definition report_key :: "string \<Rightarrow> string \<Rightarrow> string \<Rightarrow> string \<Rightarrow> string" where
  "report_key teamScope objScope perm eff = teamScope @ '':'' @ objScope @ '':'' @ perm @ '':'' @ eff"

definition report_grant :: "time \<Rightarrow> principal_ref \<Rightarrow> grant \<Rightarrow> report_map \<Rightarrow> report_map" where
  "report_grant now who g reportMap =
     (if \<not> IsActiveAt g now then reportMap
      else
        let objScope = (case gr_ObjectScope g of None \<Rightarrow> '''' | Some os \<Rightarrow> os);
            key = report_key (gr_TeamScope g) objScope (gr_PermissionName g) (gr_Effect g)
        in case map_of reportMap key of
             Some existing \<Rightarrow>
               AList.update key (existing\<lparr>rp_Sources := rp_Sources existing @ [direct_source g]\<rparr>) reportMap
           | None \<Rightarrow> AList.update key ((direct_report g)\<lparr>rp_Principal := who\<rparr>) reportMap)"

definition role_source :: "role \<Rightarrow> permission_source" where
  "role_source def = \<lparr>ps_Kind = PrincipalRole, ps_ID = ro_ID def, ps_GrantID = None, ps_RoleID = Some (ro_ID def)\<rparr>"

definition report_permission :: "principal_ref \<Rightarrow> role \<Rightarrow> string \<Rightarrow> report_map \<Rightarrow> report_map" where
  "report_permission who def perm reportMap =
     (let key = ''*::'' @ perm @ '':allow'' in
      case map_of reportMap key of
        Some existing \<Rightarrow>
          AList.update key (existing\<lparr>rp_IsDirect := False,
            rp_Sources := rp_Sources existing @ [role_source def]\<rparr>) reportMap
      | None \<Rightarrow>
          AList.update key \<lparr>rp_Principal = who, rp_TeamScope = ''*'', rp_ObjectScope = Some ''*'',
            rp_PermissionName = perm, rp_Effect = EffectAllow, rp_RestrictedFields = [],
            rp_IsDirect = False, rp_Sources = [role_source def]\<rparr> reportMap)"

definition principal_report_map ::
  "time \<Rightarrow> principal_ref \<Rightarrow> grant list \<Rightarrow> role list \<Rightarrow> report_map" where
  "principal_report_map now who directGrants defs =
     fold (\<lambda>def m. fold (report_permission who def) (ro_Permissions def) m) defs
       (fold (report_grant now who) directGrants [])"

definition report_matches :: "grant_query \<Rightarrow> permission_report \<Rightarrow> bool" where
  "report_matches query r \<longleftrightarrow>
     \<not> (gq_TeamScopes query \<noteq> [] \<and> \<not> containsString (gq_TeamScopes query) (rp_TeamScope r)) \<and>
     \<not> (gq_ObjectScopes query \<noteq> [] \<and>
        (case rp_ObjectScope r of None \<Rightarrow> True | Some os \<Rightarrow> \<not> containsString (gq_ObjectScopes query) os)) \<and>
     \<not> (gq_Permissions query \<noteq> [] \<and> \<not> containsString (gq_Permissions query) (rp_PermissionName r)) \<and>
     \<not> (gq_PermissionPrefix query \<noteq> '''' \<and> \<not> HasPrefix (rp_PermissionName r) (gq_PermissionPrefix query))"

definition principal_reports ::
  "(report_map \<Rightarrow> report_map) \<Rightarrow> time \<Rightarrow> 's service \<Rightarrow> grant_query \<Rightarrow> principal_ref
   \<Rightarrow> permission_report list result \<times> 's service" where
  "principal_reports visit now s query who =
     (case attempt (op_GrantsForPrincipal (sv_ops s) now (sv_store s) who) (\<lambda>directGrants.
           attempt (op_RoleAssignmentsForPrincipal (sv_ops s) (sv_store s) who) (\<lambda>assignments.
           attempt (op_ExpandRoles (sv_ops s) (sv_store s) (report_role_ids s who assignments)) (\<lambda>expandedRoleIDs.
           Inr (directGrants, expandedRoleIDs)))) of
        Inl e \<Rightarrow> (Inl e, s)
      | Inr (directGrants, expandedRoleIDs) \<Rightarrow>
          (let (defs, s') = enabled_definitions now expandedRoleIDs s in
           (Inr (filter (report_matches query)
              (map snd (visit (principal_report_map now who directGrants defs)))), s')))"

fun all_reports ::
  "(report_map \<Rightarrow> report_map) \<Rightarrow> time \<Rightarrow> grant_query \<Rightarrow> principal_ref list \<Rightarrow> 's service
   \<Rightarrow> permission_report list result \<times> 's service" where
  "all_reports visit now query [] s = (Inr [], s)"
| "all_reports visit now query (who # rest) s =
     (case principal_reports visit now s query who of
        (Inl e, s') \<Rightarrow> (Inl e, s')
      | (Inr reports, s') \<Rightarrow>
          (case all_reports visit now query rest s' of
             (Inl e, s'') \<Rightarrow> (Inl e, s'')
           | (Inr later, s'') \<Rightarrow> (Inr (reports @ later), s'')))"

definition report_limit :: "int \<Rightarrow> int" where
  "report_limit l = (if l \<le> 0 then 50 else l)"

definition generateEffectiveReport ::
  "(report_map \<Rightarrow> report_map) \<Rightarrow> time \<Rightarrow> 's service \<Rightarrow> grant_query \<Rightarrow> report_query_result result \<times> 's service" where
  "generateEffectiveReport visit now s query =
     (case all_reports visit now query (gq_Principals query) s of
        (Inl e, s') \<Rightarrow> (Inl e, s')
      | (Inr allReports, s') \<Rightarrow>
          (attempt (take_page allReports (cursor_offset (gq_Cursor query)) (report_limit (gq_Limit query)))
             (\<lambda>(page, next). Inr \<lparr>rr_Reports = page, rr_NextCursor = next,
                rr_TotalCount = int (length allReports)\<rparr>), s'))"

definition GenerateReport ::
  "(report_map \<Rightarrow> report_map) \<Rightarrow> time \<Rightarrow> 's service \<Rightarrow> grant_query \<Rightarrow> report_query_result result \<times> 's service" where
  "GenerateReport visit now s query =
     (if gq_IncludeEffective query \<and> gq_Principals query \<noteq> []
      then generateEffectiveReport visit now s query
      else (generateDirectReport s query, s))"

section \<open>Reading leaves the service's view alone\<close>

text \<open>Every reading operation leaves the service as it was, or with its cache refreshed.\<close>

lemma accumulateGrant_view: "same_view now s (snd (accumulateGrant now g acc s))"
  using RoleDefinition_view(2) [of now s "gr_OwnerID g"]
  by (cases "RoleDefinition now s (gr_OwnerID g)") (auto simp: accumulateGrant_def Let_def split: prod.split sum.split)

lemma accumulate_direct_view: "same_view now s (snd (accumulate_direct now gs acc s))"
proof (induction gs arbitrary: acc s)
  case (Cons g gs)
  show ?case by (auto simp: split_beta intro: Cons.IH same_view_trans [OF accumulateGrant_view Cons.IH])
qed simp

lemma accumulate_role_grants_view: "same_view now s (snd (accumulate_role_grants now t ids bm gs acc s))"
proof (induction gs arbitrary: acc s)
  case (Cons g gs)
  note rest = same_view_trans [OF accumulateGrant_view Cons.IH]
  show ?case
    by (simp add: split_beta Cons.IH rest split: sum.split)
qed simp

lemma expandRolesCached_same_view: "expandRolesCached now root cache s = (r, cache', s') \<Longrightarrow> same_view now s s'"
  using expandRolesCached_cases [of now root cache s r cache' s'] by auto

lemma accumulate_assignments_view: "same_view now s (snd (accumulate_assignments now req t as cache acc s))"
proof (induction as arbitrary: cache acc s)
  case (Cons a as)
  obtain r cache' s1 where run: "expandRolesCached now (ra_RoleID a) cache s = (r, cache', s1)"
    using prod_cases3 by blast
  note s1 = expandRolesCached_same_view [OF run]
  note rest = same_view_trans [OF s1 same_view_trans [OF accumulate_role_grants_view Cons.IH]]
  show ?case by (auto simp: run split_beta intro: s1 rest split: sum.split)
qed simp

lemma EffectivePermissions_view: "same_view now s (snd (EffectivePermissions now s u t ob))"
  by (auto simp: EffectivePermissions_def Let_def split_beta split: sum.split
      intro: same_view_trans [OF accumulate_direct_view accumulate_assignments_view])

lemma AllowedTeams_view: "same_view now s (snd (AllowedTeamsForUser now s u perm))"
  using EffectivePermissions_view [of now s u "''*''" "''*''"]
  by (auto simp: AllowedTeamsForUser_def split: prod.split sum.split)

lemma RoleDefinitions_view: "same_view now s (snd (service_RoleDefinitions now s))"
  by (simp add: service_RoleDefinitions_def Let_def split_beta refresh_def [symmetric])

lemma RoleDefinitions_selected_view:
  "same_view now s (snd (service_RoleDefinitionsByScope now s scope))"
  "same_view now s (snd (service_RoleDefinitionsByTag folded now s tag))"
  using RoleDefinitions_view [of now s]
  by (auto simp: service_RoleDefinitionsByScope_def service_RoleDefinitionsByTag_def Let_def split: prod.split sum.split)

lemma filter_expanded_view: "same_view now s (snd (filter_expanded now dis ids seen s))"
proof (induction ids arbitrary: seen s)
  case (Cons i ids)
  show ?case by (auto simp: split_beta intro: Cons.IH same_view_trans [OF RoleDefinition_view(2) Cons.IH] split: sum.split)
qed simp

lemma ExpandRoles_view: "same_view now s (snd (service_ExpandRoles now s ids))"
  using same_view_trans [OF same_view_refresh filter_expanded_view, of now s]
  by (simp add: service_ExpandRoles_def Let_def split_beta refresh_def [symmetric] split: sum.split)

lemma filter_fields_view: "same_view now s (snd (filter_fields now req paths seen result s))"
proof (induction paths arbitrary: seen result s)
  case (Cons p paths)
  obtain r s' where run: "HasFieldPermission now s req p = (r, s')" by fastforce
  then have s': "same_view now s s'" using HasFieldPermission_same_view [of now s req p] by simp
  show ?case by (auto simp: run intro: s' Cons.IH same_view_trans [OF s' Cons.IH] split: sum.split)
qed simp

lemma FilterPermittedFields_view: "same_view now s (snd (FilterPermittedFields now s req paths))"
  by (simp add: FilterPermittedFields_def filter_fields_view)

lemma enabled_definitions_view: "same_view now s (snd (enabled_definitions now ids s))"
proof (induction ids arbitrary: s)
  case (Cons i ids)
  show ?case by (auto simp: split_beta intro: same_view_trans [OF RoleDefinition_view(2) Cons.IH] split: sum.split)
qed simp

lemma principal_reports_view: "same_view now s (snd (principal_reports visit now s query who))"
  using enabled_definitions_view [of now s]
  by (auto simp: principal_reports_def split_beta split: sum.split)

lemma all_reports_view: "same_view now s (snd (all_reports visit now query whos s))"
proof (induction whos arbitrary: s)
  case (Cons who whos)
  obtain r s' where run: "principal_reports visit now s query who = (r, s')" by fastforce
  then have s': "same_view now s s'" using principal_reports_view [of now s visit query who] by simp
  then show ?case
    using same_view_trans [OF s' Cons.IH] by (auto simp: run split_beta split: sum.split)
qed simp

lemma GenerateReport_view: "same_view now s (snd (GenerateReport visit now s query))"
  using all_reports_view [of now s visit query "gq_Principals query"]
  by (auto simp: GenerateReport_def generateEffectiveReport_def split: prod.split sum.split)

lemma HasPermission_view:
  "same_view now s (snd (HasPermission now s req))" "same_view now s (snd (HasSystemPermission now s u p))"
  "same_view now s (snd (HasTeamPermission now s u t ob p))"
  by (simp_all add: HasPermission_def HasSystemPermission_def HasTeamPermission_def evaluatePermission_same_view)

lemmas reads_view = RoleDefinition_view(2) RoleDefinitions_view RoleDefinitions_selected_view ExpandRoles_view
  HasPermission_view HasFieldPermission_same_view FilterPermittedFields_view EffectivePermissions_view
  AllowedTeams_view GenerateReport_view evaluatePermission_same_view

end
