(* ===== verification/Service_Runs.thy ===== *)
theory Service_Runs
  imports Service_Queries
begin

text \<open>
  Runs of a service on the default store: one event per operation of \<open>service.go\<close> that can change the
  service, which is every writing operation, every configuration call and every read that may
  refresh the cache of disabled roles; a step relation and the states reached from \<open>New\<close>. The
  invariant says that registry and store stay well formed and that the cache of disabled roles
  never disagrees with the store.
\<close>

section \<open>Events and steps\<close>

type_synonym boot_service = "bootstrap_store service"

datatype service_configuration =
    CfSetStore bootstrap_store
  | CfSetIdentityProvider "identity_provider option"
  | CfSetSubjectFunc "(subject \<Rightarrow> string result) option"
  | CfSetPublicRoleID string
  | CfSetAuthenticatedRoleID string
  | CfSetAdminRoleID string
  | CfSetSyntheticRoleIDs string string string
  | CfSetAdminGroupID string

datatype service_shorthand =
    ShAllowUser string string "string option"
  | ShAllowUserUntil string string "string option" time
  | ShAllowUserFor string string "string option" int
  | ShDenyUser string string "string option"
  | ShDenyUserUntil string string "string option" time
  | ShDenyUserFor string string "string option" int
  | ShAllowRole string string "string option"
  | ShAllowRoleUntil string string "string option" time
  | ShAllowRoleFor string string "string option" int

datatype service_query =
    RdCheck request "string option"
  | RdHasPermission request
  | RdHasSystemPermission string string
  | RdHasTeamPermission string string string string
  | RdHasFieldPermission request string
  | RdFilterPermittedFields request "string list"
  | RdRoleDefinition string
  | RdRoleDefinitions
  | RdRoleDefinitionsByScope role_scope
  | RdRoleDefinitionsByTag "string \<Rightarrow> string" string
  | RdExpandRoles "string list"
  | RdEffectivePermissions string string string
  | RdAllowedTeamsForUser string string
  | RdGenerateReport "report_map \<Rightarrow> report_map" grant_query

datatype service_event =
    SvConfigure service_configuration
  | SvShorthand service_shorthand
  | SvRead service_query
  | SvCreateGrant grant
  | SvCreateGrants "grant list"
  | SvEnsureGrant grant
  | SvEnsureGrants "grant list"
  | SvDeleteGrants principal_kind string
  | SvCreateRole role
  | SvUpdateRole role
  | SvDeleteRole string
  | SvAddRoleInheritance string string
  | SvEnsureSyntheticRoles
  | SvSaveBuiltIns "grant list"
  | SvSetBuiltInGrants "grant list"
  | SvAddDefaultGrant string string string
  | SvAddBuiltInRole role
  | SvAddBuiltInTeamRole role
  | SvAssignRole principal_ref string bindings
  | SvAssignRoleToUser string string bindings
  | SvUnassignRole principal_ref string bindings
  | SvDisable string
  | SvEnable string

text \<open>
  A step happens at an instant \<open>now\<close> and succeeds or fails as the operation does. A store that is set
  may be any well-formed default store; from then on the service is the only one to write it.
\<close>

inductive service_step :: "boot_service \<Rightarrow> time \<Rightarrow> service_event \<Rightarrow> boot_service \<Rightarrow> bool" where
  set_store: "wf_bootstrap st \<Longrightarrow> service_step s now (SvConfigure (CfSetStore st)) (SetStore s bootstrap_ops st)"
| set_identity: "service_step s now (SvConfigure (CfSetIdentityProvider i)) (SetIdentityProvider s i)"
| set_subject: "service_step s now (SvConfigure (CfSetSubjectFunc f)) (SetSubjectFunc s f)"
| set_public: "service_step s now (SvConfigure (CfSetPublicRoleID r)) (SetPublicRoleID s r)"
| set_authenticated: "service_step s now (SvConfigure (CfSetAuthenticatedRoleID r)) (SetAuthenticatedRoleID s r)"
| set_admin: "service_step s now (SvConfigure (CfSetAdminRoleID r)) (SetAdminRoleID s r)"
| set_roles: "service_step s now (SvConfigure (CfSetSyntheticRoleIDs p a d)) (SetSyntheticRoleIDs s p a d)"
| set_admin_group: "service_step s now (SvConfigure (CfSetAdminGroupID g)) (SetAdminGroupID s g)"
| create_grant: "wf_grant g \<Longrightarrow> service_CreateGrant s g = (e, s') \<Longrightarrow> service_step s now (SvCreateGrant g) s'"
| create_grants: "\<forall>g \<in> set gs. wf_grant g \<Longrightarrow> service_CreateGrants s gs = (e, s') \<Longrightarrow>
    service_step s now (SvCreateGrants gs) s'"
| allow_user: "AllowUser s u p ob = (e, s') \<Longrightarrow> service_step s now (SvShorthand (ShAllowUser u p ob)) s'"
| allow_user_until: "AllowUserUntil s u p ob t = (e, s') \<Longrightarrow> service_step s now (SvShorthand (ShAllowUserUntil u p ob t)) s'"
| allow_user_for: "AllowUserFor now s u p ob d = (e, s') \<Longrightarrow> service_step s now (SvShorthand (ShAllowUserFor u p ob d)) s'"
| deny_user: "DenyUser s u p ob = (e, s') \<Longrightarrow> service_step s now (SvShorthand (ShDenyUser u p ob)) s'"
| deny_user_until: "DenyUserUntil s u p ob t = (e, s') \<Longrightarrow> service_step s now (SvShorthand (ShDenyUserUntil u p ob t)) s'"
| deny_user_for: "DenyUserFor now s u p ob d = (e, s') \<Longrightarrow> service_step s now (SvShorthand (ShDenyUserFor u p ob d)) s'"
| allow_role: "AllowRole s r p ob = (e, s') \<Longrightarrow> service_step s now (SvShorthand (ShAllowRole r p ob)) s'"
| allow_role_until: "AllowRoleUntil s r p ob t = (e, s') \<Longrightarrow> service_step s now (SvShorthand (ShAllowRoleUntil r p ob t)) s'"
| allow_role_for: "AllowRoleFor now s r p ob d = (e, s') \<Longrightarrow> service_step s now (SvShorthand (ShAllowRoleFor r p ob d)) s'"
| ensure_grant: "wf_grant g \<Longrightarrow> EnsureGrantForOwner now s g = (e, s') \<Longrightarrow> service_step s now (SvEnsureGrant g) s'"
| ensure_grants: "\<forall>g \<in> set gs. wf_grant g \<Longrightarrow> EnsureGrantsForOwners now s gs = (e, s') \<Longrightarrow>
    service_step s now (SvEnsureGrants gs) s'"
| delete_grants: "service_DeleteGrantsForOwner s k i = (e, s') \<Longrightarrow> service_step s now (SvDeleteGrants k i) s'"
| create_role: "service_CreateRole s r = (e, s') \<Longrightarrow> service_step s now (SvCreateRole r) s'"
| update_role: "service_UpdateRole s r = (e, s') \<Longrightarrow> service_step s now (SvUpdateRole r) s'"
| delete_role: "service_DeleteRole s i = (e, s') \<Longrightarrow> service_step s now (SvDeleteRole i) s'"
| add_inheritance: "service_AddRoleInheritance s p c = (e, s') \<Longrightarrow>
    service_step s now (SvAddRoleInheritance p c) s'"
| ensure_synthetic: "EnsureSyntheticRoles s = (e, s') \<Longrightarrow> service_step s now SvEnsureSyntheticRoles s'"
| save_built_ins: "\<forall>g \<in> set gs. wf_grant g \<Longrightarrow> SaveBuiltIns s gs = (e, s') \<Longrightarrow>
    service_step s now (SvSaveBuiltIns gs) s'"
| set_built_ins: "\<forall>g \<in> set gs. wf_grant g \<Longrightarrow> service_step s now (SvSetBuiltInGrants gs) (SetBuiltInGrants s gs)"
| add_default: "AddDefaultGrant s r p t = (e, s') \<Longrightarrow> service_step s now (SvAddDefaultGrant r p t) s'"
| add_built_in: "AddBuiltInRole s r = (e, s') \<Longrightarrow> service_step s now (SvAddBuiltInRole r) s'"
| add_team_role: "AddBuiltInTeamRole s r = (e, s') \<Longrightarrow> service_step s now (SvAddBuiltInTeamRole r) s'"
| assign: "service_AssignRole s p r b = (e, s') \<Longrightarrow> service_step s now (SvAssignRole p r b) s'"
| assign_user: "AssignRoleToUser s u r b = (e, s') \<Longrightarrow> service_step s now (SvAssignRoleToUser u r b) s'"
| unassign: "service_UnassignRole s p r b = (e, s') \<Longrightarrow> service_step s now (SvUnassignRole p r b) s'"
| disable: "service_DisableBuiltInRole s r = (e, s') \<Longrightarrow> service_step s now (SvDisable r) s'"
| enable: "service_EnableBuiltInRole s r = (e, s') \<Longrightarrow> service_step s now (SvEnable r) s'"
| check: "evaluatePermission now s req fp = (x, s') \<Longrightarrow> service_step s now (SvRead (RdCheck req fp)) s'"
| has: "HasPermission now s req = (x, s') \<Longrightarrow> service_step s now (SvRead (RdHasPermission req)) s'"
| has_system: "HasSystemPermission now s u p = (x, s') \<Longrightarrow> service_step s now (SvRead (RdHasSystemPermission u p)) s'"
| has_team: "HasTeamPermission now s u t ob p = (x, s') \<Longrightarrow> service_step s now (SvRead (RdHasTeamPermission u t ob p)) s'"
| has_field: "HasFieldPermission now s req path = (x, s') \<Longrightarrow> service_step s now (SvRead (RdHasFieldPermission req path)) s'"
| filter_permitted: "FilterPermittedFields now s req paths = (x', s') \<Longrightarrow>
    service_step s now (SvRead (RdFilterPermittedFields req paths)) s'"
| role_definition: "RoleDefinition now s r = (d, s') \<Longrightarrow> service_step s now (SvRead (RdRoleDefinition r)) s'"
| role_definitions: "service_RoleDefinitions now s = (ds, s') \<Longrightarrow> service_step s now (SvRead RdRoleDefinitions) s'"
| roles_by_scope: "service_RoleDefinitionsByScope now s sc = (ds, s') \<Longrightarrow>
    service_step s now (SvRead (RdRoleDefinitionsByScope sc)) s'"
| roles_by_tag: "service_RoleDefinitionsByTag folded now s tag = (ds, s') \<Longrightarrow>
    service_step s now (SvRead (RdRoleDefinitionsByTag folded tag)) s'"
| expand: "service_ExpandRoles now s ids = (x', s') \<Longrightarrow> service_step s now (SvRead (RdExpandRoles ids)) s'"
| effective: "EffectivePermissions now s u t ob = (ps, s') \<Longrightarrow>
    service_step s now (SvRead (RdEffectivePermissions u t ob)) s'"
| allowed_teams: "AllowedTeamsForUser now s u p = (x', s') \<Longrightarrow> service_step s now (SvRead (RdAllowedTeamsForUser u p)) s'"
| report: "GenerateReport visit now s query = (rep, s') \<Longrightarrow> service_step s now (SvRead (RdGenerateReport visit query)) s'"

inductive_cases service_disableE: "service_step s now (SvDisable r) s'"

inductive service_reachable :: "boot_service \<Rightarrow> bool" where
  start: "service_reachable New"
| step: "service_reachable s \<Longrightarrow> service_step s now ev s' \<Longrightarrow> service_reachable s'"

section \<open>The invariant\<close>

definition disabled_now :: "boot_service \<Rightarrow> string set" where
  "disabled_now s = set (bs_disabledBuiltInRoles (sv_store s))"

definition cache_coherent :: "boot_service \<Rightarrow> bool" where
  "cache_coherent s \<longleftrightarrow> (\<forall>t. sv_disabledCacheAt s = Some t \<longrightarrow> sv_disabledCache s = Some (disabled_now s))"

definition wf_stored :: "boot_service \<Rightarrow> bool" where
  "wf_stored s \<longleftrightarrow> sv_ops s = bootstrap_ops \<and> wf_bootstrap (sv_store s) \<and> cache_coherent s"

definition wf_service :: "boot_service \<Rightarrow> bool" where
  "wf_service s \<longleftrightarrow> wf_builtIns s \<and> wf_stored s"

lemma on_store_eq: "on_store s r = (e, s') \<longleftrightarrow> (\<exists>st. r = (e, st) \<and> s' = s\<lparr>sv_store := st\<rparr>)"
  by (cases r) auto

lemma on_registry_eq: "on_registry s r = (e, s') \<longleftrightarrow> (\<exists>reg. r = (e, reg) \<and> s' = s\<lparr>sv_builtIns := reg\<rparr>)"
  by (cases r) auto

lemma wf_stored_registry [simp]: "wf_stored (s\<lparr>sv_builtIns := reg\<rparr>) = wf_stored s"
  by (simp add: wf_stored_def cache_coherent_def disabled_now_def)

lemma wf_stored_on_registry: "on_registry s r = (e, s') \<Longrightarrow> wf_stored s' = wf_stored s"
  by (auto simp: on_registry_eq)

text \<open>Writes that leave the disabled roles alone keep the invariant if they keep the store's.\<close>

definition quiet :: "bootstrap_store \<Rightarrow> bootstrap_store update \<Rightarrow> bool" where
  "quiet st r \<longleftrightarrow> (wf_bootstrap st \<longrightarrow> wf_bootstrap (snd r)) \<and>
     bs_disabledBuiltInRoles (snd r) = bs_disabledBuiltInRoles st"

lemma wf_stored_on_store: "quiet (sv_store s) r \<Longrightarrow> wf_stored s \<Longrightarrow> on_store s r = (e, s') \<Longrightarrow> wf_stored s'"
  by (auto simp: on_store_eq wf_stored_def cache_coherent_def disabled_now_def quiet_def)

lemma quietI:
  assumes "\<And>e st'. r = (e, st') \<Longrightarrow> wf_bootstrap st \<Longrightarrow> wf_bootstrap st'"
    and "\<And>e st'. r = (e, st') \<Longrightarrow> bs_disabledBuiltInRoles st' = bs_disabledBuiltInRoles st"
  shows "quiet st r"
  using assms [of "fst r" "snd r"] by (simp add: quiet_def)

lemma bootstrap_CreateGrants_disabled:
  "bootstrap_CreateGrants s gs = (e, s') \<Longrightarrow> bs_disabledBuiltInRoles s' = bs_disabledBuiltInRoles s"
  by (induction gs arbitrary: s) (fastforce split: option.splits)+

lemma bootstrap_AddRoleInheritance_disabled:
  "bootstrap_AddRoleInheritance s p c = (e, s') \<Longrightarrow> bs_disabledBuiltInRoles s' = bs_disabledBuiltInRoles s"
  by (erule bootstrap_AddRoleInheritance_cases) simp_all

lemma quiet_roles:
  "quiet st (bootstrap_CreateRole st r)" "quiet st (bootstrap_UpdateRole st r)"
  "quiet st (bootstrap_DeleteRole st i)"
  by (rule quietI; (erule wf_bootstrap_CreateRole wf_bootstrap_UpdateRole wf_bootstrap_DeleteRole
        [rotated], assumption | simp add: bootstrap_CreateRole_def bootstrap_UpdateRole_def
        bootstrap_DeleteRole_def split: if_splits); auto)+

lemma quiet_inheritance: "quiet st (bootstrap_AddRoleInheritance st p c)"
  by (rule quietI; rule wf_bootstrap_AddRoleInheritance bootstrap_AddRoleInheritance_disabled)

lemma quiet_assignments:
  "quiet st (bootstrap_AssignRole st who i bs b)" "quiet st (bootstrap_UnassignRole st who i bs b)"
  by (rule quietI, erule wf_bootstrap_AssignRole [rotated], assumption,
      force simp: bootstrap_AssignRole_def Let_def split: if_splits option.splits)
    (rule quietI, erule wf_bootstrap_UnassignRole [rotated], assumption,
      force simp: bootstrap_UnassignRole_def Let_def split: if_splits option.splits)

lemma quiet_grants:
  "quiet st (bootstrap_CreateGrant st g)" "quiet st (bootstrap_CreateGrants st gs)"
  "quiet st (bootstrap_DeleteGrantsForOwner st k i)"
  by (rule quietI, erule wf_bootstrap_CreateGrant [rotated], assumption,
      force simp: bootstrap_CreateGrant_def split: option.splits)
    (rule quietI, erule wf_bootstrap_CreateGrants [rotated], assumption,
      erule bootstrap_CreateGrants_disabled,
     rule quietI, erule wf_bootstrap_DeleteGrants [rotated], assumption,
      force simp: bootstrap_DeleteGrantsForOwner_def)

lemmas quiet_writes = quiet_roles quiet_inheritance quiet_assignments quiet_grants

lemma wf_stored_ops: "wf_stored s \<Longrightarrow> sv_ops s = bootstrap_ops"
  by (simp add: wf_stored_def)

lemmas wf_stored_intros = wf_stored_on_registry [THEN iffD2] quiet_writes [THEN wf_stored_on_store]

lemma wf_stored_CreateGrant: "wf_stored s \<Longrightarrow> service_CreateGrant s g = (e, s') \<Longrightarrow> wf_stored s'"
  by (auto simp: service_CreateGrant_def wf_stored_ops intro: wf_stored_intros split: if_splits)

lemma wf_stored_CreateGrants: "wf_stored s \<Longrightarrow> service_CreateGrants s gs = (e, s') \<Longrightarrow> wf_stored s'"
  by (auto simp: service_CreateGrants_def wf_stored_ops intro: wf_stored_intros split: if_splits sum.splits)

lemma wf_stored_Ensure:
  "wf_stored s \<Longrightarrow> EnsureGrantForOwner now s g = (e, s') \<Longrightarrow> wf_stored s'"
  "wf_stored s \<Longrightarrow> EnsureGrantsForOwners now s gs = (e, s') \<Longrightarrow> wf_stored s'"
  by (auto simp: EnsureGrantForOwner_def EnsureGrantsForOwners_def wf_stored_ops
      intro: wf_stored_intros dest: wf_stored_CreateGrants split: if_splits sum.splits bool.splits)

lemma wf_stored_roles:
  "wf_stored s \<Longrightarrow> service_CreateRole s r = (e, s') \<Longrightarrow> wf_stored s'"
  "wf_stored s \<Longrightarrow> service_UpdateRole s r = (e, s') \<Longrightarrow> wf_stored s'"
  "wf_stored s \<Longrightarrow> service_DeleteRole s i = (e, s') \<Longrightarrow> wf_stored s'"
  "wf_stored s \<Longrightarrow> service_AddRoleInheritance s p c = (e, s') \<Longrightarrow> wf_stored s'"
  "wf_stored s \<Longrightarrow> ensureRoleExists s r = (e, s') \<Longrightarrow> wf_stored s'"
  "wf_stored s \<Longrightarrow> service_DeleteGrantsForOwner s k i = (e, s') \<Longrightarrow> wf_stored s'"
  by (auto simp: service_CreateRole_def service_UpdateRole_def service_DeleteRole_def ensureRoleExists_def
      service_AddRoleInheritance_def service_DeleteGrantsForOwner_def wf_stored_ops
      intro: wf_stored_intros split: if_splits)

lemma wf_stored_assignments:
  "wf_stored s \<Longrightarrow> service_AssignRole s who r b = (e, s') \<Longrightarrow> wf_stored s'"
  "wf_stored s \<Longrightarrow> service_UnassignRole s who r b = (e, s') \<Longrightarrow> wf_stored s'"
  by (auto simp: service_AssignRole_def service_UnassignRole_def wf_stored_ops intro: wf_stored_intros)

lemma wf_stored_ensure_roles: "wf_stored s \<Longrightarrow> ensure_roles roles seen s = (e, s') \<Longrightarrow> wf_stored s'"
proof (induction roles arbitrary: seen s)
  case (Cons role rest)
  obtain e1 s1 where run: "ensureRoleExists s role = (e1, s1)" by fastforce
  then have "wf_stored s1" using Cons.prems(1) by (rule wf_stored_roles(5) [rotated])
  then show ?case using Cons run by (auto split: if_splits option.splits)
qed simp

lemma wf_stored_seeds:
  "wf_stored s \<Longrightarrow> seed_grants gs s = (e, s') \<Longrightarrow> wf_stored s'"
  "wf_stored s \<Longrightarrow> seed_permissions r grant_for perms s = (e, s') \<Longrightarrow> wf_stored s'"
proof -
  show "wf_stored s \<Longrightarrow> seed_grants gs s = (e, s') \<Longrightarrow> wf_stored s'"
  proof (induction gs arbitrary: s)
    case (Cons g gs)
    obtain e1 s1 where run: "on_registry s (builtIn_AddGrant (sv_builtIns s) g) = (e1, s1)" by fastforce
    with Cons show ?case using wf_stored_on_registry [OF run] by (auto split: if_splits option.splits)
  qed simp
  show "wf_stored s \<Longrightarrow> seed_permissions r grant_for perms s = (e, s') \<Longrightarrow> wf_stored s'"
  proof (induction perms arbitrary: s)
    case (Cons p perms)
    obtain e1 s1 where run: "on_registry s (builtIn_AddGrant (sv_builtIns s) (grant_for p)) = (e1, s1)" by fastforce
    with Cons show ?case using wf_stored_on_registry [OF run] by (auto split: option.splits)
  qed simp
qed

lemma wf_stored_SaveBuiltIns:
  assumes "wf_stored s" "SaveBuiltIns s gs = (e, s')"
  shows "wf_stored s'"
proof -
  obtain e1 s1 where run: "EnsureSyntheticRoles s = (e1, s1)" by fastforce
  then have "wf_stored s1" using assms(1) wf_stored_ensure_roles unfolding EnsureSyntheticRoles_def by blast
  then show ?thesis
    using assms(2) run wf_stored_seeds(1) by (auto simp: SaveBuiltIns_def split: option.splits)
qed

lemma wf_stored_add_built_in:
  assumes "wf_stored s" "add_built_in grant_for s role = (e, s')"
  shows "wf_stored s'"
proof -
  define id' where "id' = (if \<not> HasPrefix (ro_ID role) BuiltInPrefix then BuiltInPrefix @ ro_ID role else ro_ID role)"
  obtain e1 s1 where run: "on_registry s (builtIn_RegisterRole (sv_builtIns s)
      (role\<lparr>ro_ID := id', ro_BuiltIn := True\<rparr>)) = (e1, s1)" by fastforce
  then have "wf_stored s1" using assms(1) wf_stored_on_registry by blast
  moreover have "s' = s \<or> s' = s1 \<or> seed_permissions id' (grant_for id') (ro_Permissions role) s1 = (e, s')"
    using assms(2) unfolding add_built_in_def id'_def [symmetric] Let_def run
    by (cases e1) (simp_all split: if_splits)
  ultimately show ?thesis using assms(1) wf_stored_seeds(2) by blast
qed

text \<open>Switching a built-in role drops the cache; a failed switch changes nothing.\<close>

lemma service_DisableBuiltInRole_bootstrap:
  "sv_ops s = bootstrap_ops \<Longrightarrow> service_DisableBuiltInRole s r =
     (if r = '''' then (Some (Errorf ''role ID is required'' []), s)
      else (None, s\<lparr>sv_store := (sv_store s)\<lparr>bs_disabledBuiltInRoles :=
        List.insert r (bs_disabledBuiltInRoles (sv_store s))\<rparr>, sv_disabledCacheAt := None\<rparr>))"
  by (simp add: service_DisableBuiltInRole_def bootstrap_DisableBuiltInRole_def invalidateDisabledCache_def)

lemma service_EnableBuiltInRole_bootstrap:
  "sv_ops s = bootstrap_ops \<Longrightarrow> service_EnableBuiltInRole s r =
     (if r = '''' then (Some (Errorf ''role ID is required'' []), s)
      else (None, s\<lparr>sv_store := (sv_store s)\<lparr>bs_disabledBuiltInRoles :=
        removeAll r (bs_disabledBuiltInRoles (sv_store s))\<rparr>, sv_disabledCacheAt := None\<rparr>))"
  by (simp add: service_EnableBuiltInRole_def bootstrap_EnableBuiltInRole_def invalidateDisabledCache_def)

lemma wf_stored_toggle:
  assumes "wf_stored s"
  shows "service_DisableBuiltInRole s r = (e, s') \<Longrightarrow> wf_stored s'"
    and "service_EnableBuiltInRole s r = (e, s') \<Longrightarrow> wf_stored s'"
proof -
  have "r \<noteq> '''' \<Longrightarrow> wf_bootstrap ((sv_store s)\<lparr>bs_disabledBuiltInRoles := List.insert r (bs_disabledBuiltInRoles (sv_store s))\<rparr>)"
    "wf_bootstrap ((sv_store s)\<lparr>bs_disabledBuiltInRoles := removeAll r (bs_disabledBuiltInRoles (sv_store s))\<rparr>)"
    using assms by (auto simp: wf_stored_def wf_bootstrap_def distinct_removeAll)
  then show "service_DisableBuiltInRole s r = (e, s') \<Longrightarrow> wf_stored s'"
    and "service_EnableBuiltInRole s r = (e, s') \<Longrightarrow> wf_stored s'"
    using assms
    by (auto simp: service_DisableBuiltInRole_bootstrap service_EnableBuiltInRole_bootstrap wf_stored_def
        cache_coherent_def split: if_splits)
qed

text \<open>Reads refresh the cache with what the store lists.\<close>

lemma wf_stored_view:
  assumes "wf_stored s" "same_view now s s'"
  shows "wf_stored s'"
proof -
  have "wf_stored (refresh now s)"
    using assms(1) by (auto simp: wf_stored_def cache_coherent_def disabled_now_def refresh_def
        getDisabledBuiltInRoles_def bootstrap_DisabledBuiltInRoles_def split: option.splits)
  then show ?thesis using assms by (auto simp: same_view_def)
qed

lemma wf_builtIns_view: "wf_builtIns s \<Longrightarrow> same_view now s s' \<Longrightarrow> wf_builtIns s'"
  by (auto simp: same_view_def wf_builtIns_def)

lemma wf_service_view: "wf_service s \<Longrightarrow> same_view now s s' \<Longrightarrow> wf_service s'"
  unfolding wf_service_def using wf_stored_view wf_builtIns_view by blast

lemma wf_service_snd: "same_view now s (snd r) \<Longrightarrow> wf_service s \<Longrightarrow> r = (x, s') \<Longrightarrow> wf_service s'"
  using wf_service_view [of s now "snd r"] by simp

lemmas wf_service_reads = reads_view [THEN wf_service_snd]

text \<open>Configuration and setting another store.\<close>

lemma wf_service_configure:
  "wf_service s \<Longrightarrow> wf_service (SetIdentityProvider s i)" "wf_service s \<Longrightarrow> wf_service (SetSubjectFunc s f)"
  "wf_service s \<Longrightarrow> wf_service (SetPublicRoleID s r)" "wf_service s \<Longrightarrow> wf_service (SetAuthenticatedRoleID s r)"
  "wf_service s \<Longrightarrow> wf_service (SetAdminRoleID s r)" "wf_service s \<Longrightarrow> wf_service (SetAdminGroupID s g)"
  "wf_service s \<Longrightarrow> wf_service (SetSyntheticRoleIDs s p a d)"
  by (simp_all add: wf_service_def wf_builtIns_def wf_stored_def cache_coherent_def disabled_now_def
      SetIdentityProvider_def SetSubjectFunc_def SetPublicRoleID_def SetAuthenticatedRoleID_def
      SetAdminRoleID_def SetSyntheticRoleIDs_def SetAdminGroupID_def)

lemma wf_service_SetStore: "wf_service s \<Longrightarrow> wf_bootstrap st \<Longrightarrow> wf_service (SetStore s bootstrap_ops st)"
  by (simp add: wf_service_def wf_builtIns_def wf_stored_def cache_coherent_def SetStore_def
      invalidateDisabledCache_def)

text \<open>The writing operations, the shorthands for grants first.\<close>

lemma wf_service_CreateGrant: "wf_service s \<Longrightarrow> wf_grant g \<Longrightarrow> service_CreateGrant s g = (e, s') \<Longrightarrow> wf_service s'"
  unfolding wf_service_def using wf_stored_CreateGrant wf_builtIns_CreateGrant by blast

lemma wf_service_shorthands:
  assumes "wf_service s"
  shows "AllowUser s u p ob = (e, s') \<Longrightarrow> wf_service s'" "AllowUserUntil s u p ob t = (e, s') \<Longrightarrow> wf_service s'"
    "AllowUserFor now s u p ob d = (e, s') \<Longrightarrow> wf_service s'" "DenyUser s u p ob = (e, s') \<Longrightarrow> wf_service s'"
    "DenyUserUntil s u p ob t = (e, s') \<Longrightarrow> wf_service s'" "DenyUserFor now s u p ob d = (e, s') \<Longrightarrow> wf_service s'"
    "AllowRole s u p ob = (e, s') \<Longrightarrow> wf_service s'" "AllowRoleUntil s u p ob t = (e, s') \<Longrightarrow> wf_service s'"
    "AllowRoleFor now s u p ob d = (e, s') \<Longrightarrow> wf_service s'"
  using wf_service_CreateGrant [OF assms new_grant_simps(10)] assms
  by (auto simp: AllowUser_def AllowUserUntil_def AllowUserFor_def DenyUser_def DenyUserUntil_def DenyUserFor_def
      AllowRole_def AllowRoleUntil_def AllowRoleFor_def split: if_splits)

lemma wf_service_built_in_grants:
  assumes "wf_service s" "\<forall>g \<in> set gs. wf_grant g"
  shows "SaveBuiltIns s gs = (e, s') \<Longrightarrow> wf_service s'" "wf_service (SetBuiltInGrants s gs)"
proof -
  show saved: "wf_service s'" if "SaveBuiltIns s gs = (e, s')" for e s'
    using assms that wf_stored_SaveBuiltIns wf_builtIns_SaveBuiltIns unfolding wf_service_def by blast
  show "wf_service (SetBuiltInGrants s gs)"
    unfolding SetBuiltInGrants_def by (rule saved [OF prod.collapse [symmetric]])
qed

lemma wf_service_EnsureSynthetic: "wf_service s \<Longrightarrow> EnsureSyntheticRoles s = (e, s') \<Longrightarrow> wf_service s'"
  unfolding wf_service_def EnsureSyntheticRoles_def
  using wf_stored_ensure_roles wf_builtIns_ensure_roles by blast

lemma wf_service_AddDefaultGrant:
  assumes "wf_service s" "AddDefaultGrant s r p t = (e, s')"
  shows "wf_service s'"
proof -
  have "wf_service (snd (on_registry s (builtIn_AddGrant (sv_builtIns s) (new_grant PrincipalRole i EffectAllow ts None q None))))"
    for i ts q
    using assms(1) wf_stored_on_registry wf_builtIns_AddGrant [OF _ new_grant_simps(10)]
    unfolding wf_service_def by (metis prod.collapse)
  with assms show ?thesis by (auto simp: AddDefaultGrant_def Let_def split: if_splits)
qed

lemma wf_stored_AssignRoleToUser: "wf_stored s \<Longrightarrow> AssignRoleToUser s u r b = (e, s') \<Longrightarrow> wf_stored s'"
  by (auto simp: AssignRoleToUser_def wf_stored_ops intro: wf_stored_intros split: if_splits)

lemma wf_builtIns_invalidate [simp]: "wf_builtIns (invalidateDisabledCache s) = wf_builtIns s"
  by (simp add: wf_builtIns_def invalidateDisabledCache_def)

lemma wf_builtIns_store_writes:
  assumes "wf_builtIns s"
  shows "service_DeleteGrantsForOwner s k i = (e, s') \<Longrightarrow> wf_builtIns s'"
    "service_CreateRole s r = (e, s') \<Longrightarrow> wf_builtIns s'" "service_UpdateRole s r = (e, s') \<Longrightarrow> wf_builtIns s'"
    "service_DeleteRole s i = (e, s') \<Longrightarrow> wf_builtIns s'" "service_AddRoleInheritance s p c = (e, s') \<Longrightarrow> wf_builtIns s'"
    "service_AssignRole s who i b = (e, s') \<Longrightarrow> wf_builtIns s'" "AssignRoleToUser s u i b = (e, s') \<Longrightarrow> wf_builtIns s'"
    "service_UnassignRole s who i b = (e, s') \<Longrightarrow> wf_builtIns s'"
    "service_DisableBuiltInRole s i = (e, s') \<Longrightarrow> wf_builtIns s'" "service_EnableBuiltInRole s i = (e, s') \<Longrightarrow> wf_builtIns s'"
  using assms
  by (auto simp: service_DeleteGrantsForOwner_def service_CreateRole_def service_UpdateRole_def service_DeleteRole_def
      service_AddRoleInheritance_def service_AssignRole_def AssignRoleToUser_def service_UnassignRole_def
      service_DisableBuiltInRole_def service_EnableBuiltInRole_def wf_builtIns_on_store_eq
      dest: wf_builtIns_RegisterRole wf_builtIns_AddRoleInheritance split: if_splits prod.splits option.splits)

lemma wf_service_writes:
  assumes "wf_service s"
  shows "service_CreateGrants s gs = (e, s') \<Longrightarrow> wf_service s'" "EnsureGrantForOwner now s g = (e, s') \<Longrightarrow> wf_service s'"
    "EnsureGrantsForOwners now s gs = (e, s') \<Longrightarrow> wf_service s'"
    "service_DeleteGrantsForOwner s k i = (e, s') \<Longrightarrow> wf_service s'"
    "service_CreateRole s r = (e, s') \<Longrightarrow> wf_service s'" "service_UpdateRole s r = (e, s') \<Longrightarrow> wf_service s'"
    "service_DeleteRole s i = (e, s') \<Longrightarrow> wf_service s'" "service_AddRoleInheritance s p c = (e, s') \<Longrightarrow> wf_service s'"
    "AddBuiltInRole s r = (e, s') \<Longrightarrow> wf_service s'" "AddBuiltInTeamRole s r = (e, s') \<Longrightarrow> wf_service s'"
    "service_AssignRole s who i b = (e, s') \<Longrightarrow> wf_service s'" "AssignRoleToUser s u i b = (e, s') \<Longrightarrow> wf_service s'"
    "service_UnassignRole s who i b = (e, s') \<Longrightarrow> wf_service s'"
    "service_DisableBuiltInRole s i = (e, s') \<Longrightarrow> wf_service s'" "service_EnableBuiltInRole s i = (e, s') \<Longrightarrow> wf_service s'"
  using assms
  by (auto simp: wf_service_def AddBuiltInRole_def AddBuiltInTeamRole_def
      dest: wf_stored_CreateGrants wf_builtIns_CreateGrants wf_stored_Ensure wf_builtIns_Ensure wf_stored_roles
        wf_builtIns_store_writes wf_stored_add_built_in wf_stored_assignments wf_stored_AssignRoleToUser
        wf_stored_toggle wf_builtIns_AddBuiltIn [unfolded AddBuiltInRole_def AddBuiltInTeamRole_def])

lemma service_step_wf: "service_step s now ev s' \<Longrightarrow> wf_service s \<Longrightarrow> wf_service s'"
  by (induction rule: service_step.induct)
    (auto intro: wf_service_configure wf_service_SetStore wf_service_built_in_grants(2)
      dest: wf_service_CreateGrant wf_service_shorthands wf_service_writes wf_service_EnsureSynthetic
        wf_service_built_in_grants(1) wf_service_AddDefaultGrant wf_service_reads)

lemma wf_New: "wf_service New"
  by (simp add: wf_service_def wf_builtIns_def wf_stored_def cache_coherent_def New_def NewService_def)

lemma reachable_wf_service: "service_reachable s \<Longrightarrow> wf_service s"
  by (induction rule: service_reachable.induct) (rule wf_New, rule service_step_wf)

section \<open>The cache and the switches\<close>

lemma disabled_view_now: "wf_stored s \<Longrightarrow> disabled_view now s = disabled_now s"
  by (auto simp: disabled_view_def getDisabledBuiltInRoles_def cached_disabled_def wf_stored_def
      cache_coherent_def bootstrap_DisabledBuiltInRoles_def disabled_now_def split: option.splits)

lemma disabled_role_not_expanded: "expand_view now s root = Inr ids \<Longrightarrow> r \<in> disabled_view now s \<Longrightarrow> r \<notin> set ids"
  by (auto simp: expand_view_def role_enabled_def)

text \<open>What an assignment contributes is owned by enabled roles of its expansion.\<close>

lemma assignment_grants_owner:
  assumes "assignment_grants now s req a = Inr cs" "g \<in> set cs" "gr_OwnerKind g = PrincipalRole"
  obtains ids where "expand_view now s (ra_RoleID a) = Inr ids" "gr_OwnerID g \<in> set ids"
proof -
  obtain ids gs where parts: "expand_view now s (ra_RoleID a) = Inr ids"
    "role_candidates now (set ids) [(ra_RoleID a, ra_BindingValues a)] gs = Inr cs"
    using assms(1) by (auto simp: assignment_grants_def)
  obtain g' where g': "gr_OwnerKind g' = PrincipalRole \<longrightarrow> gr_OwnerID g' \<in> set ids"
    "resolveGrantBindings g' [(ra_RoleID a, ra_BindingValues a)] = Inr g"
    using collect_Inr_in [OF parts(2) [unfolded role_candidates_def] assms(2)] by auto
  with resolveGrantBindings_frame(2,3) [OF g'(2)] assms(3) have "gr_OwnerID g \<in> set ids" by simp
  with parts(1) show ?thesis by (rule that)
qed

end
