(* ===== verification/Grant_Effects.thy ===== *)
theory Grant_Effects
  imports Service_Runs
begin

text \<open>
  How writing a user's grant changes the answers of the permission check, for a service on the
  default store: the candidates of a request gain exactly the new grant if it concerns the
  request's user. Denies only ever take permissions away, allows only ever add them, and an
  expired grant counts for nothing.
\<close>

section \<open>The candidates after a grant was added\<close>

definition with_grant :: "boot_service \<Rightarrow> grant \<Rightarrow> boot_service" where
  "with_grant s g = s\<lparr>sv_store := (sv_store s)\<lparr>bs_grants := bs_grants (sv_store s) @ [g]\<rparr>\<rparr>"

lemma with_grant_simps [simp]:
  "sv_ops (with_grant s g) = sv_ops s" "sv_builtIns (with_grant s g) = sv_builtIns s"
  "sv_identity (with_grant s g) = sv_identity s" "sv_publicRoleID (with_grant s g) = sv_publicRoleID s"
  "sv_authenticatedRoleID (with_grant s g) = sv_authenticatedRoleID s"
  "sv_adminRoleID (with_grant s g) = sv_adminRoleID s" "sv_adminGroupID (with_grant s g) = sv_adminGroupID s"
  "sv_disabledCache (with_grant s g) = sv_disabledCache s"
  "sv_disabledCacheAt (with_grant s g) = sv_disabledCacheAt s"
  "sv_store (with_grant s g) = (sv_store s)\<lparr>bs_grants := bs_grants (sv_store s) @ [g]\<rparr>"
  by (simp_all add: with_grant_def)

lemma GrantsForOwners_added:
  assumes "wf_grant g"
  shows "bootstrap_GrantsForOwners now (st\<lparr>bs_grants := bs_grants st @ [g]\<rparr>) owners req =
    attempt (bootstrap_GrantsForOwners now st owners req) (\<lambda>gs. Inr (gs @
      (if owned_by owners g \<and> \<not> IsExpiredAt g now \<and> perm_filter req g \<and> scope_filter req g then [g] else [])))"
proof (cases "owner_keys owners")
  case (Inr keys)
  then have "keys = principalKey ` set owners" by (simp add: owner_keys_Inr)
  then show ?thesis
    using assms Inr
    by (auto simp: bootstrap_GrantsForOwners_def Let_def owned_by_def grant_owner_def perm_filter_def
        scope_filter_def split: option.splits)
qed (simp add: bootstrap_GrantsForOwners_def)

lemma user_key: "principalKey \<lparr>pr_Kind = PrincipalUser, pr_ID = i\<rparr> = principalKey p \<longleftrightarrow>
    p = \<lparr>pr_Kind = PrincipalUser, pr_ID = i\<rparr>" if "pr_Kind p \<in> set valid_kinds"
  using that principalKey_inj [of "\<lparr>pr_Kind = PrincipalUser, pr_ID = i\<rparr>" p] by (auto simp: valid_kinds_def)

lemma owned_by_roles: "gr_OwnerKind g = PrincipalUser \<Longrightarrow> \<not> owned_by (map role_ref ids) g"
  by (auto simp: owned_by_def grant_owner_def role_ref_def user_key valid_kinds_def)

lemma owned_by_unbound:
  "gr_OwnerKind g = PrincipalUser \<Longrightarrow>
     owned_by (unbound_owners u groups) g \<longleftrightarrow> u \<noteq> '''' \<and> gr_OwnerID g = u"
  by (auto simp: owned_by_def grant_owner_def unbound_owners_def user_key valid_kinds_def)

lemma held_with_grant:
  assumes "sv_ops s = bootstrap_ops"
  shows "held_assignments (with_grant s g) = held_assignments s"
proof -
  have role: "assignment_role (with_grant s g) = assignment_role s"
    using assms by (intro ext) (simp add: assignment_role_def bootstrap_RoleDefinition_def)
  have unique: "appendUnique (with_grant s g) as acc = appendUnique s as acc" for as acc
    by (induction as arbitrary: acc) (auto simp: role split: option.split)
  have "bootstrap_RoleAssignmentsForPrincipal ((sv_store s)\<lparr>bs_grants := x\<rparr>) =
      bootstrap_RoleAssignmentsForPrincipal (sv_store s)" for x
    by (intro ext) (simp add: bootstrap_RoleAssignmentsForPrincipal_def split: option.split)
  then have "append_all (with_grant s g) ps acc = append_all s ps acc" for ps acc
    using assms by (induction ps arbitrary: acc) (simp_all add: unique)
  moreover have "syntheticRoleAssignments (with_grant s g) = syntheticRoleAssignments s"
    by (intro ext) (simp add: syntheticRoleAssignments_def)
  moreover have "resolveUserGroupIDs (with_grant s g) = resolveUserGroupIDs s"
    "resolveUserTeamIDs (with_grant s g) = resolveUserTeamIDs s"
    by (simp_all add: fun_eq_iff resolveUserGroupIDs_def resolveUserTeamIDs_def)
  ultimately show ?thesis
    by (simp add: fun_eq_iff held_assignments_def resolveRoleAssignmentsForUserGroupsAndTeams_def unique)
qed

lemma expand_with_grant:
  assumes "sv_ops s = bootstrap_ops"
  shows "expand_view now (with_grant s g) = expand_view now s"
proof -
  have "disabled_view now (with_grant s g) = disabled_view now s"
    using assms by (simp add: disabled_view_def getDisabledBuiltInRoles_def cached_disabled_def
        bootstrap_DisabledBuiltInRoles_def split: option.split)
  moreover from this have "role_view now (with_grant s g) = role_view now s"
    using assms by (intro ext) (simp add: role_view_def bootstrap_RoleDefinition_def split: option.split)
  ultimately have "role_enabled now (with_grant s g) = role_enabled now s"
    by (intro ext) (simp add: role_enabled_def)
  moreover have "raw_expansion (with_grant s g) = raw_expansion s"
    using assms by (intro ext) (simp add: raw_expansion_def bootstrap_ExpandRoles_def)
  ultimately show ?thesis by (intro ext) (simp add: expand_view_def)
qed

lemma fetch_with_grant:
  assumes "sv_ops s = bootstrap_ops" "wf_grant g" "gr_OwnerKind g = PrincipalUser"
  shows "fetchRoleGrants now (with_grant s g) = fetchRoleGrants now s"
  using assms by (simp add: fun_eq_iff fetchRoleGrants_def Let_def GrantsForOwners_added owned_by_roles cong: if_cong)

text \<open>The request's user owns the grant, and the store's filters let it pass.\<close>

definition adds_candidate :: "time \<Rightarrow> request \<Rightarrow> grant \<Rightarrow> bool" where
  "adds_candidate now req g \<longleftrightarrow> rq_UserID req \<noteq> '''' \<and> gr_OwnerID g = rq_UserID req \<and>
     \<not> IsExpiredAt g now \<and> perm_filter req g \<and> scope_filter req g"

lemma candidates_with_grant:
  assumes "sv_ops s = bootstrap_ops" "wf_grant g" "gr_OwnerKind g = PrincipalUser"
  shows "map_sum id set (candidate_grants now (with_grant s g) req) =
    map_sum id (\<lambda>gs. set gs \<union> (if adds_candidate now req g then {g} else {})) (candidate_grants now s req)"
proof -
  have assignment: "assignment_grants now (with_grant s g) req = assignment_grants now s req"
    using assms by (simp add: fun_eq_iff assignment_grants_def expand_with_grant fetch_with_grant)
  have groups: "resolveUserGroupIDs (with_grant s g) = resolveUserGroupIDs s"
    by (simp add: fun_eq_iff resolveUserGroupIDs_def)
  have owners: "unbound_owners u gs = [] \<Longrightarrow> u = ''''" for u gs
    by (auto simp: unbound_owners_def split: if_splits)
  have own: "own_grants now (with_grant s g) req = attempt (own_grants now s req)
      (\<lambda>gs. Inr (gs @ (if adds_candidate now req g then [g] else [])))"
    using assms owners
    by (auto simp: own_grants_def groups direct_grants_def GrantsForOwners_added owned_by_unbound
        adds_candidate_def attempt_assoc intro!: attempt_cong)
  show ?thesis
    unfolding candidate_grants_def held_with_grant [OF assms(1)] assignment own
    by (cases "held_assignments s (rq_UserID req)"; cases "own_grants now s req";
        cases "collect (assignment_grants now s req) (projr (held_assignments s (rq_UserID req)))") auto
qed

section \<open>Denies and allows\<close>

lemma CreateGrant_with_grant:
  assumes "sv_ops s = bootstrap_ops" "wf_grant g" "gr_OwnerKind g = PrincipalUser"
    and "service_CreateGrant s g = (None, s')"
  shows "s' = with_grant s g" and "gr_OwnerID g \<noteq> ''''" and "gr_PermissionName g \<noteq> ''''"
  using assms
  by (auto simp: service_CreateGrant_def bootstrap_CreateGrant_def with_grant_def split: if_splits option.splits)

lemma candidates_with_grant_Inr:
  assumes "sv_ops s = bootstrap_ops" "wf_grant g" "gr_OwnerKind g = PrincipalUser"
    and "candidate_grants now (with_grant s g) req = Inr gs'"
  obtains gs where "candidate_grants now s req = Inr gs"
    "set gs' = set gs \<union> (if adds_candidate now req g then {g} else {})"
  using candidates_with_grant [OF assms(1-3), of now req] assms(4)
  by (cases "candidate_grants now s req") auto

lemma candidates_with_grant_known:
  assumes "sv_ops s = bootstrap_ops" "wf_grant g" "gr_OwnerKind g = PrincipalUser"
    and "candidate_grants now s req = Inr gs"
  obtains gs' where "candidate_grants now (with_grant s g) req = Inr gs'"
    "set gs' = set gs \<union> (if adds_candidate now req g then {g} else {})"
  using candidates_with_grant [OF assms(1-3), of now req] assms(4)
  by (cases "candidate_grants now (with_grant s g) req") auto

lemma decide_deny: "decide now req fp (G \<union> D) \<Longrightarrow> \<forall>g \<in> D. gr_Effect g = EffectDeny \<Longrightarrow> decide now req fp G"
  by (auto simp: decide_def allows_def)

lemma decide_allow: "decide now req fp G \<Longrightarrow> \<forall>g \<in> A. gr_Effect g \<noteq> EffectDeny \<Longrightarrow> decide now req fp (G \<union> A)"
  by (auto simp: decide_def vetoes_def)

lemma deny_only_takes:
  assumes s: "sv_ops s = bootstrap_ops" "wf_grant g" "gr_OwnerKind g = PrincipalUser"
    and deny: "gr_Effect g = EffectDeny"
    and allowed: "fst (evaluatePermission now (with_grant s g) req fp) = Inr True"
  shows "fst (evaluatePermission now s req fp) = Inr True"
proof -
  have perm: "rq_Perm req \<noteq> ''''" by (rule evaluatePermission_allowed(1) [OF allowed])
  obtain gs' where gs': "candidate_grants now (with_grant s g) req = Inr gs'"
    using evaluatePermission_allowed(2) [OF allowed] by blast
  obtain gs where gs: "candidate_grants now s req = Inr gs"
    "set gs' = set gs \<union> (if adds_candidate now req g then {g} else {})"
    by (rule candidates_with_grant_Inr [OF s gs'])
  have "decide now req fp (set gs')"
    using evaluatePermission_decides [OF perm gs', of fp] allowed by simp
  then have "decide now req fp (set gs)"
    unfolding gs(2) by (rule decide_deny) (simp add: deny)
  with evaluatePermission_decides [OF perm gs(1), of fp] show ?thesis by simp
qed

lemma allow_only_adds:
  assumes s: "sv_ops s = bootstrap_ops" "wf_grant g" "gr_OwnerKind g = PrincipalUser"
    and allow: "gr_Effect g \<noteq> EffectDeny"
    and allowed: "fst (evaluatePermission now s req fp) = Inr True"
  shows "fst (evaluatePermission now (with_grant s g) req fp) = Inr True"
proof -
  have perm: "rq_Perm req \<noteq> ''''" by (rule evaluatePermission_allowed(1) [OF allowed])
  obtain gs where gs: "candidate_grants now s req = Inr gs"
    using evaluatePermission_allowed(2) [OF allowed] by blast
  obtain gs' where gs': "candidate_grants now (with_grant s g) req = Inr gs'"
    "set gs' = set gs \<union> (if adds_candidate now req g then {g} else {})"
    by (rule candidates_with_grant_known [OF s gs])
  have "decide now req fp (set gs)"
    using evaluatePermission_decides [OF perm gs, of fp] allowed by simp
  then have "decide now req fp (set gs')"
    unfolding gs'(2) by (rule decide_allow) (simp add: allow)
  with evaluatePermission_decides [OF perm gs'(1), of fp] show ?thesis by simp
qed

text \<open>A deny of a permission without an object scope settles every request of its user.\<close>

lemma deny_settles:
  assumes s: "sv_ops s = bootstrap_ops" and g: "g = new_grant PrincipalUser u EffectDeny ''*'' None p None"
    and req: "rq_UserID req = u" "rq_Perm req = p" "u \<noteq> ''''"
  shows "fst (evaluatePermission now (with_grant s g) req fp) \<noteq> Inr True"
proof
  assume allowed: "fst (evaluatePermission now (with_grant s g) req fp) = Inr True"
  have perm: "rq_Perm req \<noteq> ''''" by (rule evaluatePermission_allowed(1) [OF allowed])
  obtain gs' where gs': "candidate_grants now (with_grant s g) req = Inr gs'"
    using evaluatePermission_allowed(2) [OF allowed] by blast
  have wf: "wf_grant g" "gr_OwnerKind g = PrincipalUser" by (simp_all add: g)
  obtain gs where "set gs' = set gs \<union> (if adds_candidate now req g then {g} else {})"
    by (rule candidates_with_grant_Inr [OF s wf gs'])
  moreover have "adds_candidate now req g"
    using req by (simp add: adds_candidate_def g IsExpiredAt_def IsActiveAt_def perm_filter_def
        scope_filter_def scopeMatches_def)
  moreover have "vetoes now req fp g"
    using req by (auto simp: verdict_defs g IsExpiredAt_def IsActiveAt_def grantMatchesRequest_iff
        grantMatchesFieldPath_def split: option.split)
  ultimately have "\<not> decide now req fp (set gs')" by (auto simp: decide_def)
  with evaluatePermission_decides [OF perm gs', of fp] allowed show False by simp
qed

text \<open>An allow grant that has not expired answers its user's requests unless something vetoes.\<close>

lemma allow_answers:
  assumes s: "sv_ops s = bootstrap_ops" "wf_grant g" "gr_OwnerKind g = PrincipalUser"
    and g: "adds_candidate now req g" "allows now req fp g" and perm: "rq_Perm req \<noteq> ''''"
    and gs: "candidate_grants now s req = Inr gs" "\<forall>x \<in> set gs. \<not> vetoes now req fp x"
  shows "fst (evaluatePermission now (with_grant s g) req fp) = Inr True"
proof -
  obtain gs' where gs': "candidate_grants now (with_grant s g) req = Inr gs'"
    "set gs' = set gs \<union> (if adds_candidate now req g then {g} else {})"
    by (rule candidates_with_grant_known [OF s gs(1)])
  have "\<not> vetoes now req fp g" using g(2) by (auto simp: verdict_defs)
  with gs(2) g have "decide now req fp (set gs')" by (auto simp: gs'(2) decide_def)
  with evaluatePermission_decides [OF perm gs'(1), of fp] show ?thesis by simp
qed

text \<open>A grant that is out of force changes no answer.\<close>

lemma expired_is_inert:
  assumes s: "sv_ops s = bootstrap_ops" "wf_grant g" "gr_OwnerKind g = PrincipalUser"
    and expired: "IsExpiredAt g now" and perm: "rq_Perm req \<noteq> ''''"
    and gs: "candidate_grants now s req = Inr gs"
  shows "fst (evaluatePermission now (with_grant s g) req fp) = fst (evaluatePermission now s req fp)"
proof -
  obtain gs' where gs': "candidate_grants now (with_grant s g) req = Inr gs'"
    "set gs' = set gs \<union> (if adds_candidate now req g then {g} else {})"
    by (rule candidates_with_grant_known [OF s gs])
  with expired have "set gs' = set gs" by (simp add: adds_candidate_def)
  with evaluatePermission_decides [OF perm gs, of fp] evaluatePermission_decides [OF perm gs'(1), of fp]
  show ?thesis by simp
qed

end
