(* ===== verification/Demo_Service.thy ===== *)
theory Demo_Service
  imports Grant_Effects
begin

text \<open>
  A small service built by the service's own operations on the default store, evaluated step by
  step: two custom roles of which one inherits the other, a role grant, direct grants of one user
  and one assignment. The examples of the development are instances on it.
\<close>

section \<open>Construction\<close>

definition demo_viewer :: role where
  "demo_viewer = zero_role\<lparr>ro_ID := ''viewer'', ro_Name := ''Viewer''\<rparr>"

definition demo_editor :: role where
  "demo_editor = zero_role\<lparr>ro_ID := ''editor'', ro_Name := ''Editor''\<rparr>"

definition demo_alice :: principal_ref where
  "demo_alice = \<lparr>pr_Kind = PrincipalUser, pr_ID = ''alice''\<rparr>"

definition demo_roles :: boot_service where
  "demo_roles =
     snd (service_AddRoleInheritance
       (snd (service_CreateRole (snd (service_CreateRole New demo_viewer)) demo_editor)) ''editor'' ''viewer'')"

definition demo_assigned :: boot_service where
  "demo_assigned = snd (service_AssignRole demo_roles demo_alice ''editor'' [])"

definition demo :: boot_service where
  "demo = snd (AllowUser (snd (AllowRole demo_assigned ''viewer'' ''view'' None)) ''alice'' ''read'' None)"

definition demo_request :: "string \<Rightarrow> request" where
  "demo_request perm = \<lparr>rq_UserID = ''alice'', rq_TeamID = '''', rq_Object = '''', rq_Perm = perm\<rparr>"

lemma demo_reachable: "service_reachable demo"
proof -
  have role: "service_reachable s \<Longrightarrow> service_reachable (snd (service_CreateRole s r))" for s r
    by (rule service_reachable.step [OF _ service_step.create_role [where r = r]]) (simp_all add: prod_eq_iff)
  have edge: "service_reachable s \<Longrightarrow> service_reachable (snd (service_AddRoleInheritance s p c))" for s p c
    by (rule service_reachable.step [OF _ service_step.add_inheritance [where p = p and c = c]]) (simp_all add: prod_eq_iff)
  have assign: "service_reachable s \<Longrightarrow> service_reachable (snd (service_AssignRole s p r b))" for s p r b
    by (rule service_reachable.step [OF _ service_step.assign [where p = p and r = r and b = b]]) (simp_all add: prod_eq_iff)
  have grant: "service_reachable s \<Longrightarrow> wf_grant g \<Longrightarrow> service_reachable (snd (service_CreateGrant s g))" for s g
    by (rule service_reachable.step [OF _ service_step.create_grant [where g = g]]) (simp_all add: prod_eq_iff)
  show ?thesis
    unfolding demo_def demo_assigned_def demo_roles_def AllowUser_def AllowRole_def
    by (intro role edge assign grant service_reachable.start) simp_all
qed

section \<open>Evaluation\<close>

lemma trim_literals:
  "TrimSpace '''' = ''''" "TrimSpace ''builtin.public'' = ''builtin.public''"
  "TrimSpace ''builtin.authenticated'' = ''builtin.authenticated''"
  "TrimSpace ''viewer'' = ''viewer''" "TrimSpace ''editor'' = ''editor''"
  by (simp_all add: TrimSpace_printable printable_def)

lemma builtin_literals:
  "HasPrefix ''builtin.public'' BuiltInPrefix" "HasPrefix ''builtin.authenticated'' BuiltInPrefix"
  "\<not> HasPrefix ''viewer'' BuiltInPrefix" "\<not> HasPrefix ''editor'' BuiltInPrefix"
  "\<not> HasPrefix ''alice'' BuiltInPrefix"
  by code_simp+

lemma New_eq:
  "New = \<lparr>sv_identity = None, sv_ops = bootstrap_ops, sv_store = newBootstrapStore, sv_builtIns = newBuiltInRegistry,
      sv_disabledCache = None, sv_disabledCacheAt = None, sv_publicRoleID = ''builtin.public'',
      sv_authenticatedRoleID = ''builtin.authenticated'', sv_adminRoleID = ''builtin.admin'', sv_adminGroupID = '''',
      sv_subjectFunc = None\<rparr>"
  by (simp add: New_def NewService_def applyDefaultSyntheticRoleIDs_def trim_literals SyntheticRolePublic_def
      SyntheticRoleAuthenticated_def SyntheticRoleAdmin_def)

definition demo_store :: bootstrap_store where
  "demo_store = \<lparr>
     bs_roles = [(''viewer'', demo_viewer), (''editor'', demo_editor)],
     bs_assignments = [(''user:alice'', [\<lparr>ra_RoleID = ''editor'', ra_BindingValues = []\<rparr>])],
     bs_grants = [new_grant PrincipalRole ''viewer'' EffectAllow ''*'' None ''view'' None,
                  new_grant PrincipalUser ''alice'' EffectAllow ''*'' None ''read'' None],
     bs_disabledBuiltInRoles = [],
     bs_roleInheritance = [(''editor'', [''viewer''])],
     bs_roleClosure = [(''viewer'', [''viewer'']), (''editor'', [''viewer'', ''editor''])]\<rparr>"

text \<open>Every step of the construction is a call of the store.\<close>

definition demo_store_calls :: bootstrap_store where
  "demo_store_calls =
     (let s1 = snd (bootstrap_CreateRole newBootstrapStore demo_viewer);
          s2 = snd (bootstrap_CreateRole s1 demo_editor);
          s3 = snd (bootstrap_AddRoleInheritance s2 ''editor'' ''viewer'');
          s4 = snd (bootstrap_AssignRole s3 demo_alice ''editor'' [] []);
          s5 = snd (bootstrap_CreateGrant s4 (new_grant PrincipalRole ''viewer'' EffectAllow ''*'' None ''view'' None))
      in snd (bootstrap_CreateGrant s5 (new_grant PrincipalUser ''alice'' EffectAllow ''*'' None ''read'' None)))"

lemma demo_store_calls_eq: "demo_store_calls = demo_store"
  by code_simp

lemma snd_on_store: "snd (on_store s r) = s\<lparr>sv_store := snd r\<rparr>"
  by (simp add: on_store_def)

lemma demo_eq: "demo = New\<lparr>sv_store := demo_store\<rparr>"
  unfolding demo_store_calls_eq [symmetric] demo_store_calls_def
  by (simp add: demo_def demo_assigned_def demo_roles_def New_eq AllowUser_def AllowRole_def snd_on_store
      service_CreateRole_def service_AddRoleInheritance_def service_AssignRole_def service_CreateGrant_def
      builtin_literals demo_viewer_def demo_editor_def zero_role_def builtIn_Roles_def newBuiltInRegistry_def)

section \<open>Its candidates\<close>

lemma demo_wf: "wf_stored demo" "sv_ops demo = bootstrap_ops" "sv_store demo = demo_store"
  using reachable_wf_service [OF demo_reachable] by (simp_all add: wf_service_def demo_eq New_eq)

lemma demo_held:
  "held_assignments demo ''alice'' = Inr (map (\<lambda>r. \<lparr>ra_RoleID = r, ra_BindingValues = []\<rparr>)
     [''editor'', ''builtin.public'', ''builtin.authenticated''])"
  unfolding demo_eq New_eq demo_store_def by code_simp

lemma demo_expand:
  "expand_view now demo ''editor'' = Inr [''editor'', ''viewer'']"
  "expand_view now demo ''builtin.public'' = Inr [''builtin.public'']"
  "expand_view now demo ''builtin.authenticated'' = Inr [''builtin.authenticated'']"
proof -
  have registry: "builtIn_ExpandRoles newBuiltInRegistry [''editor'', ''viewer''] = [''editor'', ''viewer'']"
    "builtIn_ExpandRoles newBuiltInRegistry [''builtin.public''] = [''builtin.public'']"
    "builtIn_ExpandRoles newBuiltInRegistry [''builtin.authenticated''] = [''builtin.authenticated'']"
    by (simp_all add: builtIn_ExpandRoles_def newBuiltInRegistry_def expand_roles_def expand_step_def
        trim_literals push_new_def)
  have store: "bootstrap_ExpandRoles demo_store [''editor''] = Inr [''editor'', ''viewer'']"
    by (simp add: bootstrap_ExpandRoles_def demo_store_def expand_roles_def expand_step_def trim_literals
        push_new_def lookup_set_def)
  have "disabled_view now demo = {}"
    using disabled_view_now [OF demo_wf(1)] by (simp add: disabled_now_def demo_wf demo_store_def)
  then have "role_enabled now demo r" if "r \<in> {''editor'', ''viewer'', ''builtin.public'', ''builtin.authenticated''}" for r
    using that by (auto simp: role_enabled_def role_view_def demo_eq New_eq builtIn_Role_def newBuiltInRegistry_def
        bootstrap_RoleDefinition_def demo_store_def demo_editor_def demo_viewer_def zero_role_def)
  then show "expand_view now demo ''editor'' = Inr [''editor'', ''viewer'']"
    "expand_view now demo ''builtin.public'' = Inr [''builtin.public'']"
    "expand_view now demo ''builtin.authenticated'' = Inr [''builtin.authenticated'']"
    using registry store
    by (simp_all add: expand_view_def raw_expansion_def is_builtin_def builtin_literals demo_eq New_eq)
qed

lemma demo_fetch:
  "fetchRoleGrants 0 demo [''editor'', ''viewer''] (demo_request ''view'') =
     Inr [new_grant PrincipalRole ''viewer'' EffectAllow ''*'' None ''view'' None]"
  "fetchRoleGrants 0 demo [''editor'', ''viewer''] (demo_request ''read'') = Inr []"
  "fetchRoleGrants 0 demo [''builtin.public''] req = Inr []"
  "fetchRoleGrants 0 demo [''builtin.authenticated''] req = Inr []"
proof -
  show "fetchRoleGrants 0 demo [''editor'', ''viewer''] (demo_request ''view'') =
     Inr [new_grant PrincipalRole ''viewer'' EffectAllow ''*'' None ''view'' None]"
    "fetchRoleGrants 0 demo [''editor'', ''viewer''] (demo_request ''read'') = Inr []"
    unfolding demo_eq New_eq demo_store_def demo_request_def by code_simp+
  show "fetchRoleGrants 0 demo [''builtin.public''] req = Inr []"
    "fetchRoleGrants 0 demo [''builtin.authenticated''] req = Inr []"
    by (simp_all add: fetchRoleGrants_def builtin_literals demo_eq New_eq builtIn_GrantsForOwners_def
        newBuiltInRegistry_def)
qed

lemma demo_own:
  "own_grants 0 demo (demo_request ''view'') = Inr []"
  "own_grants 0 demo (demo_request ''read'') =
     Inr [new_grant PrincipalUser ''alice'' EffectAllow ''*'' None ''read'' None]"
  unfolding demo_eq New_eq demo_store_def demo_request_def by code_simp+

lemma demo_request_user: "rq_UserID (demo_request perm) = ''alice''" "rq_Perm (demo_request perm) = perm"
  by (simp_all add: demo_request_def)

lemma demo_candidates:
  "candidate_grants 0 demo (demo_request ''view'') =
     Inr [new_grant PrincipalRole ''viewer'' EffectAllow ''*'' None ''view'' None]"
  "candidate_grants 0 demo (demo_request ''read'') =
     Inr [new_grant PrincipalUser ''alice'' EffectAllow ''*'' None ''read'' None]"
  by (simp_all add: candidate_grants_def demo_request_user demo_held demo_own assignment_grants_def
      demo_expand demo_fetch role_candidates_def IsExpiredAt_def IsActiveAt_def)

end
