(* ===== verification/Cached_Runs.thy ===== *)
theory Cached_Runs
  imports Cached_Store Demo_Service
begin

text \<open>
  Runs of the caching store: the invariant that the cache only holds answers of the present base
  store, kept by every read and every write, and what follows for the values that reads return.
\<close>

section \<open>Copies of copies\<close>

lemma cached_cloneMap_Some [simp]: "cached_cloneMap (Some m) = copy_map m"
  by (simp add: cached_cloneMap_def copy_map_def)

lemma cached_cloneMap_None [simp]: "cached_cloneMap None = []"
  by (simp add: cached_cloneMap_def)

lemma cached_cloneGrant_idem [simp]: "cached_cloneGrant (cached_cloneGrant g) = cached_cloneGrant g"
  by (cases "gr_VariableSpec g") (simp_all add: cached_cloneGrant_def copy_map_id)

lemma clone_idem [simp]:
  "cloneGrants (cloneGrants gs) = cloneGrants gs"
  "cloneRoleAssignments (cloneRoleAssignments as) = cloneRoleAssignments as"
  "cloneRoleAssignmentHits (cloneRoleAssignmentHits hs) = cloneRoleAssignmentHits hs"
  "clonePrincipalHits (clonePrincipalHits ps) = clonePrincipalHits ps"
  "clonePage (clonePage r) = clonePage r"
  by (simp_all add: cloneGrants_def cloneRoleAssignments_def cloneRoleAssignmentHits_def clonePrincipalHits_def
      clonePage_def)

lemma cached_cloneGrant_frame [simp]:
  "IsExpiredAt (cached_cloneGrant g) now = IsExpiredAt g now"
  "gr_VariableSpec (cached_cloneGrant g) \<noteq> None"
  by (simp_all add: cached_cloneGrant_def IsExpiredAt_def IsActiveAt_def)

section \<open>Reads\<close>

fun cached_ask :: "'c go_cache \<Rightarrow> time \<Rightarrow> cache_query \<Rightarrow> ('s, 'c) cached_store \<Rightarrow> ('s, 'c) cached_store" where
  "cached_ask gc now QRoleDefinitions s = snd (cached_RoleDefinitions gc now s)"
| "cached_ask gc now (QRoleDefinition r) s = snd (cached_RoleDefinition gc now s r)"
| "cached_ask gc now (QAssignmentsForPrincipal p) s = snd (cached_RoleAssignmentsForPrincipal gc now s p)"
| "cached_ask gc now (QAssignmentsForRoleID r) s = snd (cached_RoleAssignmentsForRoleID gc now s r)"
| "cached_ask gc now (QGrantsForPrincipal p) s = snd (cached_GrantsForPrincipal gc now s p)"
| "cached_ask gc now (QExpandRoles rs) s = snd (cached_ExpandRoles gc now s rs)"
| "cached_ask gc now (QGrantsForOwners owners req) s = snd (cached_GrantsForOwners gc now s owners req)"
| "cached_ask gc now (QPrincipalsWithGrant req) s = snd (cached_PrincipalsWithGrant gc now s req)"
| "cached_ask gc now (QListGrants q) s = snd (cached_ListGrants gc now s q)"

definition same_store :: "('s, 'c) cached_store \<Rightarrow> ('s, 'c) cached_store \<Rightarrow> bool" where
  "same_store s s' \<longleftrightarrow> cs_base s' = cs_base s \<and> cs_ops s' = cs_ops s \<and> cs_ttl s' = cs_ttl s"

text \<open>The value and the new store of every read, in terms of the read of the base store.\<close>

definition fresh_read ::
  "'c go_cache \<Rightarrow> time \<Rightarrow> (time \<Rightarrow> 'a result) \<Rightarrow> ('a \<Rightarrow> 'a) \<Rightarrow> ('s, 'c) cached_store \<Rightarrow>
   'a result \<times> ('s, 'c) cached_store \<Rightarrow> bool" where
  "fresh_read gc now rd clone s r \<longleftrightarrow> coherent gc now (snd r) \<and> same_store s (snd r) \<and>
     (\<exists>t. t \<le> now \<and> now \<le> t + cs_ttl s \<and> fst r = attempt (rd t) (\<lambda>x. Inr (clone x)))"

lemma cached_read_fresh_read:
  assumes "cache_laws gc" "coherent gc t0 s" "t0 \<le> now" "valid_query q"
    and "\<And>t. base_answer (cs_ops s) (cs_base s) t q = attempt (rd t) (\<lambda>x. Inr (inject (clone x)))"
    and "\<And>x. cast (inject x) = Some x" "\<And>x. clone (clone x) = clone x" "base_read (cs_base s) = rd now"
  shows "fresh_read gc now rd clone s (cached_read gc now (cache_key q) cast inject clone base_read s)"
  using cached_read_fresh [where rd = rd and inject = inject and cast = cast and clone = clone and base_read = base_read,
      OF assms, of "fst (cached_read gc now (cache_key q) cast inject clone base_read s)"
      "snd (cached_read gc now (cache_key q) cast inject clone base_read s)"]
  by (simp add: fresh_read_def same_store_def)

lemma fresh_reads:
  assumes "cache_laws gc" "coherent gc t0 s" "t0 \<le> now"
  shows "fresh_read gc now (\<lambda>t. op_RoleDefinitions (cs_ops s) (cs_base s)) (\<lambda>x. x) s (cached_RoleDefinitions gc now s)"
    and "valid_text r \<Longrightarrow> fresh_read gc now (\<lambda>t. op_RoleDefinition (cs_ops s) (cs_base s) r) (\<lambda>x. x) s
      (cached_RoleDefinition gc now s r)"
    and "valid_principal_text p \<Longrightarrow> fresh_read gc now (\<lambda>t. op_RoleAssignmentsForPrincipal (cs_ops s) (cs_base s) p)
      cloneRoleAssignments s (cached_RoleAssignmentsForPrincipal gc now s p)"
    and "valid_text r \<Longrightarrow> fresh_read gc now (\<lambda>t. op_RoleAssignmentsForRoleID (cs_ops s) (cs_base s) r)
      cloneRoleAssignmentHits s (cached_RoleAssignmentsForRoleID gc now s r)"
    and "valid_principal_text p \<Longrightarrow> fresh_read gc now (\<lambda>t. op_GrantsForPrincipal (cs_ops s) t (cs_base s) p)
      cloneGrants s (cached_GrantsForPrincipal gc now s p)"
    and "\<forall>r \<in> set rs. valid_text r \<Longrightarrow> fresh_read gc now (\<lambda>t. op_ExpandRoles (cs_ops s) (cs_base s) rs) (\<lambda>x. x) s
      (cached_ExpandRoles gc now s rs)"
    and "\<forall>p \<in> set owners. valid_principal_text p \<Longrightarrow> valid_request_text req \<Longrightarrow>
      fresh_read gc now (\<lambda>t. op_GrantsForOwners (cs_ops s) t (cs_base s) owners req) cloneGrants s
      (cached_GrantsForOwners gc now s owners req)"
    and "valid_request_text req \<Longrightarrow> fresh_read gc now (\<lambda>t. op_PrincipalsWithGrant (cs_ops s) t (cs_base s) req)
      clonePrincipalHits s (cached_PrincipalsWithGrant gc now s req)"
    and "valid_grant_query q \<Longrightarrow> fresh_read gc now (\<lambda>t. op_ListGrants (cs_ops s) (cs_base s) q) clonePage s
      (cached_ListGrants gc now s q)"
  unfolding cached_RoleDefinitions_def cached_RoleDefinition_def cached_RoleAssignmentsForPrincipal_def
    cached_RoleAssignmentsForRoleID_def cached_GrantsForPrincipal_def cached_ExpandRoles_def
    cached_GrantsForOwners_def cached_PrincipalsWithGrant_def cached_ListGrants_def
  by (rule cached_read_fresh_read [OF assms]; simp add: answer_of_def)+

lemma cached_ask_coherent:
  assumes "cache_laws gc" "coherent gc t0 s" "t0 \<le> now" "valid_query q"
  shows "coherent gc now (cached_ask gc now q s) \<and> same_store s (cached_ask gc now q s)"
  using fresh_reads [OF assms(1-3)] assms(4) unfolding fresh_read_def by (cases q) auto

section \<open>Writes\<close>

text \<open>\<open>AssignRole\<close> hands a copy of the bindings on.\<close>

fun passed_on :: "store_write \<Rightarrow> store_write" where
  "passed_on (WAssignRole p r bs b) = WAssignRole p r bs (copy_map b)"
| "passed_on w = w"

fun cached_do :: "'c go_cache \<Rightarrow> store_write \<Rightarrow> ('s, 'c) cached_store \<Rightarrow> ('s, 'c) cached_store update" where
  "cached_do gc (WCreateGrant g) s = cached_CreateGrant gc s g"
| "cached_do gc (WAssignRole p r bs b) s = cached_AssignRole gc s p r bs b"
| "cached_do gc (WUnassignRole p r bs b) s = cached_UnassignRole gc s p r bs b"
| "cached_do gc (WCreateRole r) s = cached_CreateRole gc s r"
| "cached_do gc (WUpdateRole r) s = cached_UpdateRole gc s r"
| "cached_do gc (WDeleteRole r) s = cached_DeleteRole gc s r"
| "cached_do gc (WAddRoleInheritance p c) s = cached_AddRoleInheritance gc s p c"
| "cached_do gc (WDeleteGrantsForOwner k i) s = cached_DeleteGrantsForOwner gc s k i"
| "cached_do gc (WDisableBuiltInRole r) s = cached_DisableBuiltInRole gc s r"
| "cached_do gc (WEnableBuiltInRole r) s = cached_EnableBuiltInRole gc s r"

lemma cached_do_eq: "cached_do gc w s = cached_write gc (run_write (cs_ops s) (passed_on w)) s"
  by (cases w) (simp_all add: cached_CreateGrant_def cached_AssignRole_def cached_UnassignRole_def cached_CreateRole_def
      cached_UpdateRole_def cached_DeleteRole_def cached_AddRoleInheritance_def cached_DeleteGrantsForOwner_def
      cached_DisableBuiltInRole_def cached_EnableBuiltInRole_def cached_write_def)

lemma coherent_flush:
  assumes "cache_laws gc" "0 < cs_ttl s"
  shows "coherent gc t (InvalidateAll gc s)"
  using assms by (intro coherent_empty) (simp_all add: InvalidateAll_def cache_laws_def)

context cacheable_store
begin

lemma cached_do_coherent:
  assumes laws: "cache_laws gc" and coh: "coherent gc t s" and ops: "cs_ops s = ops"
    and run: "cached_do gc w s = (e, s')"
  shows "coherent gc t s' \<and> cs_ops s' = ops \<and> cs_ttl s' = cs_ttl s"
proof (cases rule: write_cases [of "passed_on w" "cs_base s"])
  case (failed err)
  then have "s' = s" using run by (simp add: cached_do_eq cached_write_def ops)
  with coh ops show ?thesis by simp
next
  case (ok st')
  then have "s' = InvalidateAll gc (s\<lparr>cs_base := st'\<rparr>)" using run by (simp add: cached_do_eq cached_write_def ops)
  moreover have "0 < cs_ttl s" using coh by (simp add: coherent_def)
  ultimately show ?thesis
    using coherent_flush [OF laws, of "s\<lparr>cs_base := st'\<rparr>" t] ops by (simp add: InvalidateAll_def)
qed

text \<open>A cached list of grants, cleared of expired ones, is the base store's list of now.\<close>

lemma cached_grants_current:
  assumes laws: "cache_laws gc" and coh: "coherent gc t0 s" "t0 \<le> now" and ops: "cs_ops s = ops"
    and valid: "\<forall>p \<in> set owners. valid_principal_text p" "valid_request_text req"
  shows "attempt (fst (cached_GrantsForOwners gc now s owners req)) (\<lambda>gs. Inr (filter (\<lambda>g. \<not> IsExpiredAt g now) gs)) =
    attempt (op_GrantsForOwners ops now (cs_base s) owners req) (\<lambda>gs. Inr (cloneGrants gs))"
proof -
  obtain t where t: "t \<le> now" "fst (cached_GrantsForOwners gc now s owners req) =
      attempt (op_GrantsForOwners ops t (cs_base s) owners req) (\<lambda>gs. Inr (cloneGrants gs))"
    using fresh_reads(7) [OF laws coh valid] by (auto simp: fresh_read_def ops)
  show ?thesis unfolding t(2) grants_age [OF t(1), of "cs_base s"]
    by (cases "op_GrantsForOwners ops t (cs_base s) owners req") (simp_all add: cloneGrants_def filter_map comp_def)
qed

end

section \<open>Reachable stores\<close>

inductive cached_reachable ::
  "'c go_cache \<Rightarrow> 's store_ops \<Rightarrow> 's \<Rightarrow> int \<Rightarrow> time \<Rightarrow> ('s, 'c) cached_store \<Rightarrow> bool"
  for gc ops base ttl where
  start: "cached_reachable gc ops base ttl t (NewStoreWithTTL gc ops base ttl)"
| ask: "cached_reachable gc ops base ttl t s \<Longrightarrow> t \<le> now \<Longrightarrow> valid_query q \<Longrightarrow>
    cached_reachable gc ops base ttl now (cached_ask gc now q s)"
| modify: "cached_reachable gc ops base ttl t s \<Longrightarrow> t \<le> now \<Longrightarrow> cached_do gc w s = (e, s') \<Longrightarrow>
    cached_reachable gc ops base ttl now s'"
| invalidate: "cached_reachable gc ops base ttl t s \<Longrightarrow> t \<le> now \<Longrightarrow>
    cached_reachable gc ops base ttl now (InvalidateAll gc s)"


context cacheable_store
begin

lemma reachable_coherent:
  assumes "cache_laws gc" "cached_reachable gc ops base ttl t s"
  shows "coherent gc t s \<and> cs_ops s = ops \<and> cs_ttl s = (if ttl \<le> 0 then DefaultTTL else ttl)"
  using assms(2)
proof (induction rule: cached_reachable.induct)
  case (start t)
  show ?case using coherent_New [OF assms(1), of t ops base ttl] by (simp add: NewStoreWithTTL_def Let_def)
next
  case (ask t s now q)
  then show ?case using cached_ask_coherent [OF assms(1), of t s now q] by (auto simp: same_store_def)
next
  case (modify t s now w e s')
  then have "coherent gc now s" "cs_ops s = ops" using coherent_later by blast+
  from cached_do_coherent [OF assms(1) this modify(3)] modify(4) show ?case by auto
next
  case (invalidate t s now)
  then have "0 < cs_ttl s" by (simp add: coherent_def)
  with coherent_flush [OF assms(1), of s now] invalidate show ?case by (simp add: InvalidateAll_def)
qed

end

section \<open>What the cache guarantees\<close>

text \<open>A cache that keeps its entries in a list with their times of expiry.\<close>

definition list_cache :: "(string \<times> cached_value \<times> time) list go_cache" where
  "list_cache = \<lparr>gc_New = \<lambda>d i. [],
     gc_Get = \<lambda>now c k. (case map_of c k of None \<Rightarrow> None | Some (v, expires) \<Rightarrow> if now \<le> expires then Some v else None),
     gc_Set = \<lambda>now c k v d. (k, v, now + d) # c,
     gc_Flush = \<lambda>c. []\<rparr>"

lemma list_cache_laws: "cache_laws list_cache"
  by (auto simp: cache_laws_def list_cache_def split: if_splits option.splits)

text \<open>The default store of the example behind a cache, after a first read of Alice's grants.\<close>

definition demo_owner_query :: cache_query where
  "demo_owner_query = QGrantsForOwners [demo_alice] (demo_request ''read'')"

definition demo_cached :: "(bootstrap_store, (string \<times> cached_value \<times> time) list) cached_store" where
  "demo_cached = cached_ask list_cache 0 demo_owner_query (NewStoreWithTTL list_cache bootstrap_ops demo_store 10)"

lemma valid_demo_texts: "valid_text ''alice''" "valid_text ''user''" "valid_text ''read''" "valid_text ''view''"
  by code_simp+

lemma demo_query_valid:
  "\<forall>p \<in> set [demo_alice]. valid_principal_text p" "valid_request_text (demo_request ''read'')"
  by (simp_all add: demo_alice_def valid_principal_text_def PrincipalUser_def valid_request_text_def demo_request_def
      valid_demo_texts del: valid_text.simps(2))

lemma demo_cached_reachable: "cached_reachable list_cache bootstrap_ops demo_store 10 0 demo_cached"
  unfolding demo_cached_def
  by (rule cached_reachable.ask [OF cached_reachable.start, of 0 0])
     (use demo_query_valid in \<open>simp_all add: demo_owner_query_def\<close>)

lemma demo_cached_fields:
  "cs_base demo_cached = demo_store" "cs_ops demo_cached = bootstrap_ops" "cs_ttl demo_cached = 10"
  using cached_ask_coherent [OF list_cache_laws coherent_New [OF list_cache_laws], of 0 0 demo_owner_query
      bootstrap_ops demo_store 10] demo_query_valid
  by (simp_all add: demo_cached_def same_store_def demo_owner_query_def NewStoreWithTTL_def Let_def)

lemma demo_base_read:
  "bootstrap_GrantsForOwners 5 demo_store [demo_alice] (demo_request ''read'') =
     Inr [new_grant PrincipalUser ''alice'' EffectAllow ''*'' None ''read'' None]"
  by code_simp

text \<open>C28. In front of the default store or the in-memory store, in every state that reads, writes and
  invalidations lead to, the cache is transparent to the service: a list of grants it serves, without
  the grants that have expired meanwhile (the check skips them), is the copy of what the store would
  return now. Both stores change nothing when a write fails, which the cache relies on: it is only
  emptied after a success. All texts asked for are valid UTF-8.\<close>

theorem cache_is_transparent:
  assumes "cache_laws gc" "t0 \<le> now" "\<forall>p \<in> set owners. valid_principal_text p" "valid_request_text req"
  shows "(cached_reachable gc bootstrap_ops base ttl t0 s \<longrightarrow>
      attempt (fst (cached_GrantsForOwners gc now s owners req)) (\<lambda>gs. Inr (filter (\<lambda>g. \<not> IsExpiredAt g now) gs)) =
      attempt (bootstrap_GrantsForOwners now (cs_base s) owners req) (\<lambda>gs. Inr (cloneGrants gs))) \<and>
    (cached_reachable gc inmemory_ops mbase ttl t0 m \<longrightarrow>
      attempt (fst (cached_GrantsForOwners gc now m owners req)) (\<lambda>gs. Inr (filter (\<lambda>g. \<not> IsExpiredAt g now) gs)) =
      attempt (inmemory_GrantsForOwners now (cs_base m) owners req) (\<lambda>gs. Inr (cloneGrants gs)))"
proof (intro conjI impI)
  assume run: "cached_reachable gc bootstrap_ops base ttl t0 s"
  have "coherent gc t0 s" "cs_ops s = bootstrap_ops"
    using bootstrap_cacheable.reachable_coherent [OF assms(1) run] by simp_all
  from bootstrap_cacheable.cached_grants_current [OF assms(1) this(1) assms(2) this(2) assms(3,4)]
  show "attempt (fst (cached_GrantsForOwners gc now s owners req)) (\<lambda>gs. Inr (filter (\<lambda>g. \<not> IsExpiredAt g now) gs)) =
      attempt (bootstrap_GrantsForOwners now (cs_base s) owners req) (\<lambda>gs. Inr (cloneGrants gs))" by simp
next
  assume run: "cached_reachable gc inmemory_ops mbase ttl t0 m"
  have "coherent gc t0 m" "cs_ops m = inmemory_ops"
    using inmemory_cacheable.reachable_coherent [OF assms(1) run] by simp_all
  from inmemory_cacheable.cached_grants_current [OF assms(1) this(1) assms(2) this(2) assms(3,4)]
  show "attempt (fst (cached_GrantsForOwners gc now m owners req)) (\<lambda>gs. Inr (filter (\<lambda>g. \<not> IsExpiredAt g now) gs)) =
      attempt (inmemory_GrantsForOwners now (cs_base m) owners req) (\<lambda>gs. Inr (cloneGrants gs))"
    by (simp add: inmemory_ops_def)
qed

theorem cache_is_transparent_witness:
  "attempt (fst (cached_GrantsForOwners list_cache 5 demo_cached [demo_alice] (demo_request ''read'')))
     (\<lambda>gs. Inr (filter (\<lambda>g. \<not> IsExpiredAt g 5) gs)) =
   Inr [cached_cloneGrant (new_grant PrincipalUser ''alice'' EffectAllow ''*'' None ''read'' None)]"
  using cache_is_transparent [OF list_cache_laws, of 0 5, OF _ demo_query_valid] demo_cached_reachable
  by (auto simp: demo_cached_fields demo_base_read cloneGrants_def)

lemma timeless_read: "fresh_read gc now (\<lambda>t. x) clone s r \<Longrightarrow> fst r = attempt x (\<lambda>y. Inr (clone y))"
  by (auto simp: fresh_read_def)

lemma attempt_Inr: "attempt x (\<lambda>y. Inr y) = x"
  by (cases x) simp_all

text \<open>C29. The other reads of a cached default store. Roles, their expansion, assignments, pages of grants
  and (never cached) the disabled roles are what the present store answers, up to copying. What
  depends on the time, the grants of a principal and the principals with a grant, is the answer of the
  present store at an instant at most one time to live ago. All texts asked for are valid UTF-8.\<close>

theorem cached_reads_bounded:
  assumes "cache_laws gc" "cached_reachable gc bootstrap_ops base ttl t0 s" "t0 \<le> now"
    and "valid_text r" "\<forall>i \<in> set ids. valid_text i" "valid_principal_text p" "valid_request_text req" "valid_grant_query q"
  shows "fst (cached_RoleDefinitions gc now s) = bootstrap_RoleDefinitions (cs_base s) \<and>
    fst (cached_RoleDefinition gc now s r) = bootstrap_RoleDefinition (cs_base s) r \<and>
    fst (cached_ExpandRoles gc now s ids) = bootstrap_ExpandRoles (cs_base s) ids \<and>
    fst (cached_RoleAssignmentsForPrincipal gc now s p) =
      attempt (bootstrap_RoleAssignmentsForPrincipal (cs_base s) p) (\<lambda>as. Inr (cloneRoleAssignments as)) \<and>
    fst (cached_RoleAssignmentsForRoleID gc now s r) =
      attempt (bootstrap_RoleAssignmentsForRoleID (cs_base s) r) (\<lambda>hs. Inr (cloneRoleAssignmentHits hs)) \<and>
    fst (cached_ListGrants gc now s q) = attempt (bootstrap_ListGrants (cs_base s) q) (\<lambda>page. Inr (clonePage page)) \<and>
    cached_DisabledBuiltInRoles s = bootstrap_DisabledBuiltInRoles (cs_base s) \<and>
    (\<exists>t \<le> now. now - t \<le> (if ttl \<le> 0 then DefaultTTL else ttl) \<and> fst (cached_GrantsForPrincipal gc now s p) =
      attempt (bootstrap_GrantsForPrincipal t (cs_base s) p) (\<lambda>gs. Inr (cloneGrants gs))) \<and>
    (\<exists>t \<le> now. now - t \<le> (if ttl \<le> 0 then DefaultTTL else ttl) \<and>
      fst (cached_PrincipalsWithGrant gc now s req) = bootstrap_PrincipalsWithGrant t (cs_base s) req)"
proof -
  have coh: "coherent gc t0 s" "cs_ops s = bootstrap_ops" "cs_ttl s = (if ttl \<le> 0 then DefaultTTL else ttl)"
    using bootstrap_cacheable.reachable_coherent [OF assms(1,2)] by simp_all
  note fresh = fresh_reads [OF assms(1) coh(1) assms(3)]
  have hits: "clonePrincipalHits = (\<lambda>x. x)" by (simp add: clonePrincipalHits_def fun_eq_iff)
  have within: "now \<le> t + cs_ttl s \<longleftrightarrow> now - t \<le> (if ttl \<le> 0 then DefaultTTL else ttl)" for t
    by (auto simp: coh(3))
  note now_read = timeless_read [OF fresh(1)] timeless_read [OF fresh(2) [OF assms(4)]] timeless_read [OF fresh(6) [OF assms(5)]]
    timeless_read [OF fresh(3) [OF assms(6)]] timeless_read [OF fresh(4) [OF assms(4)]] timeless_read [OF fresh(9) [OF assms(8)]]
  note now_answers = now_read [unfolded coh(2) bootstrap_ops_simps attempt_Inr]
  have "\<exists>t \<le> now. now - t \<le> (if ttl \<le> 0 then DefaultTTL else ttl) \<and> fst (cached_GrantsForPrincipal gc now s p) =
      attempt (bootstrap_GrantsForPrincipal t (cs_base s) p) (\<lambda>gs. Inr (cloneGrants gs))"
    using fresh(5) [OF assms(6)] unfolding fresh_read_def coh(2) within bootstrap_ops_simps by blast
  moreover have "\<exists>t \<le> now. now - t \<le> (if ttl \<le> 0 then DefaultTTL else ttl) \<and>
      fst (cached_PrincipalsWithGrant gc now s req) = bootstrap_PrincipalsWithGrant t (cs_base s) req"
    using fresh(8) [OF assms(7)] unfolding fresh_read_def coh(2) within bootstrap_ops_simps hits attempt_Inr by blast
  moreover have "cached_DisabledBuiltInRoles s = bootstrap_DisabledBuiltInRoles (cs_base s)"
    by (simp add: cached_DisabledBuiltInRoles_def coh(2))
  ultimately show ?thesis using now_answers by (intro conjI)
qed

theorem cached_reads_bounded_witness:
  "fst (cached_RoleAssignmentsForPrincipal list_cache 5 demo_cached demo_alice) =
     Inr [\<lparr>ra_RoleID = ''editor'', ra_BindingValues = []\<rparr>] \<and>
   (\<exists>t \<le> 5. 5 - t \<le> (10 :: int) \<and> fst (cached_PrincipalsWithGrant list_cache 5 demo_cached (demo_request ''read'')) =
     bootstrap_PrincipalsWithGrant t demo_store (demo_request ''read''))"
proof -
  have base: "bootstrap_RoleAssignmentsForPrincipal demo_store demo_alice = Inr [\<lparr>ra_RoleID = ''editor'', ra_BindingValues = []\<rparr>]"
    by code_simp
  let ?q = "\<lparr>gq_Principals = [], gq_TeamScopes = [], gq_ObjectScopes = [], gq_Permissions = [],
     gq_PermissionPrefix = '''', gq_IncludeEffective = False, gq_Limit = 10, gq_Cursor = ''''\<rparr>"
  have "valid_principal_text demo_alice" using demo_query_valid(1) by simp
  moreover have "valid_grant_query ?q" by code_simp
  ultimately have "fst (cached_RoleAssignmentsForPrincipal list_cache 5 demo_cached demo_alice) =
      attempt (bootstrap_RoleAssignmentsForPrincipal demo_store demo_alice) (\<lambda>as. Inr (cloneRoleAssignments as))"
    "\<exists>t \<le> 5. 5 - t \<le> (10 :: int) \<and> fst (cached_PrincipalsWithGrant list_cache 5 demo_cached (demo_request ''read'')) =
      bootstrap_PrincipalsWithGrant t demo_store (demo_request ''read'')"
    using cached_reads_bounded [OF list_cache_laws demo_cached_reachable _ valid_demo_texts(1) _ _ demo_query_valid(2),
        of 5 "[]" demo_alice ?q]
    by (simp_all add: demo_cached_fields)
  with base show ?thesis by (simp add: cloneRoleAssignments_def copy_map_def)
qed

text \<open>A grant without variables that is read back through the cache is not equivalent to itself
  as it was given: the copy has an empty variable map where the grant has none. So the callers that
  look for an equivalent grant before they create one never find it behind a cache.\<close>

lemma cached_copy_not_recognised:
  assumes "cache_laws gc" "cached_reachable gc ops base ttl t0 s" "cacheable_store ops" "t0 \<le> now"
    and "valid_principal_text p" "fst (cached_GrantsForPrincipal gc now s p) = Inr gs"
    and "gr_VariableSpec g = None" "h \<in> set gs"
  shows "\<not> grantsEquivalent h g"
proof -
  have "coherent gc t0 s" using cacheable_store.reachable_coherent [OF assms(3,1,2)] by simp
  from fresh_reads(5) [OF assms(1) this assms(4,5)] assms(6)
  obtain t where "Inr gs = attempt (op_GrantsForPrincipal (cs_ops s) t (cs_base s) p) (\<lambda>gs. Inr (cloneGrants gs))"
    by (auto simp: fresh_read_def)
  then have "h \<in> cached_cloneGrant ` UNIV"
    using assms(8) by (cases "op_GrantsForPrincipal (cs_ops s) t (cs_base s) p") (auto simp: cloneGrants_def)
  then have "gr_VariableSpec h \<noteq> None" by (auto simp: cached_cloneGrant_def)
  with assms(7) show ?thesis
    by (auto simp: grantsEquivalent_def deep_equal_spec_def split: option.splits)
qed

lemma demo_cached_principal:
  "fst (cached_GrantsForPrincipal list_cache 5 demo_cached demo_alice) =
     Inr [cached_cloneGrant (new_grant PrincipalUser ''alice'' EffectAllow ''*'' None ''read'' None)]"
proof -
  have "fresh_read list_cache 5 (\<lambda>t. bootstrap_GrantsForPrincipal t demo_store demo_alice) cloneGrants demo_cached
      (cached_GrantsForPrincipal list_cache 5 demo_cached demo_alice)"
    using fresh_reads(5) [OF list_cache_laws conjunct1 [OF bootstrap_cacheable.reachable_coherent
        [OF list_cache_laws demo_cached_reachable]], of 5 demo_alice] demo_query_valid(1)
    by (simp add: demo_cached_fields)
  moreover have "bootstrap_GrantsForPrincipal t demo_store demo_alice =
      Inr [new_grant PrincipalUser ''alice'' EffectAllow ''*'' None ''read'' None]" for t
  proof -
    have "PrincipalRef_Validate demo_alice = None"
      by (simp add: demo_alice_def PrincipalRef_Validate_None valid_kinds_def)
    then show ?thesis
      by (simp add: bootstrap_GrantsForPrincipal_def demo_store_def demo_alice_def kinds_distinct new_grant_def
          IsExpiredAt_def IsActiveAt_def cloneGrant_def cloneStringPointer_def cloneTimePointer_def)
  qed
  ultimately show ?thesis by (auto simp: fresh_read_def cloneGrants_def)
qed

text \<open>
  A miss reads the store and fills the cache in two steps that no lock joins. A write between them
  empties the cache too early.
\<close>

definition cached_fill ::
  "'c go_cache \<Rightarrow> time \<Rightarrow> principal_ref list \<Rightarrow> request \<Rightarrow> grant list \<Rightarrow> ('s, 'c) cached_store \<Rightarrow> ('s, 'c) cached_store" where
  "cached_fill gc now owners req value s =
     setWithTTL gc now (cache_key (QGrantsForOwners owners req)) (CV_Grants (cloneGrants value)) s"

text \<open>A miss is the read of the base store followed by this step.\<close>

lemma cached_miss_steps:
  assumes "gc_Get gc now (cs_cache s) (cache_key (QGrantsForOwners owners req)) = None"
    and "op_GrantsForOwners (cs_ops s) now (cs_base s) owners req = Inr value"
  shows "cached_GrantsForOwners gc now s owners req = (Inr (cloneGrants value), cached_fill gc now owners req value s)"
  using assms by (simp add: cached_GrantsForOwners_def cached_read_def cached_hit_def cached_fill_def Let_def)

definition keeps_entries :: "'c go_cache \<Rightarrow> bool" where
  "keeps_entries gc \<longleftrightarrow> (\<forall>c t k v d. 0 < d \<longrightarrow> gc_Get gc t (gc_Set gc t c k v d) k = Some v)"

text \<open>C31. A race: when a reader has read the grants and a writer then creates one, the reader's late
  fill leaves the old list in the cache. Although the write has returned and has emptied the cache,
  the next read does not return the created grant that the store itself would return.\<close>

theorem late_fill_hides_grant:
  assumes "keeps_entries gc" "0 < cs_ttl s" "cs_ops s = bootstrap_ops" "wf_bootstrap (cs_base s)" "wf_grant g"
    and "bootstrap_GrantsForOwners now (cs_base s) owners req = Inr old" "cached_cloneGrant g \<notin> cached_cloneGrant ` set old"
    and "cached_CreateGrant gc s g = (None, s1)" "s2 = cached_fill gc now owners req old s1"
    and "grant_owner g \<in> set owners" "\<not> IsExpiredAt g now" "perm_filter req g" "scope_filter req g"
  shows "\<exists>gs new. fst (cached_GrantsForOwners gc now s2 owners req) = Inr gs \<and> cached_cloneGrant g \<notin> set gs \<and>
    bootstrap_GrantsForOwners now (cs_base s2) owners req = Inr new \<and> g \<in> set new"
proof -
  obtain st where st: "bootstrap_CreateGrant (cs_base s) g = (None, st)" and s1: "cs_base s1 = st" "cs_ops s1 = bootstrap_ops"
    "cs_ttl s1 = cs_ttl s"
    using assms(3,8) by (auto simp: cached_CreateGrant_def cached_write_def InvalidateAll_def split: prod.splits option.splits)
  have fields: "cs_base s2 = st" "cs_ops s2 = bootstrap_ops"
    by (simp_all add: assms(9) cached_fill_def setWithTTL_def s1)
  have hit: "gc_Get gc now (cs_cache s2) (cache_key (QGrantsForOwners owners req)) = Some (CV_Grants (cloneGrants old))"
    using assms(1,2) s1(3) by (simp add: assms(9) cached_fill_def setWithTTL_def keeps_entries_def)
  then have served: "fst (cached_GrantsForOwners gc now s2 owners req) = Inr (cloneGrants old)"
    by (simp add: cached_GrantsForOwners_def cached_read_def cached_hit_def)
  have wf: "wf_bootstrap st" using wf_bootstrap_CreateGrant [OF assms(4) st] .
  obtain keys where "owner_keys owners = Inr keys"
    using assms(6) by (cases "owner_keys owners") (simp_all add: bootstrap_GrantsForOwners_def)
  then obtain new where new: "bootstrap_GrantsForOwners now st owners req = Inr new"
    by (simp add: bootstrap_GrantsForOwners_def Let_def)
  have nonempty: "gr_OwnerID g \<noteq> ''''" "gr_PermissionName g \<noteq> ''''" "gr_TeamScope g \<noteq> ''''"
    using st by (simp_all add: bootstrap_CreateGrant_def check_grant_def split: if_splits)
  have "g \<in> set new"
    using assms(5,10-13) st new nonempty
    by (intro bootstrap.created_is_read [of "cs_base s" g st now owners req new]) (auto simp: assms(4) owned_by_def)
  then show ?thesis using served new assms(7) fields by (auto simp: cloneGrants_def)
qed

definition demo_new_grant :: grant where
  "demo_new_grant = new_grant PrincipalUser ''alice'' EffectAllow ''red'' None ''read'' None"

definition demo_team_request :: request where
  "demo_team_request = \<lparr>rq_UserID = ''alice'', rq_TeamID = ''red'', rq_Object = '''', rq_Perm = ''read''\<rparr>"

lemma list_cache_keeps: "keeps_entries list_cache"
  by (simp add: keeps_entries_def list_cache_def)

theorem late_fill_hides_grant_witness:
  "\<exists>s1 gs. cached_CreateGrant list_cache demo_cached demo_new_grant = (None, s1) \<and>
    fst (cached_GrantsForOwners list_cache 5
      (cached_fill list_cache 5 [demo_alice] demo_team_request
        [new_grant PrincipalUser ''alice'' EffectAllow ''*'' None ''read'' None] s1)
      [demo_alice] demo_team_request) = Inr gs \<and> cached_cloneGrant demo_new_grant \<notin> set gs"
proof -
  have old: "bootstrap_GrantsForOwners 5 (cs_base demo_cached) [demo_alice] demo_team_request =
      Inr [new_grant PrincipalUser ''alice'' EffectAllow ''*'' None ''read'' None]"
    unfolding demo_cached_fields by code_simp
  have "fst (bootstrap_CreateGrant demo_store demo_new_grant) = None" by code_simp
  then obtain s1 where s1: "cached_CreateGrant list_cache demo_cached demo_new_grant = (None, s1)"
    by (cases "bootstrap_CreateGrant demo_store demo_new_grant")
       (simp add: cached_CreateGrant_def cached_write_def demo_cached_fields)
  have wf: "wf_bootstrap (cs_base demo_cached)" using demo_wf by (simp add: demo_cached_fields wf_stored_def)
  have filters: "perm_filter demo_team_request demo_new_grant" "scope_filter demo_team_request demo_new_grant"
    "grant_owner demo_new_grant \<in> set [demo_alice]" "\<not> IsExpiredAt demo_new_grant 5"
    by code_simp+
  have "wf_grant demo_new_grant" by (simp add: demo_new_grant_def)
  moreover have "cached_cloneGrant demo_new_grant \<notin>
      cached_cloneGrant ` set [new_grant PrincipalUser ''alice'' EffectAllow ''*'' None ''read'' None]"
    by (simp add: cached_cloneGrant_def demo_new_grant_def new_grant_def)
  ultimately show ?thesis
    using late_fill_hides_grant [OF list_cache_keeps _ demo_cached_fields(2) wf _ old _ s1 refl filters(3,4,1,2)] s1
    by (auto simp: demo_cached_fields(3))
qed

end
