(* ===== verification/Inmemory_Identity.thy ===== *)
theory Inmemory_Identity
  imports Store_Interface
begin

text \<open>
  The in-memory identity provider (\<open>inmemory/identity_provider.go\<close>): groups of users, and teams
  whose members are users and groups. The queries are pure functions of its two maps; the read
  lock they take is modelled separately, because \<open>GetUserTeams\<close> takes it again while it holds it.
\<close>

section \<open>State and queries\<close>

record team_entry =
  te_ID :: string
  te_Kind :: string

definition UserMemberKind :: string where "UserMemberKind = ''user''"
definition GroupMemberKind :: string where "GroupMemberKind = ''group''"

record inmemory_identity =
  ii_userGroups :: "(string, string list) gomap"
  ii_TeamMembership :: "(string, team_entry list) gomap"

definition NewIdentityProvider :: inmemory_identity where
  "NewIdentityProvider = \<lparr>ii_userGroups = [], ii_TeamMembership = []\<rparr>"

definition AddUserGroups :: "inmemory_identity \<Rightarrow> string \<Rightarrow> string list \<Rightarrow> inmemory_identity" where
  "AddUserGroups p userID groupIDs =
     (if userID = '''' \<or> groupIDs = [] then p
      else p\<lparr>ii_userGroups := AList.update userID (lookup_set (ii_userGroups p) userID @ groupIDs) (ii_userGroups p)\<rparr>)"

definition GetUserGroups :: "inmemory_identity \<Rightarrow> string \<Rightarrow> string list result" where
  "GetUserGroups p userID = Inr (lookup_set (ii_userGroups p) userID)"

definition GetGroupMembers :: "inmemory_identity \<Rightarrow> string \<Rightarrow> string list result" where
  "GetGroupMembers p groupID =
     Inr (map fst (filter (\<lambda>(userID, groups). list_ex (\<lambda>candidate. candidate = groupID) groups) (ii_userGroups p)))"

definition IsUserInGroup :: "inmemory_identity \<Rightarrow> string \<Rightarrow> string \<Rightarrow> bool result" where
  "IsUserInGroup p userID groupID =
     Inr (list_ex (\<lambda>candidate. candidate = groupID) (lookup_set (ii_userGroups p) userID))"

text \<open>A team is listed once for every entry through which the user is a member.\<close>

definition entry_matches :: "inmemory_identity \<Rightarrow> string \<Rightarrow> team_entry \<Rightarrow> bool" where
  "entry_matches p userID entry =
     (if te_ID entry = userID \<and> te_Kind entry = UserMemberKind then True
      else if te_Kind entry = GroupMemberKind
        then (case IsUserInGroup p userID (te_ID entry) of Inl _ \<Rightarrow> False | Inr inGroup \<Rightarrow> inGroup)
      else False)"

definition GetUserTeams :: "inmemory_identity \<Rightarrow> string \<Rightarrow> string list result" where
  "GetUserTeams p userID =
     Inr (concat (map (\<lambda>(teamID, entries). map (\<lambda>_. teamID) (filter (entry_matches p userID) entries))
       (ii_TeamMembership p)))"

definition IsUserInTeam :: "inmemory_identity \<Rightarrow> string \<Rightarrow> string \<Rightarrow> bool result" where
  "IsUserInTeam p userID teamID = attempt (GetUserTeams p userID) (\<lambda>teams. Inr (teamID \<in> set teams))"

definition inmemory_provider :: "inmemory_identity \<Rightarrow> identity_provider" where
  "inmemory_provider p = \<lparr>ip_GetUserGroups = GetUserGroups p, ip_GetUserTeams = GetUserTeams p,
     ip_GetGroupMembers = GetGroupMembers p, ip_IsUserInGroup = IsUserInGroup p, ip_IsUserInTeam = IsUserInTeam p\<rparr>"

section \<open>Consistency\<close>

text \<open>The groups of the users are a Go map.\<close>

definition wf_identity :: "inmemory_identity \<Rightarrow> bool" where
  "wf_identity p \<longleftrightarrow> wf_gomap (ii_userGroups p)"

lemma wf_AddUserGroups: "wf_identity p \<Longrightarrow> wf_identity (AddUserGroups p u gs)"
  by (simp add: AddUserGroups_def wf_identity_def)

lemma wf_NewIdentityProvider: "wf_identity NewIdentityProvider"
  by (simp add: NewIdentityProvider_def wf_identity_def)

lemma list_ex_eq [simp]: "list_ex (\<lambda>x. x = a) xs \<longleftrightarrow> a \<in> set xs"
  by (auto simp: list_ex_iff)

lemma lookup_set_in:
  assumes "wf_gomap m"
  shows "g \<in> set (lookup_set m u) \<longleftrightarrow> (\<exists>gs. (u, gs) \<in> set m \<and> g \<in> set gs)"
  using wf_gomap_in_iff [OF assms] by (cases "map_of m u") (auto simp: lookup_set_def)

interpretation inmemory_members: membership inmemory_provider wf_identity
proof (unfold_locales, goal_cases)
  case (1 p u g)
  have "u \<in> fst ` set (filter (\<lambda>(userID, groups). g \<in> set groups) (ii_userGroups p)) \<longleftrightarrow>
      g \<in> set (lookup_set (ii_userGroups p) u)"
    using 1 by (force simp: lookup_set_in wf_identity_def)
  then show ?case
    by (simp add: inmemory_provider_def GetUserGroups_def IsUserInGroup_def GetGroupMembers_def)
next
  case (2 p u t)
  show ?case by (simp add: inmemory_provider_def IsUserInTeam_def GetUserTeams_def)
qed

text \<open>Team membership is membership by an entry of the user, or of a group of the user.\<close>

lemma entry_matches_iff:
  "entry_matches p u e \<longleftrightarrow> te_Kind e = UserMemberKind \<and> te_ID e = u \<or>
     te_Kind e = GroupMemberKind \<and> te_ID e \<in> set (lookup_set (ii_userGroups p) u)"
  by (auto simp: entry_matches_def IsUserInGroup_def UserMemberKind_def GroupMemberKind_def)

lemma GetUserTeams_iff:
  "t \<in> set (projr (GetUserTeams p u)) \<longleftrightarrow>
     (\<exists>entries. (t, entries) \<in> set (ii_TeamMembership p) \<and> (\<exists>e \<in> set entries. entry_matches p u e))"
  by (force simp: GetUserTeams_def)

section \<open>Locking\<close>

text \<open>
  A \<open>sync.RWMutex\<close> as the standard library documents it: any number of readers or one writer;
  once a writer has called \<open>Lock\<close>, no further reader is admitted until it has got and released
  the lock. A thread is the list of lock operations it has still to do; a pending one has
  announced its \<open>Lock\<close> and waits for the readers to leave.
\<close>

datatype lock_op = RLock | RUnlock | Lock | Unlock

record thread =
  th_pending :: bool
  th_ops :: "lock_op list"

record rw_state =
  rw_readers :: nat
  rw_announced :: bool
  rw_writer :: bool
  rw_threads :: "thread list"

definition advance :: "nat \<Rightarrow> lock_op list \<Rightarrow> rw_state \<Rightarrow> rw_state" where
  "advance i ops s = s\<lparr>rw_threads := (rw_threads s)[i := \<lparr>th_pending = False, th_ops = ops\<rparr>]\<rparr>"

inductive rw_step :: "rw_state \<Rightarrow> rw_state \<Rightarrow> bool" where
  rlock: "i < length (rw_threads s) \<Longrightarrow> rw_threads s ! i = \<lparr>th_pending = False, th_ops = RLock # ops\<rparr> \<Longrightarrow>
    \<not> rw_writer s \<Longrightarrow> \<not> rw_announced s \<Longrightarrow>
    rw_step s (advance i ops (s\<lparr>rw_readers := rw_readers s + 1\<rparr>))"
| runlock: "i < length (rw_threads s) \<Longrightarrow> rw_threads s ! i = \<lparr>th_pending = False, th_ops = RUnlock # ops\<rparr> \<Longrightarrow>
    rw_step s (advance i ops (s\<lparr>rw_readers := rw_readers s - 1\<rparr>))"
| announce: "i < length (rw_threads s) \<Longrightarrow> rw_threads s ! i = \<lparr>th_pending = False, th_ops = Lock # ops\<rparr> \<Longrightarrow>
    \<not> rw_writer s \<Longrightarrow> \<not> rw_announced s \<Longrightarrow>
    rw_step s (s\<lparr>rw_announced := True,
      rw_threads := (rw_threads s)[i := \<lparr>th_pending = True, th_ops = Lock # ops\<rparr>]\<rparr>)"
| acquire: "i < length (rw_threads s) \<Longrightarrow> rw_threads s ! i = \<lparr>th_pending = True, th_ops = Lock # ops\<rparr> \<Longrightarrow>
    rw_readers s = 0 \<Longrightarrow>
    rw_step s (advance i ops (s\<lparr>rw_announced := False, rw_writer := True\<rparr>))"
| unlock: "i < length (rw_threads s) \<Longrightarrow> rw_threads s ! i = \<lparr>th_pending = False, th_ops = Unlock # ops\<rparr> \<Longrightarrow>
    rw_step s (advance i ops (s\<lparr>rw_writer := False\<rparr>))"

definition rw_start :: "lock_op list list \<Rightarrow> rw_state" where
  "rw_start progs = \<lparr>rw_readers = 0, rw_announced = False, rw_writer = False,
     rw_threads = map (\<lambda>ops. \<lparr>th_pending = False, th_ops = ops\<rparr>) progs\<rparr>"

definition finished :: "rw_state \<Rightarrow> bool" where
  "finished s \<longleftrightarrow> (\<forall>t \<in> set (rw_threads s). th_ops t = [])"

definition deadlocked :: "rw_state \<Rightarrow> bool" where
  "deadlocked s \<longleftrightarrow> \<not> finished s \<and> (\<nexists>s'. rw_step s s')"

text \<open>The lock operations of the provider's methods.\<close>

definition AddUserGroups_locks :: "string \<Rightarrow> string list \<Rightarrow> lock_op list" where
  "AddUserGroups_locks userID groupIDs = (if userID = '''' \<or> groupIDs = [] then [] else [Lock, Unlock])"

definition IsUserInGroup_locks :: "lock_op list" where
  "IsUserInGroup_locks = [RLock, RUnlock]"

definition GetUserTeams_locks :: "inmemory_identity \<Rightarrow> string \<Rightarrow> lock_op list" where
  "GetUserTeams_locks p userID =
     [RLock] @ concat (map (\<lambda>(teamID, entries). concat (map (\<lambda>entry.
         if te_ID entry = userID \<and> te_Kind entry = UserMemberKind then []
         else if te_Kind entry = GroupMemberKind then IsUserInGroup_locks else []) entries))
       (ii_TeamMembership p)) @ [RUnlock]"

definition IsUserInTeam_locks :: "inmemory_identity \<Rightarrow> string \<Rightarrow> lock_op list" where
  "IsUserInTeam_locks p userID = [RLock] @ GetUserTeams_locks p userID @ [RUnlock]"

subsection \<open>Taking the lock again deadlocks\<close>

text \<open>Between the two read locks of one thread a writer may announce itself; then both wait for ever.\<close>

inductive rw_run :: "rw_state \<Rightarrow> rw_state \<Rightarrow> bool" for s where
  start: "rw_run s s"
| step: "rw_run s t \<Longrightarrow> rw_step t u \<Longrightarrow> rw_run s u"

lemma nested_rlock_deadlocks:
  "\<exists>s. rw_run (rw_start [RLock # RLock # ops, Lock # ops']) s \<and> deadlocked s"
proof -
  define s0 where "s0 = rw_start [RLock # RLock # ops, Lock # ops']"
  define s1 where "s1 = \<lparr>rw_readers = 1, rw_announced = False, rw_writer = False,
    rw_threads = [\<lparr>th_pending = False, th_ops = RLock # ops\<rparr>, \<lparr>th_pending = False, th_ops = Lock # ops'\<rparr>]\<rparr>"
  define s2 where "s2 = \<lparr>rw_readers = 1, rw_announced = True, rw_writer = False,
    rw_threads = [\<lparr>th_pending = False, th_ops = RLock # ops\<rparr>, \<lparr>th_pending = True, th_ops = Lock # ops'\<rparr>]\<rparr>"
  have "s1 = advance 0 (RLock # ops) (s0\<lparr>rw_readers := rw_readers s0 + 1\<rparr>)"
    by (simp add: s0_def s1_def rw_start_def advance_def)
  then have "rw_step s0 s1"
    using rw_step.rlock [of 0 s0 "RLock # ops"] by (simp add: s0_def rw_start_def)
  moreover have "s2 = s1\<lparr>rw_announced := True,
      rw_threads := (rw_threads s1)[1 := \<lparr>th_pending = True, th_ops = Lock # ops'\<rparr>]\<rparr>"
    by (simp add: s1_def s2_def)
  then have "rw_step s1 s2"
    using rw_step.announce [of 1 s1 ops'] by (simp add: s1_def)
  moreover have "deadlocked s2"
    by (auto simp: deadlocked_def finished_def s2_def less_Suc_eq elim!: rw_step.cases)
  ultimately show ?thesis unfolding s0_def [symmetric] by (blast intro: rw_run.intros)
qed

subsection \<open>Flat locking does not\<close>

text \<open>
  Threads that release each lock before they take the next one: as long as one of them has
  something left to do, some thread can go on. The invariant counts the threads inside and in
  front of the lock.
\<close>

fun flat_locks :: "lock_op list \<Rightarrow> bool" where
  "flat_locks [] = True"
| "flat_locks (RLock # RUnlock # ops) = flat_locks ops"
| "flat_locks (Lock # Unlock # ops) = flat_locks ops"
| "flat_locks _ = False"

definition reading :: "thread \<Rightarrow> bool" where
  "reading t \<longleftrightarrow> \<not> th_pending t \<and> (case th_ops t of RUnlock # ops \<Rightarrow> flat_locks ops | _ \<Rightarrow> False)"

definition writing :: "thread \<Rightarrow> bool" where
  "writing t \<longleftrightarrow> \<not> th_pending t \<and> (case th_ops t of Unlock # ops \<Rightarrow> flat_locks ops | _ \<Rightarrow> False)"

definition announced :: "thread \<Rightarrow> bool" where
  "announced t \<longleftrightarrow> th_pending t \<and> flat_locks (th_ops t) \<and> (case th_ops t of Lock # ops \<Rightarrow> True | _ \<Rightarrow> False)"

definition idle :: "thread \<Rightarrow> bool" where
  "idle t \<longleftrightarrow> \<not> th_pending t \<and> flat_locks (th_ops t)"

definition count_threads :: "(thread \<Rightarrow> bool) \<Rightarrow> rw_state \<Rightarrow> nat" where
  "count_threads P s = length (filter P (rw_threads s))"

definition lock_inv :: "rw_state \<Rightarrow> bool" where
  "lock_inv s \<longleftrightarrow> (\<forall>t \<in> set (rw_threads s). reading t \<or> writing t \<or> announced t \<or> idle t) \<and>
     rw_readers s = count_threads reading s \<and>
     count_threads writing s = (if rw_writer s then 1 else 0) \<and>
     count_threads announced s = (if rw_announced s then 1 else 0) \<and>
     \<not> (rw_writer s \<and> (rw_announced s \<or> 0 < rw_readers s))"

lemma length_filter_update:
  "i < length ts \<Longrightarrow> length (filter P (ts[i := t])) + (if P (ts ! i) then 1 else 0) =
     length (filter P ts) + (if P t then 1 else 0)"
proof (induction ts arbitrary: i)
  case (Cons x ts)
  then show ?case by (cases i) force+
qed simp

lemma count_advance:
  "i < length (rw_threads s) \<Longrightarrow> rw_threads s' = (rw_threads s)[i := t] \<Longrightarrow>
     count_threads P s' + (if P (rw_threads s ! i) then 1 else 0) = count_threads P s + (if P t then 1 else 0)"
  unfolding count_threads_def by (simp only: length_filter_update)

lemma flat_locks_cases:
  "flat_locks ops \<Longrightarrow> ops = [] \<or> (\<exists>rest. flat_locks rest \<and> (ops = RLock # RUnlock # rest \<or> ops = Lock # Unlock # rest))"
  by (cases ops rule: flat_locks.cases) auto

lemma flat_locks_heads [simp]:
  "flat_locks (RLock # ops) \<longleftrightarrow> (\<exists>rest. ops = RUnlock # rest \<and> flat_locks rest)"
  "flat_locks (Lock # ops) \<longleftrightarrow> (\<exists>rest. ops = Unlock # rest \<and> flat_locks rest)"
  "flat_locks (RUnlock # ops) = False" "flat_locks (Unlock # ops) = False"
  by (cases ops rule: flat_locks.cases; auto dest: flat_locks_cases)+

lemma flat_not_inside [simp]: "flat_locks ops \<Longrightarrow> \<not> reading \<lparr>th_pending = False, th_ops = ops\<rparr>"
  "flat_locks ops \<Longrightarrow> \<not> writing \<lparr>th_pending = False, th_ops = ops\<rparr>"
  by (cases ops rule: flat_locks.cases; simp add: reading_def writing_def)+

lemma kind_simps [simp]:
  "reading \<lparr>th_pending = False, th_ops = op # ops\<rparr> \<longleftrightarrow> op = RUnlock \<and> flat_locks ops"
  "writing \<lparr>th_pending = False, th_ops = op # ops\<rparr> \<longleftrightarrow> op = Unlock \<and> flat_locks ops"
  "\<not> reading \<lparr>th_pending = True, th_ops = ops\<rparr>" "\<not> writing \<lparr>th_pending = True, th_ops = ops\<rparr>"
  "\<not> idle \<lparr>th_pending = True, th_ops = ops\<rparr>" "\<not> announced \<lparr>th_pending = False, th_ops = ops\<rparr>"
  "announced \<lparr>th_pending = True, th_ops = Lock # ops\<rparr> \<longleftrightarrow> (\<exists>rest. ops = Unlock # rest \<and> flat_locks rest)"
  "idle \<lparr>th_pending = False, th_ops = ops\<rparr> \<longleftrightarrow> flat_locks ops"
  by (simp_all add: reading_def writing_def announced_def idle_def split: lock_op.splits)

lemmas thread_kinds = reading_def writing_def announced_def idle_def

text \<open>One lemma for all steps: thread \<open>i\<close> changes to \<open>t\<close>, and the lock fields to the given ones.\<close>

lemma lock_inv_update:
  assumes "lock_inv s" "i < length (rw_threads s)" "rw_threads s' = (rw_threads s)[i := t]"
    and "reading t \<or> writing t \<or> announced t \<or> idle t"
    and "rw_readers s' + (if reading (rw_threads s ! i) then 1 else 0) = rw_readers s + (if reading t then 1 else 0)"
    and "(if rw_writer s' then 1 else 0) + (if writing (rw_threads s ! i) then 1 else 0) =
      (if rw_writer s then 1 else (0::nat)) + (if writing t then 1 else 0)"
    and "(if rw_announced s' then 1 else 0) + (if announced (rw_threads s ! i) then 1 else 0) =
      (if rw_announced s then 1 else (0::nat)) + (if announced t then 1 else 0)"
    and "\<not> (rw_writer s' \<and> (rw_announced s' \<or> 0 < rw_readers s'))"
  shows "lock_inv s'"
proof -
  note count = count_advance [OF assms(2,3)]
  have "set (rw_threads s') \<subseteq> insert t (set (rw_threads s))"
    unfolding assms(3) by (rule set_update_subset_insert)
  then have "\<forall>t \<in> set (rw_threads s'). reading t \<or> writing t \<or> announced t \<or> idle t"
    using assms(1,4) by (auto simp: lock_inv_def)
  moreover have "rw_readers s' = count_threads reading s'"
    using count [of reading] assms(1,5) by (simp add: lock_inv_def)
  moreover have "count_threads writing s' = (if rw_writer s' then 1 else 0)"
    using count [of writing] assms(1,6) by (simp add: lock_inv_def)
  moreover have "count_threads announced s' = (if rw_announced s' then 1 else 0)"
    using count [of announced] assms(1,7) by (simp add: lock_inv_def)
  ultimately show ?thesis using assms(8) by (simp add: lock_inv_def)
qed

lemma count_pos: "i < length (rw_threads s) \<Longrightarrow> P (rw_threads s ! i) \<Longrightarrow> 0 < count_threads P s"
  unfolding count_threads_def by (simp add: filter_empty_conv) (meson nth_mem)

lemma thread_ok:
  assumes "lock_inv s" "i < length (rw_threads s)"
  shows "reading (rw_threads s ! i) \<or> writing (rw_threads s ! i) \<or> announced (rw_threads s ! i) \<or> idle (rw_threads s ! i)"
  using assms(1) nth_mem [OF assms(2)] by (simp add: lock_inv_def)

lemma lock_inv_step: "rw_step s s' \<Longrightarrow> lock_inv s \<Longrightarrow> lock_inv s'"
proof (induction rule: rw_step.induct)
  case (rlock i s ops)
  have "flat_locks (RLock # ops)" using thread_ok [OF rlock(5,1)] by (simp add: rlock(2))
  then obtain rest where "ops = RUnlock # rest" "flat_locks rest" by auto
  with rlock(2-4) show ?case
    by (intro lock_inv_update [OF rlock(5,1), of _ "\<lparr>th_pending = False, th_ops = ops\<rparr>"]) (simp_all add: advance_def)
next
  case (runlock i s ops)
  have ops: "flat_locks ops" using thread_ok [OF runlock(3,1)] by (simp add: runlock(2))
  then have "0 < count_threads reading s" by (intro count_pos [OF runlock(1)]) (simp add: runlock(2))
  then have "0 < rw_readers s" "\<not> rw_writer s" using runlock(3) by (auto simp: lock_inv_def)
  with ops runlock(2) show ?case
    by (intro lock_inv_update [OF runlock(3,1), of _ "\<lparr>th_pending = False, th_ops = ops\<rparr>"]) (simp_all add: advance_def)
next
  case (announce i s ops)
  have "flat_locks (Lock # ops)" using thread_ok [OF announce(5,1)] by (simp add: announce(2))
  then obtain rest where "ops = Unlock # rest" "flat_locks rest" by auto
  with announce(2-4) show ?case
    by (intro lock_inv_update [OF announce(5,1), of _ "\<lparr>th_pending = True, th_ops = Lock # ops\<rparr>"]) simp_all
next
  case (acquire i s ops)
  have a: "announced (rw_threads s ! i)" using thread_ok [OF acquire(4,1)] by (simp add: acquire(2))
  then obtain rest where rest: "ops = Unlock # rest" "flat_locks rest" using acquire(2) by auto
  from count_pos [OF acquire(1), of announced, OF a] have "rw_announced s" "\<not> rw_writer s"
    using acquire(4) by (auto simp: lock_inv_def split: if_splits)
  with rest acquire(2,3) show ?case
    by (intro lock_inv_update [OF acquire(4,1), of _ "\<lparr>th_pending = False, th_ops = ops\<rparr>"]) (simp_all add: advance_def)
next
  case (unlock i s ops)
  have ops: "flat_locks ops" using thread_ok [OF unlock(3,1)] by (simp add: unlock(2))
  then have "0 < count_threads writing s" by (intro count_pos [OF unlock(1)]) (simp add: unlock(2))
  then have "rw_writer s" using unlock(3) by (auto simp: lock_inv_def split: if_splits)
  with ops unlock(2) show ?case
    by (intro lock_inv_update [OF unlock(3,1), of _ "\<lparr>th_pending = False, th_ops = ops\<rparr>"]) (simp_all add: advance_def)
qed

lemma lock_inv_start: "\<forall>ops \<in> set progs. flat_locks ops \<Longrightarrow> lock_inv (rw_start progs)"
proof -
  assume "\<forall>ops \<in> set progs. flat_locks ops"
  moreover have "flat_locks ops \<Longrightarrow> idle \<lparr>th_pending = False, th_ops = ops\<rparr> \<and>
      \<not> reading \<lparr>th_pending = False, th_ops = ops\<rparr> \<and> \<not> writing \<lparr>th_pending = False, th_ops = ops\<rparr> \<and>
      \<not> announced \<lparr>th_pending = False, th_ops = ops\<rparr>" for ops
    by (cases ops rule: flat_locks.cases) (auto simp: thread_kinds)
  ultimately show ?thesis
    by (auto simp: lock_inv_def rw_start_def count_threads_def filter_empty_conv)
qed

lemma lock_inv_progress:
  assumes "lock_inv s" "\<not> finished s"
  shows "\<exists>s'. rw_step s s'"
proof -
  have pick: "\<exists>i < length (rw_threads s). P (rw_threads s ! i)" if "0 < count_threads P s" for P
    using that by (auto simp: count_threads_def filter_empty_conv in_set_conv_nth)
  consider (writer) "rw_writer s" | (reader) "\<not> rw_writer s" "0 < rw_readers s"
    | (waiting) "\<not> rw_writer s" "rw_readers s = 0" "rw_announced s"
    | (unlocked) "\<not> rw_writer s" "rw_readers s = 0" "\<not> rw_announced s" by blast
  then show ?thesis
  proof cases
    case writer
    then obtain i where "i < length (rw_threads s)" "writing (rw_threads s ! i)"
      using pick [of writing] assms(1) by (auto simp: lock_inv_def)
    then show ?thesis
      using rw_step.unlock by (cases "rw_threads s ! i") (fastforce simp: writing_def split: list.splits lock_op.splits)
  next
    case reader
    then obtain i where "i < length (rw_threads s)" "reading (rw_threads s ! i)"
      using pick [of reading] assms(1) by (auto simp: lock_inv_def)
    then show ?thesis
      using rw_step.runlock by (cases "rw_threads s ! i") (fastforce simp: reading_def split: list.splits lock_op.splits)
  next
    case waiting
    then obtain i where "i < length (rw_threads s)" "announced (rw_threads s ! i)"
      using pick [of announced] assms(1) by (auto simp: lock_inv_def)
    then show ?thesis
      using rw_step.acquire waiting by (cases "rw_threads s ! i") (fastforce simp: announced_def split: list.splits lock_op.splits)
  next
    case unlocked
    obtain i where i: "i < length (rw_threads s)" "th_ops (rw_threads s ! i) \<noteq> []"
      using assms(2) by (auto simp: finished_def in_set_conv_nth)
    have none: "\<not> reading (rw_threads s ! i)" "\<not> writing (rw_threads s ! i)" "\<not> announced (rw_threads s ! i)"
      using unlocked assms(1) count_pos [OF i(1)] by (fastforce simp: lock_inv_def)+
    then have "idle (rw_threads s ! i)" using assms(1) i(1) nth_mem by (auto simp: lock_inv_def)
    then obtain rest where "th_ops (rw_threads s ! i) = RLock # RUnlock # rest \<or> th_ops (rw_threads s ! i) = Lock # Unlock # rest"
      "\<not> th_pending (rw_threads s ! i)"
      using i(2) flat_locks_cases by (auto simp: idle_def)
    then show ?thesis
      using rw_step.rlock [OF i(1)] rw_step.announce [OF i(1)] unlocked by (cases "rw_threads s ! i") fastforce
  qed
qed

lemma flat_not_deadlocked:
  assumes "\<forall>ops \<in> set progs. flat_locks ops" "rw_run (rw_start progs) s"
  shows "\<not> deadlocked s"
proof -
  have "lock_inv s"
    using assms(2) by (induction) (simp_all add: lock_inv_start [OF assms(1)] lock_inv_step)
  then show ?thesis using lock_inv_progress by (auto simp: deadlocked_def)
qed

section \<open>What the provider guarantees\<close>

text \<open>C32. The team query takes its read lock a second time inside itself. While it runs for any user of
  a provider that has a group as a team member, a concurrent \<open>AddUserGroups\<close> can leave both threads
  waiting for each other for ever; so can a concurrent \<open>IsUserInTeam\<close>, for any provider.\<close>

theorem team_query_can_deadlock:
  assumes "(teamID, entries) \<in> set (ii_TeamMembership p)" "e \<in> set entries" "te_Kind e = GroupMemberKind"
    and "newUser \<noteq> ''''" "newGroups \<noteq> []"
  shows "(\<exists>s. rw_run (rw_start [GetUserTeams_locks p u, AddUserGroups_locks newUser newGroups]) s \<and> deadlocked s) \<and>
    (\<exists>s. rw_run (rw_start [IsUserInTeam_locks p u, AddUserGroups_locks newUser newGroups]) s \<and> deadlocked s)"
proof -
  define locks where "locks = (\<lambda>entry :: team_entry. if te_ID entry = u \<and> te_Kind entry = UserMemberKind then []
      else if te_Kind entry = GroupMemberKind then IsUserInGroup_locks else [])"
  have cases: "locks x = [] \<or> locks x = IsUserInGroup_locks" for x by (simp add: locks_def)
  have concat_locks: "concat xs = [] \<or> (\<exists>ops. concat xs = RLock # ops)"
    if "\<forall>x \<in> set xs. x = [] \<or> (\<exists>ops. x = RLock # ops)" for xs :: "lock_op list list"
    using that by (induction xs) auto
  define inner where "inner = concat (map (\<lambda>(teamID, entries). concat (map locks entries)) (ii_TeamMembership p))"
  have each: "concat (map locks es) = [] \<or> (\<exists>ops. concat (map locks es) = RLock # ops)" for es
    using cases by (intro concat_locks) (auto simp: IsUserInGroup_locks_def)
  have "inner = [] \<or> (\<exists>ops. inner = RLock # ops)"
    unfolding inner_def by (rule concat_locks) (use each in \<open>fastforce simp del: concat_eq_Nil_conv\<close>)
  moreover have "locks e = IsUserInGroup_locks"
    using assms(3) by (auto simp: locks_def UserMemberKind_def GroupMemberKind_def)
  then have "inner \<noteq> []" using assms(1,2) by (force simp: inner_def IsUserInGroup_locks_def)
  ultimately obtain ops where "inner = RLock # ops" by blast
  then have teams: "GetUserTeams_locks p u = RLock # RLock # ops @ [RUnlock]"
    by (simp add: GetUserTeams_locks_def inner_def locks_def)
  have "AddUserGroups_locks newUser newGroups = Lock # [Unlock]" using assms(4,5) by (simp add: AddUserGroups_locks_def)
  then show ?thesis
    using nested_rlock_deadlocks [of "ops @ [RUnlock]" "[Unlock]"]
      nested_rlock_deadlocks [of "RLock # ops @ [RUnlock, RUnlock]" "[Unlock]"]
    by (simp add: teams IsUserInTeam_locks_def)
qed

theorem team_query_can_deadlock_witness:
  "\<exists>s. rw_run (rw_start [GetUserTeams_locks
      \<lparr>ii_userGroups = [], ii_TeamMembership = [(''red'', [\<lparr>te_ID = ''devs'', te_Kind = ''group''\<rparr>])]\<rparr> ''alice'',
      AddUserGroups_locks ''bob'' [''devs'']]) s \<and> deadlocked s"
  using team_query_can_deadlock [of "''red''" "[\<lparr>te_ID = ''devs'', te_Kind = ''group''\<rparr>]"
      "\<lparr>ii_userGroups = [], ii_TeamMembership = [(''red'', [\<lparr>te_ID = ''devs'', te_Kind = ''group''\<rparr>])]\<rparr>"
      "\<lparr>te_ID = ''devs'', te_Kind = ''group''\<rparr>" "''bob''" "[''devs'']" "''alice''"]
  by (simp add: GroupMemberKind_def)

text \<open>All other uses of the provider are free of deadlock: whatever number of threads add groups and
  ask for group membership, each any number of times, as long as one has something left to do some
  thread can go on.\<close>

lemma group_operations_progress:
  assumes "\<forall>prog \<in> set progs. \<exists>calls. prog = concat calls \<and>
      (\<forall>call \<in> set calls. call = IsUserInGroup_locks \<or> (\<exists>u gs. call = AddUserGroups_locks u gs))"
    and "rw_run (rw_start progs) s"
  shows "\<not> deadlocked s"
proof (rule flat_not_deadlocked [OF _ assms(2)], rule ballI)
  fix prog assume "prog \<in> set progs"
  then obtain calls where "prog = concat calls"
    "\<forall>call \<in> set calls. call = IsUserInGroup_locks \<or> (\<exists>u gs. call = AddUserGroups_locks u gs)"
    using assms(1) by blast
  then show "flat_locks prog"
    by (induction calls arbitrary: prog) (auto simp: IsUserInGroup_locks_def AddUserGroups_locks_def)
qed

end
