(* ===== verification/Json_Values.thy ===== *)
theory Json_Values
  imports Go_Json Inmemory_Identity
begin

text \<open>
  How \<open>encoding/json\<close> writes and reads the values of the JSON store: role assignments, grants,
  team entries, and the maps and slices of them. A file holds a JSON value; its layout as text
  (\<open>MarshalIndent\<close>) is not modelled. Documents are read as the package writes them: the field
  names of Go's structs and tags, each at most once.

  A nil and an empty slice are one list here. The store copies its slices with
  \<open>append([]T(nil), xs...)\<close>, which yields nil for both, so an empty one is written as \<open>null\<close>.
\<close>

section \<open>Values\<close>

datatype json =
    JNull
  | JBool bool
  | JNumber string
  | JString string
  | JArray "json list"
  | JObject "(string \<times> json) list"

text \<open>
  What depends on the formats of numbers and times: how a value of type \<open>any\<close> that is neither a
  string, an integer nor nil is written, which \<open>float64\<close> a number is read as, what a composite value
  is read as, and the RFC 3339 text of a time.
\<close>

record json_codec =
  jc_literal :: "goval \<Rightarrow> json result"
  jc_number :: "string \<Rightarrow> goval result"
  jc_composite :: "json \<Rightarrow> goval"
  jc_time :: "time \<Rightarrow> string result"
  jc_parse_time :: "string \<Rightarrow> time result"

text \<open>The text of a string value: \<open>Marshal\<close> replaces every byte that is not part of valid UTF-8.\<close>

function coerce_text :: "string \<Rightarrow> string" where
  "coerce_text [] = []"
| "coerce_text (c # cs) =
     (let n = rune_len (c # cs) in
      if n = 0 then map char_of [0xEF, 0xBF, 0xBD :: nat] @ coerce_text cs
      else take n (c # cs) @ coerce_text (drop n (c # cs)))"
  by pat_completeness auto
termination
  by (relation "measure length") auto

lemma coerce_text_valid: "valid_text s \<Longrightarrow> coerce_text s = s"
proof (induction s rule: coerce_text.induct)
  case (2 c cs)
  define n where "n = rune_len (c # cs)"
  have n: "n \<noteq> 0" "valid_text (drop (n - 1) cs)" using 2(3) by (simp_all add: n_def)
  then have "drop n (c # cs) = drop (n - 1) cs" by (cases n) simp_all
  then have "coerce_text (drop n (c # cs)) = drop n (c # cs)" using 2(2) [OF n_def] n by simp
  then show ?case using n(1) by (simp add: Let_def n_def [symmetric] del: take_Suc_Cons drop_Suc_Cons)
qed simp

definition type_error :: goerror where
  "type_error = Foreign ''json: cannot unmarshal''"

section \<open>Writing\<close>

definition encode_string :: "string \<Rightarrow> json result" where
  "encode_string s = Inr (JString (coerce_text s))"

definition encode_int :: "int \<Rightarrow> json result" where
  "encode_int n = Inr (JNumber (Itoa n))"

definition encode_pointer :: "('a \<Rightarrow> json result) \<Rightarrow> 'a option \<Rightarrow> json result" where
  "encode_pointer enc v = (case v of None \<Rightarrow> Inr JNull | Some x \<Rightarrow> enc x)"

definition encode_array :: "('a \<Rightarrow> json result) \<Rightarrow> 'a list \<Rightarrow> json result" where
  "encode_array enc xs = attempt (collect enc xs) (\<lambda>js. Inr (JArray js))"

definition encode_slice :: "('a \<Rightarrow> json result) \<Rightarrow> 'a list \<Rightarrow> json result" where
  "encode_slice enc xs = (if xs = [] then Inr JNull else encode_array enc xs)"

definition encode_map :: "('a \<Rightarrow> json result) \<Rightarrow> (string, 'a) gomap \<Rightarrow> json result" where
  "encode_map enc m =
     attempt (collect (\<lambda>(k, v). attempt (enc v) (\<lambda>j. Inr (coerce_text k, j))) m) (\<lambda>ms. Inr (JObject ms))"

definition encode_struct :: "(string \<times> json result) list \<Rightarrow> json result" where
  "encode_struct members = attempt (collect (\<lambda>(k, r). attempt r (\<lambda>j. Inr (k, j))) members) (\<lambda>ms. Inr (JObject ms))"

fun encode_any :: "json_codec \<Rightarrow> goval \<Rightarrow> json result" where
  "encode_any c (GString s) = encode_string s"
| "encode_any c (GInt n) = encode_int n"
| "encode_any c (GInt64 n) = encode_int n"
| "encode_any c GNil = Inr JNull"
| "encode_any c v = jc_literal c v"

section \<open>Reading\<close>

text \<open>A \<open>null\<close> leaves the zero value of its target.\<close>

fun decode_string :: "json \<Rightarrow> string result" where
  "decode_string JNull = Inr ''''"
| "decode_string (JString s) = Inr s"
| "decode_string j = Inl type_error"

fun decode_int :: "json \<Rightarrow> int result" where
  "decode_int JNull = Inr 0"
| "decode_int (JNumber l) = (case Atoi l of None \<Rightarrow> Inl type_error | Some n \<Rightarrow> Inr n)"
| "decode_int j = Inl type_error"

definition decode_pointer :: "(json \<Rightarrow> 'a result) \<Rightarrow> json \<Rightarrow> 'a option result" where
  "decode_pointer dec j = (if j = JNull then Inr None else attempt (dec j) (\<lambda>x. Inr (Some x)))"

definition decode_slice :: "(json \<Rightarrow> 'a result) \<Rightarrow> json \<Rightarrow> 'a list result" where
  "decode_slice dec j = (case j of JNull \<Rightarrow> Inr [] | JArray js \<Rightarrow> collect dec js | _ \<Rightarrow> Inl type_error)"

definition decode_map :: "(json \<Rightarrow> 'a result) \<Rightarrow> json \<Rightarrow> (string, 'a) gomap result" where
  "decode_map dec j =
     (case j of
        JNull \<Rightarrow> Inr []
      | JObject ms \<Rightarrow> attempt (collect (\<lambda>(k, j). attempt (dec j) (\<lambda>v. Inr (k, v))) ms) (\<lambda>m. Inr (copy_map m))
      | _ \<Rightarrow> Inl type_error)"

definition struct_members :: "json \<Rightarrow> (string \<times> json) list result" where
  "struct_members j = (case j of JNull \<Rightarrow> Inr [] | JObject ms \<Rightarrow> Inr ms | _ \<Rightarrow> Inl type_error)"

definition decode_field :: "(string \<times> json) list \<Rightarrow> string \<Rightarrow> (json \<Rightarrow> 'a result) \<Rightarrow> 'a result" where
  "decode_field ms name dec = dec (case map_of ms name of None \<Rightarrow> JNull | Some j \<Rightarrow> j)"

fun decode_any :: "json_codec \<Rightarrow> json \<Rightarrow> goval result" where
  "decode_any c JNull = Inr GNil"
| "decode_any c (JString s) = Inr (GString s)"
| "decode_any c (JNumber l) = jc_number c l"
| "decode_any c j = Inr (jc_composite c j)"

section \<open>The structs\<close>

definition encode_assignment :: "json_codec \<Rightarrow> role_assignment \<Rightarrow> json result" where
  "encode_assignment c a = encode_struct [(''RoleID'', encode_string (ra_RoleID a)),
     (''BindingValues'', encode_map (encode_any c) (ra_BindingValues a))]"

definition decode_assignment :: "json_codec \<Rightarrow> json \<Rightarrow> role_assignment result" where
  "decode_assignment c j =
     attempt (struct_members j) (\<lambda>ms.
     attempt (decode_field ms ''RoleID'' decode_string) (\<lambda>r.
     attempt (decode_field ms ''BindingValues'' (decode_map (decode_any c))) (\<lambda>b.
     Inr \<lparr>ra_RoleID = r, ra_BindingValues = b\<rparr>)))"

definition encode_grant :: "json_codec \<Rightarrow> grant \<Rightarrow> json result" where
  "encode_grant c g = encode_struct [
     (''ID'', encode_int (gr_ID g)),
     (''OwnerKind'', encode_string (gr_OwnerKind g)),
     (''OwnerID'', encode_string (gr_OwnerID g)),
     (''Effect'', encode_string (gr_Effect g)),
     (''TeamScope'', encode_string (gr_TeamScope g)),
     (''ObjectScope'', encode_pointer encode_string (gr_ObjectScope g)),
     (''PermissionName'', encode_string (gr_PermissionName g)),
     (''ExpiresAt'', encode_pointer (\<lambda>t. attempt (jc_time c t) encode_string) (gr_ExpiresAt g)),
     (''RestrictedFields'', encode_slice encode_string (gr_RestrictedFields g)),
     (''VariableSpec'', encode_pointer (encode_map (encode_any c)) (gr_VariableSpec g))]"

definition decode_grant :: "json_codec \<Rightarrow> json \<Rightarrow> grant result" where
  "decode_grant c j =
     attempt (struct_members j) (\<lambda>ms.
     attempt (decode_field ms ''ID'' decode_int) (\<lambda>i.
     attempt (decode_field ms ''OwnerKind'' decode_string) (\<lambda>kind.
     attempt (decode_field ms ''OwnerID'' decode_string) (\<lambda>oid.
     attempt (decode_field ms ''Effect'' decode_string) (\<lambda>eff.
     attempt (decode_field ms ''TeamScope'' decode_string) (\<lambda>ts.
     attempt (decode_field ms ''ObjectScope'' (decode_pointer decode_string)) (\<lambda>os.
     attempt (decode_field ms ''PermissionName'' decode_string) (\<lambda>perm.
     attempt (decode_field ms ''ExpiresAt'' (decode_pointer (\<lambda>j. attempt (decode_string j) (jc_parse_time c)))) (\<lambda>t.
     attempt (decode_field ms ''RestrictedFields'' (decode_slice decode_string)) (\<lambda>fs.
     attempt (decode_field ms ''VariableSpec'' (decode_pointer (decode_map (decode_any c)))) (\<lambda>vs.
     Inr \<lparr>gr_ID = i, gr_OwnerKind = kind, gr_OwnerID = oid, gr_Effect = eff, gr_TeamScope = ts, gr_ObjectScope = os,
       gr_PermissionName = perm, gr_ExpiresAt = t, gr_RestrictedFields = fs, gr_VariableSpec = vs\<rparr>)))))))))))"

definition decode_entry :: "json \<Rightarrow> team_entry result" where
  "decode_entry j =
     attempt (struct_members j) (\<lambda>ms.
     attempt (decode_field ms ''ID'' decode_string) (\<lambda>i.
     attempt (decode_field ms ''Kind'' decode_string) (\<lambda>k.
     Inr \<lparr>te_ID = i, te_Kind = k\<rparr>)))"

section \<open>Reading back what was written\<close>

text \<open>\<open>reads_back enc dec x y\<close>: if \<open>x\<close> can be written, what was written is read as \<open>y\<close>.\<close>

definition reads_back :: "('a \<Rightarrow> 'j result) \<Rightarrow> ('j \<Rightarrow> 'b result) \<Rightarrow> 'a \<Rightarrow> 'b \<Rightarrow> bool" where
  "reads_back enc dec x y \<longleftrightarrow> (\<forall>j. enc x = Inr j \<longrightarrow> dec j = Inr y)"

named_theorems reads \<open>what is read back\<close>

lemma reads_back_string [reads]: "valid_text s \<Longrightarrow> reads_back encode_string decode_string s s"
  by (simp add: reads_back_def encode_string_def coerce_text_valid)

lemma reads_back_int [reads]: "in_int64 n \<Longrightarrow> reads_back encode_int decode_int n n"
  by (simp add: reads_back_def encode_int_def Atoi_Itoa)

lemma reads_back_pointer [reads]:
  assumes "\<And>x. v = Some x \<Longrightarrow> reads_back enc dec x (f x)" "\<And>x. enc x \<noteq> Inr JNull"
  shows "reads_back (encode_pointer enc) (decode_pointer dec) v (map_option f v)"
  using assms by (cases v) (auto simp: reads_back_def encode_pointer_def decode_pointer_def)

lemma collect_reads_back:
  assumes "collect enc xs = Inr js" "\<And>x. x \<in> set xs \<Longrightarrow> reads_back enc dec x (f x)"
  shows "collect dec js = Inr (map f xs)"
  using assms by (induction xs arbitrary: js) (auto simp: reads_back_def)

lemma reads_back_array [reads]:
  "(\<And>x. x \<in> set xs \<Longrightarrow> reads_back enc dec x (f x)) \<Longrightarrow>
     reads_back (encode_array enc) (decode_slice dec) xs (map f xs)"
  using collect_reads_back [of enc xs _ dec f] by (auto simp: reads_back_def encode_array_def decode_slice_def)

lemma reads_back_slice [reads]:
  "(\<And>x. x \<in> set xs \<Longrightarrow> reads_back enc dec x (f x)) \<Longrightarrow>
     reads_back (encode_slice enc) (decode_slice dec) xs (map f xs)"
  using reads_back_array [of xs enc dec f] by (simp add: encode_slice_def reads_back_def decode_slice_def)

definition valid_keys :: "(string, 'a) gomap \<Rightarrow> bool" where
  "valid_keys m \<longleftrightarrow> wf_gomap m \<and> (\<forall>k \<in> fst ` set m. valid_text k)"

lemma reads_back_map [reads]:
  assumes "valid_keys m" "\<And>k x. (k, x) \<in> set m \<Longrightarrow> reads_back enc dec x (f x)"
  shows "reads_back (encode_map enc) (decode_map dec) m (map (\<lambda>(k, x). (k, f x)) m)"
proof -
  have "reads_back (\<lambda>(k, v). attempt (enc v) (\<lambda>j. Inr (coerce_text k, j)))
      (\<lambda>(k, j). attempt (dec j) (\<lambda>v. Inr (k, v))) e ((\<lambda>(k, x). (k, f x)) e)" if "e \<in> set m" for e
    using assms(2) [of "fst e" "snd e"] assms(1) that
    by (cases e) (force simp: reads_back_def valid_keys_def coerce_text_valid)
  then have "collect (\<lambda>(k, j). attempt (dec j) (\<lambda>v. Inr (k, v))) ms = Inr (map (\<lambda>(k, x). (k, f x)) m)"
    if "collect (\<lambda>(k, v). attempt (enc v) (\<lambda>j. Inr (coerce_text k, j))) m = Inr ms" for ms
    using collect_reads_back [OF that] by blast
  moreover have "wf_gomap (map (\<lambda>(k, x). (k, f x)) m)" using assms(1) by (simp add: valid_keys_def)
  ultimately show ?thesis by (auto simp: reads_back_def encode_map_def decode_map_def)
qed

text \<open>
  Values of type \<open>any\<close> come back as what JSON keeps of them: an integer returns as a \<open>float64\<close>.
  \<open>codec_laws\<close> is what \<open>encoding/json\<close> and \<open>time\<close> document: every number is read as a \<open>float64\<close> (and
  one that fits into 64 bits can be read), a composite value as neither number nor text, a
  \<open>float64\<close> is printed so that it is read back exactly, what was written can be read, and times
  survive. \<open>reloaded\<close> is the value after writing and reading.
\<close>

definition codec_laws :: "json_codec \<Rightarrow> bool" where
  "codec_laws c \<longleftrightarrow>
     (\<forall>n. in_int64 n \<longrightarrow> (\<exists>k t. jc_number c (Itoa n) = Inr (GFloat64 k t))) \<and>
     (\<forall>l v. jc_number c l = Inr v \<longrightarrow> (\<exists>k t. v = GFloat64 k t)) \<and> (\<forall>j. \<exists>ty t. jc_composite c j = GOther ty t) \<and>
     (\<forall>v j. jc_literal c v = Inr j \<longrightarrow> (\<exists>w. decode_any c j = Inr w)) \<and>
     (\<forall>k t j. jc_literal c (GFloat64 k t) = Inr j \<longrightarrow> decode_any c j = Inr (GFloat64 k t)) \<and>
     (\<forall>t s. jc_time c t = Inr s \<longrightarrow> valid_text s \<and> jc_parse_time c s = Inr t)"

definition reloaded :: "json_codec \<Rightarrow> goval \<Rightarrow> goval" where
  "reloaded c v = (case attempt (encode_any c v) (decode_any c) of Inl e \<Rightarrow> v | Inr w \<Rightarrow> w)"

fun valid_any :: "goval \<Rightarrow> bool" where
  "valid_any (GString s) \<longleftrightarrow> valid_text s"
| "valid_any (GInt n) \<longleftrightarrow> in_int64 n"
| "valid_any (GInt64 n) \<longleftrightarrow> in_int64 n"
| "valid_any v \<longleftrightarrow> True"

lemma reloaded_simps:
  "valid_text s \<Longrightarrow> reloaded c (GString s) = GString s" "reloaded c GNil = GNil"
  by (simp_all add: reloaded_def encode_string_def coerce_text_valid)

lemma codec_number:
  assumes "codec_laws c" "in_int64 n"
  obtains k t where "jc_number c (Itoa n) = Inr (GFloat64 k t)"
  using assms unfolding codec_laws_def by blast

lemma decode_any_not_int:
  assumes "codec_laws c" "decode_any c j = Inr v"
  shows "v \<noteq> GInt n"
proof -
  have "jc_number c l = Inr v \<Longrightarrow> \<exists>k t. v = GFloat64 k t" "\<exists>ty t. jc_composite c j = GOther ty t" for l
    using assms(1) unfolding codec_laws_def by blast+
  then show ?thesis using assms(2) by (cases j) auto
qed

lemma reloaded_not_int:
  assumes "codec_laws c" "valid_any v"
  shows "reloaded c v \<noteq> GInt n"
proof (cases "attempt (encode_any c v) (decode_any c)")
  case (Inl e)
  have "v \<noteq> GInt n"
  proof
    assume "v = GInt n"
    with assms obtain k t where "jc_number c (Itoa n) = Inr (GFloat64 k t)"
      using codec_number [OF assms(1)] by (metis valid_any.simps(2))
    with Inl \<open>v = GInt n\<close> show False by (simp add: encode_int_def)
  qed
  with Inl show ?thesis by (simp add: reloaded_def)
next
  case (Inr w)
  then show ?thesis using decode_any_not_int [OF assms(1)] by (auto simp: reloaded_def)
qed

lemma reads_back_any [reads]:
  assumes laws: "codec_laws c" and "valid_any v"
  shows "reads_back (encode_any c) (decode_any c) v (reloaded c v)"
proof -
  have literal: "\<exists>w. decode_any c j = Inr w" if "jc_literal c v = Inr j" for v j
    using laws that unfolding codec_laws_def by blast
  have "\<exists>w. decode_any c j = Inr w" if "encode_any c v = Inr j" for j
  proof (cases v)
    case (GInt n)
    with assms(2) obtain k t where "jc_number c (Itoa n) = Inr (GFloat64 k t)"
      using codec_number [OF laws] by (metis valid_any.simps)
    with GInt that show ?thesis by (auto simp: encode_int_def)
  next
    case (GInt64 n)
    with assms(2) obtain k t where "jc_number c (Itoa n) = Inr (GFloat64 k t)"
      using codec_number [OF laws] by (metis valid_any.simps)
    with GInt64 that show ?thesis by (auto simp: encode_int_def)
  next
    case (GFloat64 n t)
    with that have "jc_literal c v = Inr j" by simp
    then show ?thesis by (rule literal)
  next
    case (GOther ty t)
    with that have "jc_literal c v = Inr j" by simp
    then show ?thesis by (rule literal)
  qed (use that in \<open>auto simp: encode_string_def\<close>)
  then have "decode_any c j = Inr (reloaded c v)" if "encode_any c v = Inr j" for j
    using that by (auto simp: reloaded_def)
  then show ?thesis by (simp add: reads_back_def)
qed

lemma reads_back_time [reads]:
  "codec_laws c \<Longrightarrow>
     reads_back (\<lambda>t. attempt (jc_time c t) encode_string) (\<lambda>j. attempt (decode_string j) (jc_parse_time c)) t t"
  by (auto simp: reads_back_def codec_laws_def encode_string_def coerce_text_valid)

lemma not_null [simp]:
  "encode_string s \<noteq> Inr JNull" "attempt r encode_string \<noteq> Inr JNull" "encode_map enc m \<noteq> Inr JNull"
  by (auto simp: encode_string_def encode_map_def)

text \<open>What is left of an assignment and of a grant after a reload.\<close>

definition reloaded_bindings :: "json_codec \<Rightarrow> bindings \<Rightarrow> bindings" where
  "reloaded_bindings c b = map (\<lambda>(k, v). (k, reloaded c v)) b"

definition reloaded_assignment :: "json_codec \<Rightarrow> role_assignment \<Rightarrow> role_assignment" where
  "reloaded_assignment c a = a\<lparr>ra_BindingValues := reloaded_bindings c (ra_BindingValues a)\<rparr>"

definition reloaded_grant :: "json_codec \<Rightarrow> grant \<Rightarrow> grant" where
  "reloaded_grant c g = g\<lparr>gr_VariableSpec := map_option (reloaded_bindings c) (gr_VariableSpec g)\<rparr>"

definition valid_bindings :: "bindings \<Rightarrow> bool" where
  "valid_bindings b \<longleftrightarrow> valid_keys b \<and> (\<forall>v \<in> snd ` set b. valid_any v)"

definition valid_assignment_text :: "role_assignment \<Rightarrow> bool" where
  "valid_assignment_text a \<longleftrightarrow> valid_text (ra_RoleID a) \<and> valid_bindings (ra_BindingValues a)"

definition valid_grant_text :: "grant \<Rightarrow> bool" where
  "valid_grant_text g \<longleftrightarrow> in_int64 (gr_ID g) \<and> valid_text (gr_OwnerKind g) \<and> valid_text (gr_OwnerID g) \<and>
     valid_text (gr_Effect g) \<and> valid_text (gr_TeamScope g) \<and> pred_option valid_text (gr_ObjectScope g) \<and>
     valid_text (gr_PermissionName g) \<and> (\<forall>f \<in> set (gr_RestrictedFields g). valid_text f) \<and>
     pred_option valid_bindings (gr_VariableSpec g)"

lemma reads_back_bindings [reads]:
  "codec_laws c \<Longrightarrow> valid_bindings b \<Longrightarrow>
     reads_back (encode_map (encode_any c)) (decode_map (decode_any c)) b (reloaded_bindings c b)"
  unfolding reloaded_bindings_def by (intro reads) (force simp: valid_bindings_def)+

lemma reads_back_assignment [reads]:
  assumes "codec_laws c" "valid_assignment_text a"
  shows "reads_back (encode_assignment c) (decode_assignment c) a (reloaded_assignment c a)"
proof -
  have "reads_back encode_string decode_string (ra_RoleID a) (ra_RoleID a)"
    "reads_back (encode_map (encode_any c)) (decode_map (decode_any c)) (ra_BindingValues a)
       (reloaded_bindings c (ra_BindingValues a))"
    using assms by (auto simp: valid_assignment_text_def intro: reads)
  then show ?thesis
    by (auto simp: reads_back_def encode_assignment_def encode_struct_def decode_assignment_def struct_members_def
        decode_field_def reloaded_assignment_def)
qed

lemma reads_back_strings [reads]:
  "\<forall>s \<in> set xs. valid_text s \<Longrightarrow> reads_back (encode_slice encode_string) (decode_slice decode_string) xs xs"
  using reads_back_slice [of xs encode_string decode_string "\<lambda>s. s"] reads_back_string by simp

lemma reads_back_grant [reads]:
  assumes "codec_laws c" "valid_grant_text g"
  shows "reads_back (encode_grant c) (decode_grant c) g (reloaded_grant c g)"
proof -
  have "reads_back encode_int decode_int (gr_ID g) (gr_ID g)"
    "reads_back encode_string decode_string (gr_OwnerKind g) (gr_OwnerKind g)"
    "reads_back encode_string decode_string (gr_OwnerID g) (gr_OwnerID g)"
    "reads_back encode_string decode_string (gr_Effect g) (gr_Effect g)"
    "reads_back encode_string decode_string (gr_TeamScope g) (gr_TeamScope g)"
    "reads_back encode_string decode_string (gr_PermissionName g) (gr_PermissionName g)"
    "reads_back (encode_slice encode_string) (decode_slice decode_string) (gr_RestrictedFields g) (gr_RestrictedFields g)"
    using assms(2) by (auto simp: valid_grant_text_def intro: reads)
  moreover have "reads_back (encode_pointer encode_string) (decode_pointer decode_string)
      (gr_ObjectScope g) (map_option (\<lambda>s. s) (gr_ObjectScope g))"
    using assms(2) by (intro reads_back_pointer reads) (auto simp: valid_grant_text_def)
  moreover have "reads_back (encode_pointer (\<lambda>t. attempt (jc_time c t) encode_string))
      (decode_pointer (\<lambda>j. attempt (decode_string j) (jc_parse_time c))) (gr_ExpiresAt g)
      (map_option (\<lambda>t. t) (gr_ExpiresAt g))"
    using assms(1) by (intro reads_back_pointer reads) auto
  moreover have "reads_back (encode_pointer (encode_map (encode_any c)))
      (decode_pointer (decode_map (decode_any c))) (gr_VariableSpec g)
      (map_option (reloaded_bindings c) (gr_VariableSpec g))"
    using assms by (intro reads_back_pointer reads) (auto simp: valid_grant_text_def)
  ultimately show ?thesis
    by (auto simp: reads_back_def encode_grant_def encode_struct_def decode_grant_def struct_members_def
        decode_field_def reloaded_grant_def option.map_ident)
qed

end
