(* ===== verification/Json_Files.thy ===== *)
theory Json_Files
  imports Json_Values
begin

text \<open>
  The files of the JSON store and of its identity provider. The operating system is a parameter:
  \<open>'f go_os\<close> is its part of package \<open>os\<close> over file systems of type \<open>'f\<close>. Any call may fail;
  \<open>os_laws\<close> says what the calls do to the file of a store when they succeed and when they fail.
  \<open>replace_file\<close> and \<open>load_file\<close> are the common code of \<open>Save\<close> and \<open>Load\<close>.
\<close>

section \<open>Files\<close>

datatype file_content = Empty_File | Json_File json | Broken_File

datatype read_file = Missing | Unreadable goerror | Content file_content

record 'f go_os =
  os_ReadFile :: "'f \<Rightarrow> string \<Rightarrow> read_file"
  os_MkdirAll :: "'f \<Rightarrow> string \<Rightarrow> 'f update"
  os_WriteFile :: "'f \<Rightarrow> string \<Rightarrow> file_content \<Rightarrow> 'f update"
  os_Rename :: "'f \<Rightarrow> string \<Rightarrow> string \<Rightarrow> 'f update"
  os_Dir :: "string \<Rightarrow> string"

definition tmpPath :: "string \<Rightarrow> string" where
  "tmpPath path = path @ ''.tmp''"

definition os_laws :: "'f go_os \<Rightarrow> bool" where
  "os_laws os \<longleftrightarrow>
     (\<forall>f p e f'. os_MkdirAll os f (os_Dir os p) = (e, f') \<longrightarrow> os_ReadFile os f' p = os_ReadFile os f p) \<and>
     (\<forall>f p c e f'. os_WriteFile os f (tmpPath p) c = (e, f') \<longrightarrow> os_ReadFile os f' p = os_ReadFile os f p \<and>
        (e = None \<longrightarrow> os_ReadFile os f' (tmpPath p) = Content c)) \<and>
     (\<forall>f p e f'. os_Rename os f (tmpPath p) p = (e, f') \<longrightarrow>
        os_ReadFile os f' p = (if e = None then os_ReadFile os f (tmpPath p) else os_ReadFile os f p))"

section \<open>Replacing and loading\<close>

text \<open>\<open>Save\<close>: the document goes to a temporary file, which is then renamed. \<open>what\<close> names the store in
  the errors.\<close>

definition replace_file :: "'f go_os \<Rightarrow> string \<Rightarrow> string \<Rightarrow> json result \<Rightarrow> 'f \<Rightarrow> 'f update" where
  "replace_file os what path encoded f =
     (case os_MkdirAll os f (os_Dir os path) of
        (Some e, f1) \<Rightarrow> (Some (Wrapf (''create '' @ what @ '' directory: %w'') [] e), f1)
      | (None, f1) \<Rightarrow>
          (case encoded of
             Inl e \<Rightarrow> (Some (Wrapf (''encode '' @ what @ '' data: %w'') [] e), f1)
           | Inr content \<Rightarrow>
               (case os_WriteFile os f1 (tmpPath path) (Json_File content) of
                  (Some e, f2) \<Rightarrow> (Some (Wrapf (''write temp '' @ what @ '' file: %w'') [] e), f2)
                | (None, f2) \<Rightarrow>
                    (case os_Rename os f2 (tmpPath path) path of
                       (Some e, f3) \<Rightarrow> (Some (Wrapf (''replace '' @ what @ '' file: %w'') [] e), f3)
                     | (None, f3) \<Rightarrow> (None, f3)))))"

text \<open>\<open>Load\<close>: a missing and an empty file stand for the empty data.\<close>

definition load_file :: "'f go_os \<Rightarrow> string \<Rightarrow> (json \<Rightarrow> 'd result) \<Rightarrow> 'd \<Rightarrow> string \<Rightarrow> 'f \<Rightarrow> 'd result" where
  "load_file os what decode blank path f =
     (case os_ReadFile os f path of
        Missing \<Rightarrow> Inr blank
      | Unreadable e \<Rightarrow> Inl (Wrapf (''read '' @ what @ '' file: %w'') [] e)
      | Content Empty_File \<Rightarrow> Inr blank
      | Content Broken_File \<Rightarrow> Inl (Wrapf (''decode '' @ what @ '' file: %w'') [] (Foreign ''invalid character''))
      | Content (Json_File j) \<Rightarrow>
          (case decode j of
             Inl e \<Rightarrow> Inl (Wrapf (''decode '' @ what @ '' file: %w'') [] e)
           | Inr d \<Rightarrow> Inr d))"

text \<open>The file is replaced as a whole or not at all, and an error means not at all.\<close>

lemma replace_file_effect:
  assumes "os_laws os" "replace_file os what path encoded f = (e, f')"
  shows "e = None \<Longrightarrow> \<exists>j. encoded = Inr j \<and> os_ReadFile os f' path = Content (Json_File j)"
    and "e \<noteq> None \<Longrightarrow> os_ReadFile os f' path = os_ReadFile os f path"
proof -
  obtain e1 f1 where mkdir: "os_MkdirAll os f (os_Dir os path) = (e1, f1)" by fastforce
  have laws: "os_ReadFile os f' path = os_ReadFile os f path"
      if "os_MkdirAll os f (os_Dir os path) = (e, f')" for f e f'
    using assms(1) that unfolding os_laws_def by blast
  have tmp: "os_ReadFile os f' path = os_ReadFile os f path" "e = None \<Longrightarrow> os_ReadFile os f' (tmpPath path) = Content c"
      if "os_WriteFile os f (tmpPath path) c = (e, f')" for f e f' c
    using assms(1) that unfolding os_laws_def by blast+
  have move: "os_ReadFile os f' path = (if e = None then os_ReadFile os f (tmpPath path) else os_ReadFile os f path)"
      if "os_Rename os f (tmpPath path) path = (e, f')" for f e f'
    using assms(1) that unfolding os_laws_def by blast
  have "(e = None \<longrightarrow> (\<exists>j. encoded = Inr j \<and> os_ReadFile os f' path = Content (Json_File j))) \<and>
      (e \<noteq> None \<longrightarrow> os_ReadFile os f' path = os_ReadFile os f path)"
  proof (cases "e1 = None \<and> (\<exists>j. encoded = Inr j)")
    case False
    then show ?thesis using assms(2) mkdir laws [OF mkdir]
      by (auto simp: replace_file_def split: option.splits sum.splits)
  next
    case True
    then obtain j where j: "encoded = Inr j" by blast
    obtain e2 f2 where write_tmp: "os_WriteFile os f1 (tmpPath path) (Json_File j) = (e2, f2)" by fastforce
    obtain e3 f3 where rename: "os_Rename os f2 (tmpPath path) path = (e3, f3)" by fastforce
    show ?thesis
      using assms(2) mkdir True j write_tmp rename laws [OF mkdir] tmp [OF write_tmp] move [OF rename]
      by (auto simp: replace_file_def split: option.splits if_splits)
  qed
  then show "e = None \<Longrightarrow> \<exists>j. encoded = Inr j \<and> os_ReadFile os f' path = Content (Json_File j)"
    "e \<noteq> None \<Longrightarrow> os_ReadFile os f' path = os_ReadFile os f path" by blast+
qed

text \<open>A successful save can be loaded again.\<close>

lemma replace_load:
  assumes "os_laws os" "replace_file os what path (enc d) f = (None, f')" "reads_back enc dec d d'"
  shows "load_file os what' dec blank path f' = Inr d'"
proof -
  obtain j where "enc d = Inr j" "os_ReadFile os f' path = Content (Json_File j)"
    using replace_file_effect(1) [OF assms(1,2)] by blast
  then show ?thesis using assms(3) by (simp add: load_file_def reads_back_def)
qed

text \<open>A file system that keeps the files in a list and never fails, and one without space left.\<close>

definition disk_os :: "(string, file_content) gomap go_os" where
  "disk_os = \<lparr>
     os_ReadFile = (\<lambda>f p. case map_of f p of None \<Rightarrow> Missing | Some c \<Rightarrow> Content c),
     os_MkdirAll = (\<lambda>f d. (None, f)),
     os_WriteFile = (\<lambda>f p c. (None, AList.update p c f)),
     os_Rename = (\<lambda>f p q. case map_of f p of
        None \<Rightarrow> (Some (Foreign ''no such file''), f)
      | Some c \<Rightarrow> (None, AList.delete p (AList.update q c f))),
     os_Dir = (\<lambda>p. p)\<rparr>"

definition full_os :: "(string, file_content) gomap go_os" where
  "full_os = disk_os\<lparr>os_WriteFile := (\<lambda>f p c. (Some (Foreign ''no space left on device''), f))\<rparr>"

lemma disk_os_laws: "os_laws disk_os" "os_laws full_os"
  by (auto simp: os_laws_def disk_os_def full_os_def tmpPath_def split: option.splits)

end
