(* ===== verification/Json_Identity.thy ===== *)
theory Json_Identity
  imports Json_Files
begin

text \<open>
  The identity provider of \<open>jsonstore/identity_provider.go\<close>: groups and teams as in the in-memory
  provider, read from a file and written back to it. The type \<open>Entry\<close> of the package is declared
  as in package \<open>inmemory\<close> and is the record \<open>team_entry\<close> here.
\<close>

section \<open>Data\<close>

record identity_data =
  id_UserGroups :: "(string, string list) gomap"
  id_TeamMembership :: "(string, team_entry list) gomap"

definition emptyIdentityData :: identity_data where
  "emptyIdentityData = \<lparr>id_UserGroups = [], id_TeamMembership = []\<rparr>"

text \<open>\<open>for k, v := range m { cloned[k] = f(v) }\<close> into a fresh map.\<close>

definition clone_map :: "('a \<Rightarrow> 'b) \<Rightarrow> (string, 'a) gomap \<Rightarrow> (string, 'b) gomap" where
  "clone_map f m = copy_map (map (\<lambda>(k, v). (k, f v)) m)"

lemma clone_map_eq: "wf_gomap m \<Longrightarrow> clone_map f m = map (\<lambda>(k, v). (k, f v)) m"
  by (simp add: clone_map_def)

lemma wf_clone_map [simp]: "wf_gomap (clone_map f m)"
  by (simp add: clone_map_def)

text \<open>The copy that is saved has the groups only.\<close>

definition cloneIdentityData :: "identity_data \<Rightarrow> identity_data" where
  "cloneIdentityData d = emptyIdentityData\<lparr>id_UserGroups := clone_map (\<lambda>groups. groups) (id_UserGroups d)\<rparr>"

definition encode_entry :: "team_entry \<Rightarrow> json result" where
  "encode_entry e = encode_struct [(''ID'', encode_string (te_ID e)), (''Kind'', encode_string (te_Kind e))]"

text \<open>\<open>TeamMembership\<close> is never made by the package, so without entries it is nil.\<close>

definition encode_teams :: "(string, team_entry list) gomap \<Rightarrow> json result" where
  "encode_teams m = (if m = [] then Inr JNull else encode_map (encode_slice encode_entry) m)"

definition encode_identity_data :: "identity_data \<Rightarrow> json result" where
  "encode_identity_data d = encode_struct [
     (''user_groups'', encode_map (encode_slice encode_string) (id_UserGroups d)),
     (''team_membership'', encode_teams (id_TeamMembership d))]"

definition decode_identity_data :: "json \<Rightarrow> identity_data result" where
  "decode_identity_data j =
     attempt (struct_members j) (\<lambda>ms.
     attempt (decode_field ms ''user_groups'' (decode_map (decode_slice decode_string))) (\<lambda>us.
     attempt (decode_field ms ''team_membership'' (decode_map (decode_slice decode_entry))) (\<lambda>ts.
     Inr \<lparr>id_UserGroups = us, id_TeamMembership = ts\<rparr>)))"

section \<open>Queries\<close>

definition json_GetUserGroups :: "identity_data \<Rightarrow> string \<Rightarrow> string list result" where
  "json_GetUserGroups d userID = Inr (lookup_set (id_UserGroups d) userID)"

definition json_GetGroupMembers :: "identity_data \<Rightarrow> string \<Rightarrow> string list result" where
  "json_GetGroupMembers d groupID =
     Inr (map fst (filter (\<lambda>(userID, groups). list_ex (\<lambda>candidate. candidate = groupID) groups) (id_UserGroups d)))"

definition json_IsUserInGroup :: "identity_data \<Rightarrow> string \<Rightarrow> string \<Rightarrow> bool result" where
  "json_IsUserInGroup d userID groupID =
     Inr (list_ex (\<lambda>candidate. candidate = groupID) (lookup_set (id_UserGroups d) userID))"

definition json_entry_matches :: "identity_data \<Rightarrow> string \<Rightarrow> team_entry \<Rightarrow> bool" where
  "json_entry_matches d userID entry =
     (if te_ID entry = userID \<and> te_Kind entry = UserMemberKind then True
      else if te_Kind entry = GroupMemberKind
        then (case json_IsUserInGroup d userID (te_ID entry) of Inl _ \<Rightarrow> False | Inr inGroup \<Rightarrow> inGroup)
      else False)"

definition json_GetUserTeams :: "identity_data \<Rightarrow> string \<Rightarrow> string list result" where
  "json_GetUserTeams d userID =
     Inr (concat (map (\<lambda>(teamID, entries). map (\<lambda>_. teamID) (filter (json_entry_matches d userID) entries))
       (id_TeamMembership d)))"

definition json_IsUserInTeam :: "identity_data \<Rightarrow> string \<Rightarrow> string \<Rightarrow> bool result" where
  "json_IsUserInTeam d userID teamID = attempt (json_GetUserTeams d userID) (\<lambda>teams. Inr (teamID \<in> set teams))"

definition json_members :: "identity_data \<Rightarrow> identity_provider" where
  "json_members d = \<lparr>ip_GetUserGroups = json_GetUserGroups d, ip_GetUserTeams = json_GetUserTeams d,
     ip_GetGroupMembers = json_GetGroupMembers d, ip_IsUserInGroup = json_IsUserInGroup d,
     ip_IsUserInTeam = json_IsUserInTeam d\<rparr>"

text \<open>Both packages answer the same data alike, so the contract carries over.\<close>

definition as_inmemory :: "identity_data \<Rightarrow> inmemory_identity" where
  "as_inmemory d = \<lparr>ii_userGroups = id_UserGroups d, ii_TeamMembership = id_TeamMembership d\<rparr>"

lemma json_members_eq: "json_members d = inmemory_provider (as_inmemory d)"
proof -
  have groups: "json_IsUserInGroup d = IsUserInGroup (as_inmemory d)"
    by (simp add: json_IsUserInGroup_def IsUserInGroup_def as_inmemory_def fun_eq_iff)
  then have entry: "json_entry_matches d = entry_matches (as_inmemory d)"
    by (simp add: json_entry_matches_def entry_matches_def fun_eq_iff)
  have "ii_TeamMembership (as_inmemory d) = id_TeamMembership d" by (simp add: as_inmemory_def)
  then have teams: "json_GetUserTeams d = GetUserTeams (as_inmemory d)"
    by (intro ext) (simp only: json_GetUserTeams_def GetUserTeams_def entry)
  then have "json_IsUserInTeam d = IsUserInTeam (as_inmemory d)"
    by (simp add: json_IsUserInTeam_def IsUserInTeam_def fun_eq_iff)
  with groups teams show ?thesis
    by (simp add: json_members_def inmemory_provider_def json_GetUserGroups_def GetUserGroups_def
        json_GetGroupMembers_def GetGroupMembers_def fun_eq_iff as_inmemory_def)
qed

definition wf_identity_data :: "identity_data \<Rightarrow> bool" where
  "wf_identity_data d \<longleftrightarrow> wf_gomap (id_UserGroups d)"

interpretation json_membership: membership json_members wf_identity_data
proof
  fix d u g
  assume "wf_identity_data d"
  then have "wf_identity (as_inmemory d)" by (simp add: wf_identity_data_def wf_identity_def as_inmemory_def)
  from inmemory_members.group_queries [OF this, of u g] show "\<exists>gs b ms. ip_GetUserGroups (json_members d) u = Inr gs \<and>
      ip_IsUserInGroup (json_members d) u g = Inr b \<and> ip_GetGroupMembers (json_members d) g = Inr ms \<and>
      (b \<longleftrightarrow> g \<in> set gs) \<and> (b \<longleftrightarrow> u \<in> set ms)"
    by (simp add: json_members_eq)
next
  fix d u t
  assume "wf_identity_data d"
  then have "wf_identity (as_inmemory d)" by (simp add: wf_identity_data_def wf_identity_def as_inmemory_def)
  from inmemory_members.team_queries [OF this, of u t] show "\<exists>ts b. ip_GetUserTeams (json_members d) u = Inr ts \<and>
      ip_IsUserInTeam (json_members d) u t = Inr b \<and> (b \<longleftrightarrow> t \<in> set ts)"
    by (simp add: json_members_eq)
qed

section \<open>The provider on its file\<close>

record 'f json_identity =
  ji_path :: string
  ji_data :: identity_data
  ji_files :: 'f

definition json_identity_Load :: "'f go_os \<Rightarrow> 'f json_identity \<Rightarrow> 'f json_identity update" where
  "json_identity_Load os p =
     (case load_file os ''identity'' decode_identity_data emptyIdentityData (ji_path p) (ji_files p) of
        Inl e \<Rightarrow> (Some e, p)
      | Inr d \<Rightarrow> (None, p\<lparr>ji_data := d\<rparr>))"

definition json_NewIdentityProvider :: "'f go_os \<Rightarrow> 'f \<Rightarrow> string \<Rightarrow> 'f json_identity result" where
  "json_NewIdentityProvider os f path =
     (if path = '''' then Inl (Errorf ''path is required'' [])
      else case json_identity_Load os \<lparr>ji_path = path, ji_data = emptyIdentityData, ji_files = f\<rparr> of
             (Some e, p) \<Rightarrow> Inl e
           | (None, p) \<Rightarrow> Inr p)"

definition json_identity_Save :: "'f go_os \<Rightarrow> 'f json_identity \<Rightarrow> 'f json_identity update" where
  "json_identity_Save os p = map_prod id (\<lambda>f. p\<lparr>ji_files := f\<rparr>)
     (replace_file os ''identity'' (ji_path p) (encode_identity_data (cloneIdentityData (ji_data p))) (ji_files p))"

definition json_SetUserGroups :: "'f go_os \<Rightarrow> 'f json_identity \<Rightarrow> string \<Rightarrow> string list \<Rightarrow> 'f json_identity update" where
  "json_SetUserGroups os p userID groupIDs = json_identity_Save os
     (p\<lparr>ji_data := (ji_data p)\<lparr>id_UserGroups := AList.update userID groupIDs (id_UserGroups (ji_data p))\<rparr>\<rparr>)"

end
