(* ===== verification/Json_Store.thy ===== *)
theory Json_Store
  imports Json_Identity Inmemory_Store
begin

text \<open>
  The store of \<open>jsonstore/store.go\<close>: all data in memory, written to a file after every change. A
  write changes the data first and then saves; an error of the save is returned, but the data stay
  changed. Roles are not stored, and variable scopes are compared as plain text.

  As nil and empty maps are the same association list, \<open>normalizeData\<close> is the identity and does not
  appear. Data that a caller keeps a reference to after \<open>SetData\<close> are outside the model.
\<close>

section \<open>Data\<close>

record json_data =
  jd_UserGroups :: "(string, string list) gomap"
  jd_TeamMembership :: "(string, team_entry list) gomap"
  jd_UserRoleAssignments :: "(string, role_assignment list) gomap"
  jd_GroupRoleAssignments :: "(string, role_assignment list) gomap"
  jd_TeamRoleAssignments :: "(string, role_assignment list) gomap"
  jd_RoleInheritance :: role_sets
  jd_RoleExpansion :: role_sets
  jd_Grants :: "grant list"

record 'f json_store =
  js_path :: string
  js_data :: json_data
  js_files :: 'f

definition emptyData :: json_data where
  "emptyData = \<lparr>jd_UserGroups = [], jd_TeamMembership = [], jd_UserRoleAssignments = [],
     jd_GroupRoleAssignments = [], jd_TeamRoleAssignments = [], jd_RoleInheritance = [], jd_RoleExpansion = [],
     jd_Grants = []\<rparr>"

definition json_cloneGrant :: "grant \<Rightarrow> grant" where
  "json_cloneGrant g = g\<lparr>gr_ObjectScope := gr_ObjectScope g, gr_ExpiresAt := gr_ExpiresAt g,
     gr_RestrictedFields := gr_RestrictedFields g,
     gr_VariableSpec := Some (copy_map (case gr_VariableSpec g of None \<Rightarrow> [] | Some m \<Rightarrow> m))\<rparr>"

definition json_cloneRoleAssignments :: "role_assignment list \<Rightarrow> role_assignment list" where
  "json_cloneRoleAssignments as =
     map (\<lambda>a. \<lparr>ra_RoleID = ra_RoleID a, ra_BindingValues = copy_map (ra_BindingValues a)\<rparr>) as"

definition json_cloneRoleAssignmentHits :: "role_assignment_hit list \<Rightarrow> role_assignment_hit list" where
  "json_cloneRoleAssignmentHits hs =
     map (\<lambda>h. \<lparr>rh_RoleID = rh_RoleID h, rh_BindingValues = copy_map (rh_BindingValues h), rh_Principal = rh_Principal h\<rparr>) hs"

text \<open>The team membership is not copied, so it is missing from every saved file and snapshot.\<close>

definition cloneData :: "json_data \<Rightarrow> json_data" where
  "cloneData d = emptyData\<lparr>
     jd_UserGroups := clone_map (\<lambda>groups. groups) (jd_UserGroups d),
     jd_UserRoleAssignments := clone_map json_cloneRoleAssignments (jd_UserRoleAssignments d),
     jd_GroupRoleAssignments := clone_map json_cloneRoleAssignments (jd_GroupRoleAssignments d),
     jd_TeamRoleAssignments := clone_map json_cloneRoleAssignments (jd_TeamRoleAssignments d),
     jd_RoleInheritance := clone_map (\<lambda>children. children) (jd_RoleInheritance d),
     jd_RoleExpansion := clone_map (\<lambda>children. children) (jd_RoleExpansion d),
     jd_Grants := map json_cloneGrant (jd_Grants d)\<rparr>"

section \<open>Files\<close>

definition encode_assignments :: "json_codec \<Rightarrow> (string, role_assignment list) gomap \<Rightarrow> json result" where
  "encode_assignments c = encode_map (encode_slice (encode_assignment c))"

definition decode_assignments :: "json_codec \<Rightarrow> json \<Rightarrow> (string, role_assignment list) gomap result" where
  "decode_assignments c = decode_map (decode_slice (decode_assignment c))"

definition encode_data :: "json_codec \<Rightarrow> json_data \<Rightarrow> json result" where
  "encode_data c d = encode_struct [
     (''user_groups'', encode_map (encode_slice encode_string) (jd_UserGroups d)),
     (''team_membership'', encode_teams (jd_TeamMembership d)),
     (''user_role_assignments'', encode_assignments c (jd_UserRoleAssignments d)),
     (''group_role_assignments'', encode_assignments c (jd_GroupRoleAssignments d)),
     (''team_role_assignments'', encode_assignments c (jd_TeamRoleAssignments d)),
     (''role_inheritance'', encode_map (encode_slice encode_string) (jd_RoleInheritance d)),
     (''role_expansion'', encode_map (encode_slice encode_string) (jd_RoleExpansion d)),
     (''grants'', encode_array (encode_grant c) (jd_Grants d))]"

definition decode_data :: "json_codec \<Rightarrow> json \<Rightarrow> json_data result" where
  "decode_data c j =
     attempt (struct_members j) (\<lambda>ms.
     attempt (decode_field ms ''user_groups'' (decode_map (decode_slice decode_string))) (\<lambda>ug.
     attempt (decode_field ms ''team_membership'' (decode_map (decode_slice decode_entry))) (\<lambda>tm.
     attempt (decode_field ms ''user_role_assignments'' (decode_assignments c)) (\<lambda>ua.
     attempt (decode_field ms ''group_role_assignments'' (decode_assignments c)) (\<lambda>ga.
     attempt (decode_field ms ''team_role_assignments'' (decode_assignments c)) (\<lambda>ta.
     attempt (decode_field ms ''role_inheritance'' (decode_map (decode_slice decode_string))) (\<lambda>ri.
     attempt (decode_field ms ''role_expansion'' (decode_map (decode_slice decode_string))) (\<lambda>re.
     attempt (decode_field ms ''grants'' (decode_slice (decode_grant c))) (\<lambda>gs.
     Inr \<lparr>jd_UserGroups = ug, jd_TeamMembership = tm, jd_UserRoleAssignments = ua, jd_GroupRoleAssignments = ga,
       jd_TeamRoleAssignments = ta, jd_RoleInheritance = ri, jd_RoleExpansion = re, jd_Grants = gs\<rparr>)))))))))"

definition json_Load :: "json_codec \<Rightarrow> 'f go_os \<Rightarrow> 'f json_store \<Rightarrow> 'f json_store update" where
  "json_Load c os s =
     (case load_file os ''store'' (decode_data c) emptyData (js_path s) (js_files s) of
        Inl e \<Rightarrow> (Some e, s)
      | Inr d \<Rightarrow> (None, s\<lparr>js_data := d\<rparr>))"

definition json_NewStore :: "json_codec \<Rightarrow> 'f go_os \<Rightarrow> 'f \<Rightarrow> string \<Rightarrow> 'f json_store result" where
  "json_NewStore c os f path =
     (if path = '''' then Inl (Errorf ''path is required'' [])
      else case json_Load c os \<lparr>js_path = path, js_data = emptyData, js_files = f\<rparr> of
             (Some e, s) \<Rightarrow> Inl e
           | (None, s) \<Rightarrow> Inr s)"

text \<open>\<open>Save\<close> copies the data under the read lock and writes the copy after releasing it.\<close>

definition write_data :: "json_codec \<Rightarrow> 'f go_os \<Rightarrow> json_data \<Rightarrow> 'f json_store \<Rightarrow> 'f json_store update" where
  "write_data c os d s =
     map_prod id (\<lambda>f. s\<lparr>js_files := f\<rparr>) (replace_file os ''store'' (js_path s) (encode_data c d) (js_files s))"

definition json_Save :: "json_codec \<Rightarrow> 'f go_os \<Rightarrow> 'f json_store \<Rightarrow> 'f json_store update" where
  "json_Save c os s = write_data c os (cloneData (js_data s)) s"

definition Snapshot :: "'f json_store \<Rightarrow> json_data" where
  "Snapshot s = cloneData (js_data s)"

definition SetData :: "json_codec \<Rightarrow> 'f go_os \<Rightarrow> json_data \<Rightarrow> 'f json_store \<Rightarrow> 'f json_store update" where
  "SetData c os d s = json_Save c os (s\<lparr>js_data := d\<rparr>)"

section \<open>Grants and assignments\<close>

definition json_CreateGrant :: "json_codec \<Rightarrow> 'f go_os \<Rightarrow> 'f json_store \<Rightarrow> grant \<Rightarrow> 'f json_store update" where
  "json_CreateGrant c os s g =
     json_Save c os (s\<lparr>js_data := (js_data s)\<lparr>jd_Grants := jd_Grants (js_data s) @ [json_cloneGrant g]\<rparr>\<rparr>)"

definition json_DeleteGrantsForOwner ::
  "json_codec \<Rightarrow> 'f go_os \<Rightarrow> 'f json_store \<Rightarrow> principal_kind \<Rightarrow> string \<Rightarrow> 'f json_store update" where
  "json_DeleteGrantsForOwner c os s ownerKind ownerID =
     json_Save c os (s\<lparr>js_data := (js_data s)\<lparr>jd_Grants :=
       filter (\<lambda>g. \<not> (gr_OwnerKind g = ownerKind \<and> gr_OwnerID g = ownerID)) (jd_Grants (js_data s))\<rparr>\<rparr>)"

text \<open>The change of the map of the principal's kind; \<open>None\<close> for any other kind.\<close>

definition update_assignments ::
  "((string, role_assignment list) gomap \<Rightarrow> (string, role_assignment list) gomap) \<Rightarrow> principal_kind \<Rightarrow>
   json_data \<Rightarrow> json_data option" where
  "update_assignments f kind d =
     (if kind = PrincipalUser then Some (d\<lparr>jd_UserRoleAssignments := f (jd_UserRoleAssignments d)\<rparr>)
      else if kind = PrincipalGroup then Some (d\<lparr>jd_GroupRoleAssignments := f (jd_GroupRoleAssignments d)\<rparr>)
      else if kind = PrincipalTeam then Some (d\<lparr>jd_TeamRoleAssignments := f (jd_TeamRoleAssignments d)\<rparr>)
      else None)"

definition change_assignments ::
  "json_codec \<Rightarrow> 'f go_os \<Rightarrow> 'f json_store \<Rightarrow> principal_ref \<Rightarrow> string \<Rightarrow>
   ((string, role_assignment list) gomap \<Rightarrow> (string, role_assignment list) gomap) \<Rightarrow> 'f json_store update" where
  "change_assignments c os s who roleID f =
     (case PrincipalRef_Validate who of
        Some e \<Rightarrow> (Some e, s)
      | None \<Rightarrow>
          if roleID = '''' then (Some (Errorf ''role ID is required'' []), s)
          else case update_assignments f (pr_Kind who) (js_data s) of
                 None \<Rightarrow> (Some (Errorf ''role assignments support only user, group, or team principals'' []), s)
               | Some d \<Rightarrow> json_Save c os (s\<lparr>js_data := d\<rparr>))"

definition json_AssignRole ::
  "json_codec \<Rightarrow> 'f go_os \<Rightarrow> 'f json_store \<Rightarrow> principal_ref \<Rightarrow> string \<Rightarrow> role list \<Rightarrow> bindings \<Rightarrow> 'f json_store update" where
  "json_AssignRole c os s who roleID builtIns bindingValues =
     change_assignments c os s who roleID
       (add_assignments (pr_ID who) [\<lparr>ra_RoleID = roleID, ra_BindingValues = copy_map bindingValues\<rparr>])"

definition json_UnassignRole ::
  "json_codec \<Rightarrow> 'f go_os \<Rightarrow> 'f json_store \<Rightarrow> principal_ref \<Rightarrow> string \<Rightarrow> role list \<Rightarrow> bindings \<Rightarrow> 'f json_store update" where
  "json_UnassignRole c os s who roleID builtIns bindingValues =
     change_assignments c os s who roleID (remove_assignment (pr_ID who) roleID bindingValues)"

definition assignments_of_kind :: "principal_kind \<Rightarrow> json_data \<Rightarrow> (string, role_assignment list) gomap" where
  "assignments_of_kind kind d =
     (if kind = PrincipalUser then jd_UserRoleAssignments d
      else if kind = PrincipalGroup then jd_GroupRoleAssignments d
      else if kind = PrincipalTeam then jd_TeamRoleAssignments d
      else [])"

definition json_RoleAssignmentsForPrincipal :: "'f json_store \<Rightarrow> principal_ref \<Rightarrow> role_assignment list result" where
  "json_RoleAssignmentsForPrincipal s who =
     Inr (json_cloneRoleAssignments (lookup_set (assignments_of_kind (pr_Kind who) (js_data s)) (pr_ID who)))"

definition json_RoleAssignmentsForRoleID :: "'f json_store \<Rightarrow> string \<Rightarrow> role_assignment_hit list result" where
  "json_RoleAssignmentsForRoleID s roleID =
     Inr (json_cloneRoleAssignmentHits
       (hits_of_kind PrincipalUser roleID (jd_UserRoleAssignments (js_data s)) @
        hits_of_kind PrincipalGroup roleID (jd_GroupRoleAssignments (js_data s)) @
        hits_of_kind PrincipalTeam roleID (jd_TeamRoleAssignments (js_data s))))"

definition ListRoleAssignmentsForUserAndGroups ::
  "'f json_store \<Rightarrow> string \<Rightarrow> string list \<Rightarrow> role_assignment list result" where
  "ListRoleAssignmentsForUserAndGroups s userID groupIDs =
     Inr (json_cloneRoleAssignments (lookup_set (jd_UserRoleAssignments (js_data s)) userID) @
       concat (map (\<lambda>groupID. json_cloneRoleAssignments (lookup_set (jd_GroupRoleAssignments (js_data s)) groupID)) groupIDs))"

text \<open>Every group that the store knows, each once.\<close>

definition ListKnownGroupIDs :: "'f json_store \<Rightarrow> string list result" where
  "ListKnownGroupIDs s =
     Inr (fold push_new (concat (map snd (jd_UserGroups (js_data s))))
       (fold push_new (map gr_OwnerID (filter (\<lambda>g. gr_OwnerKind g = PrincipalGroup) (jd_Grants (js_data s))))
         (fold push_new (map fst (jd_GroupRoleAssignments (js_data s))) [])))"

text \<open>Where a scope names a team or an object, the request must name the same one.\<close>

definition json_request_matches :: "time \<Rightarrow> request \<Rightarrow> grant \<Rightarrow> bool" where
  "json_request_matches now req g \<longleftrightarrow>
     IsActiveAt g now \<and> \<not> (rq_Perm req \<noteq> '''' \<and> gr_PermissionName g \<noteq> rq_Perm req) \<and>
     \<not> (if rq_TeamID req \<noteq> '''' then gr_TeamScope g \<noteq> ''*'' \<and> gr_TeamScope g \<noteq> rq_TeamID req
        else gr_TeamScope g \<noteq> ''*'') \<and>
     \<not> (case gr_ObjectScope g of None \<Rightarrow> False | Some os \<Rightarrow> os \<noteq> ''*'' \<and> os \<noteq> rq_Object req)"

definition ListGrantsForOwners :: "time \<Rightarrow> 'f json_store \<Rightarrow> principal_ref list \<Rightarrow> request \<Rightarrow> grant list result" where
  "ListGrantsForOwners now s owners req =
     (let ownerSet = (\<lambda>owner. pr_Kind owner @ '':'' @ pr_ID owner) ` set owners in
      Inr (map json_cloneGrant (filter (\<lambda>g. json_request_matches now req g
        \<and> gr_OwnerKind g @ '':'' @ gr_OwnerID g \<in> ownerSet) (jd_Grants (js_data s)))))"

definition json_GrantsForOwners :: "time \<Rightarrow> 'f json_store \<Rightarrow> principal_ref list \<Rightarrow> request \<Rightarrow> grant list result" where
  "json_GrantsForOwners now s owners req = ListGrantsForOwners now s owners req"

definition json_GrantsForPrincipal :: "time \<Rightarrow> 'f json_store \<Rightarrow> principal_ref \<Rightarrow> grant list result" where
  "json_GrantsForPrincipal now s who = ListGrantsForOwners now s [who] zero_request"

definition ListPrincipalsWithGrant :: "time \<Rightarrow> 'f json_store \<Rightarrow> request \<Rightarrow> principal_hit list result" where
  "ListPrincipalsWithGrant now s req =
     (let (denied, allowed) = fold (\<lambda>g acc. if json_request_matches now req g then principal_hit_step g acc else acc)
            (jd_Grants (js_data s)) ({}, [])
      in Inr (map snd allowed))"

definition json_PrincipalsWithGrant :: "time \<Rightarrow> 'f json_store \<Rightarrow> request \<Rightarrow> principal_hit list result" where
  "json_PrincipalsWithGrant now s req = ListPrincipalsWithGrant now s req"

definition json_ListGrants :: "'f json_store \<Rightarrow> grant_query \<Rightarrow> grant_query_result result" where
  "json_ListGrants s query = list_grants (map json_cloneGrant (jd_Grants (js_data s))) query"

section \<open>Roles\<close>

definition json_AddRoleInheritance ::
  "json_codec \<Rightarrow> 'f go_os \<Rightarrow> 'f json_store \<Rightarrow> string \<Rightarrow> string \<Rightarrow> 'f json_store update" where
  "json_AddRoleInheritance c os s parent child =
     (if parent = '''' then (Some (Errorf ''parent role ID is required'' []), s)
      else if child = '''' then (Some (Errorf ''child role ID is required'' []), s)
      else if parent = child then (Some (Errorf ''a role cannot inherit itself'' []), s)
      else
        let children = lookup_set (jd_RoleInheritance (js_data s)) parent in
        if child \<in> set children then (None, s)
        else json_Save c os (s\<lparr>js_data := (js_data s)\<lparr>jd_RoleInheritance :=
               AList.update parent (children @ [child]) (jd_RoleInheritance (js_data s))\<rparr>\<rparr>))"

text \<open>The breadth-first walk over both maps. The visited roles are the expanded ones.\<close>

function transitiveExpand :: "role_sets \<Rightarrow> role_sets \<Rightarrow> string list \<Rightarrow> string list \<Rightarrow> string list" where
  "transitiveExpand inh legacy [] expanded = expanded"
| "transitiveExpand inh legacy (current # queue) expanded =
     (if current \<in> set expanded then transitiveExpand inh legacy queue expanded
      else
        let expanded' = expanded @ [current]; new = filter (\<lambda>child. child \<notin> set expanded') in
        transitiveExpand inh legacy
          (queue @ new (lookup_set inh current) @ new (lookup_set legacy current)) expanded')"
  by pat_completeness auto

definition parents :: "role_sets \<Rightarrow> role_sets \<Rightarrow> string set" where
  "parents inh legacy = fst ` set inh \<union> fst ` set legacy"

lemma no_parent: "r \<notin> parents inh legacy \<Longrightarrow> lookup_set inh r = [] \<and> lookup_set legacy r = []"
  by (simp add: parents_def lookup_not_dom dom_map_of_conv_image_fst)

text \<open>Every step visits a new parent or shortens the queue.\<close>

termination transitiveExpand
proof (relation "measures [\<lambda>(inh, legacy, queue, expanded). card (parents inh legacy - set expanded),
    \<lambda>(inh, legacy, queue, expanded). length queue]", goal_cases)
  case (3 inh legacy current queue expanded expanded' new)
  have finite: "finite (parents inh legacy)" by (simp add: parents_def)
  show ?case
  proof (cases "current \<in> parents inh legacy")
    case True
    then have "parents inh legacy - set expanded' \<subset> parents inh legacy - set expanded" using 3 by auto
    then have "card (parents inh legacy - set expanded') < card (parents inh legacy - set expanded)"
      using finite by (intro psubset_card_mono) auto
    then show ?thesis by simp
  next
    case False
    then have "parents inh legacy - set expanded' = parents inh legacy - set expanded" using 3 by auto
    with no_parent [OF False] 3 show ?thesis by simp
  qed
qed auto

definition ListExpandedRoleIDs :: "'f json_store \<Rightarrow> string list \<Rightarrow> string list result" where
  "ListExpandedRoleIDs s roleIDs =
     Inr (transitiveExpand (jd_RoleInheritance (js_data s)) (jd_RoleExpansion (js_data s)) roleIDs [])"

definition json_ExpandRoles :: "'f json_store \<Rightarrow> string list \<Rightarrow> string list result" where
  "json_ExpandRoles s roleIDs = ListExpandedRoleIDs s roleIDs"

definition json_RoleDefinitions :: "'f json_store \<Rightarrow> role list result" where
  "json_RoleDefinitions s = Inr []"

definition json_RoleDefinition :: "'f json_store \<Rightarrow> string \<Rightarrow> role result" where
  "json_RoleDefinition s roleID =
     (if roleID = '''' then Inl (Errorf ''role ID is required'' [])
      else Inr (zero_role\<lparr>ro_ID := roleID, ro_Name := roleID\<rparr>))"

text \<open>The writes of roles and of the switches of built-in roles do nothing.\<close>

definition json_CreateRole :: "'f json_store \<Rightarrow> role \<Rightarrow> 'f json_store update" where
  "json_CreateRole s r = (None, s)"

definition json_UpdateRole :: "'f json_store \<Rightarrow> role \<Rightarrow> 'f json_store update" where
  "json_UpdateRole s r = (None, s)"

definition json_DeleteRole :: "'f json_store \<Rightarrow> string \<Rightarrow> 'f json_store update" where
  "json_DeleteRole s r = (None, s)"

definition json_DisableBuiltInRole :: "'f json_store \<Rightarrow> string \<Rightarrow> 'f json_store update" where
  "json_DisableBuiltInRole s r = (None, s)"

definition json_EnableBuiltInRole :: "'f json_store \<Rightarrow> string \<Rightarrow> 'f json_store update" where
  "json_EnableBuiltInRole s r = (None, s)"

definition json_DisabledBuiltInRoles :: "'f json_store \<Rightarrow> string list result" where
  "json_DisabledBuiltInRoles s = Inr []"

section \<open>Method tables\<close>

definition json_ops :: "json_codec \<Rightarrow> 'f go_os \<Rightarrow> 'f json_store store_ops" where
  "json_ops c os = \<lparr>
     op_RoleDefinitions = json_RoleDefinitions,
     op_RoleDefinition = json_RoleDefinition,
     op_CreateRole = json_CreateRole,
     op_UpdateRole = json_UpdateRole,
     op_DeleteRole = json_DeleteRole,
     op_AddRoleInheritance = json_AddRoleInheritance c os,
     op_RoleAssignmentsForPrincipal = json_RoleAssignmentsForPrincipal,
     op_RoleAssignmentsForRoleID = json_RoleAssignmentsForRoleID,
     op_AssignRole = json_AssignRole c os,
     op_UnassignRole = json_UnassignRole c os,
     op_GrantsForPrincipal = json_GrantsForPrincipal,
     op_GrantsForOwners = json_GrantsForOwners,
     op_CreateGrant = json_CreateGrant c os,
     op_PrincipalsWithGrant = json_PrincipalsWithGrant,
     op_ExpandRoles = json_ExpandRoles,
     op_DeleteGrantsForOwner = json_DeleteGrantsForOwner c os,
     op_DisableBuiltInRole = json_DisableBuiltInRole,
     op_EnableBuiltInRole = json_EnableBuiltInRole,
     op_DisabledBuiltInRoles = json_DisabledBuiltInRoles,
     op_ListGrants = json_ListGrants,
     op_BulkCreateGrants = None\<rparr>"

text \<open>The store also answers the queries of an identity provider, from its own data.\<close>

definition store_identity :: "'f json_store \<Rightarrow> identity_data" where
  "store_identity s = \<lparr>id_UserGroups = jd_UserGroups (js_data s), id_TeamMembership = jd_TeamMembership (js_data s)\<rparr>"

definition store_GetUserGroups :: "'f json_store \<Rightarrow> string \<Rightarrow> string list result" where
  "store_GetUserGroups s = json_GetUserGroups (store_identity s)"

definition store_GetGroupMembers :: "'f json_store \<Rightarrow> string \<Rightarrow> string list result" where
  "store_GetGroupMembers s = json_GetGroupMembers (store_identity s)"

definition store_IsUserInGroup :: "'f json_store \<Rightarrow> string \<Rightarrow> string \<Rightarrow> bool result" where
  "store_IsUserInGroup s = json_IsUserInGroup (store_identity s)"

definition store_GetUserTeams :: "'f json_store \<Rightarrow> string \<Rightarrow> string list result" where
  "store_GetUserTeams s = json_GetUserTeams (store_identity s)"

definition store_IsUserInTeam :: "'f json_store \<Rightarrow> string \<Rightarrow> string \<Rightarrow> bool result" where
  "store_IsUserInTeam s = json_IsUserInTeam (store_identity s)"

section \<open>What a save changes\<close>

lemma write_data_iff:
  "write_data c os d s = (e, s') \<longleftrightarrow>
     (\<exists>f. replace_file os ''store'' (js_path s) (encode_data c d) (js_files s) = (e, f) \<and> s' = s\<lparr>js_files := f\<rparr>)"
  by (cases "replace_file os ''store'' (js_path s) (encode_data c d) (js_files s)") (auto simp: write_data_def)

lemma json_Save_data:
  assumes "json_Save c os s = (e, s')"
  shows "js_data s' = js_data s" "js_path s' = js_path s"
  using assms by (auto simp: json_Save_def write_data_iff)

section \<open>The store as a provider\<close>

lemma json_cloneGrant_simps [simp]:
  "gr_OwnerKind (json_cloneGrant g) = gr_OwnerKind g" "gr_OwnerID (json_cloneGrant g) = gr_OwnerID g"
  "gr_PermissionName (json_cloneGrant g) = gr_PermissionName g" "gr_TeamScope (json_cloneGrant g) = gr_TeamScope g"
  "gr_ObjectScope (json_cloneGrant g) = gr_ObjectScope g" "gr_ExpiresAt (json_cloneGrant g) = gr_ExpiresAt g"
  "gr_Effect (json_cloneGrant g) = gr_Effect g" "gr_RestrictedFields (json_cloneGrant g) = gr_RestrictedFields g"
  by (simp_all add: json_cloneGrant_def)

lemma json_cloneGrant_active [simp]: "IsActiveAt (json_cloneGrant g) now = IsActiveAt g now"
  by (simp add: IsActiveAt_def)

definition json_grants :: "'f json_store \<Rightarrow> grant list" where
  "json_grants s = map json_cloneGrant (jd_Grants (js_data s))"

lemma json_GrantsForOwners_iff:
  "json_GrantsForOwners now s owners req = Inr gs \<longleftrightarrow>
     gs = filter (\<lambda>g. json_request_matches now req g \<and> owned_by owners g) (json_grants s)"
proof -
  have "json_request_matches now req (json_cloneGrant g) = json_request_matches now req g"
    "owned_by owners (json_cloneGrant g) \<longleftrightarrow>
       gr_OwnerKind g @ '':'' @ gr_OwnerID g \<in> (\<lambda>owner. pr_Kind owner @ '':'' @ pr_ID owner) ` set owners" for g
    by (simp_all add: json_request_matches_def owned_by_def principalKey_def)
  then show ?thesis
    by (auto simp: json_GrantsForOwners_def ListGrantsForOwners_def Let_def json_grants_def filter_map comp_def)
qed

interpretation json: grant_reader "json_ops c os" json_grants "\<lambda>_. True" for c :: json_codec and os :: "'f go_os"
  by unfold_locales
    (auto simp: json_ops_def json_GrantsForOwners_iff json_request_matches_def perm_filter_def IsExpiredAt_def)

section \<open>Expansion\<close>

lemma closed_reach: "E `` A \<subseteq> A \<union> Q \<Longrightarrow> E\<^sup>* `` A \<subseteq> A \<union> E\<^sup>* `` Q"
proof
  fix x assume closed: "E `` A \<subseteq> A \<union> Q" and "x \<in> E\<^sup>* `` A"
  then obtain a where "(a, x) \<in> E\<^sup>*" "a \<in> A" by blast
  then show "x \<in> A \<union> E\<^sup>* `` Q"
  proof (induction rule: rtrancl_induct)
    case (step y z)
    then consider "y \<in> A" | q where "q \<in> Q" "(q, y) \<in> E\<^sup>*" by blast
    then show ?case
    proof cases
      case 1
      with closed step(2) show ?thesis by blast
    next
      case 2
      with step(2) show ?thesis by (meson ImageI UnI2 rtrancl.rtrancl_into_rtrancl)
    qed
  qed simp
qed

text \<open>The invariant of the walk: the children of a visited role are visited or queued.\<close>

lemma transitiveExpand_reach:
  assumes "E = inh_edges inh \<union> inh_edges legacy" "E `` set expanded \<subseteq> set expanded \<union> set queue"
  shows "set (transitiveExpand inh legacy queue expanded) = set expanded \<union> E\<^sup>* `` set queue"
  using assms
proof (induction inh legacy queue expanded rule: transitiveExpand.induct)
  case (2 inh legacy current queue expanded)
  let ?cs = "set (lookup_set inh current) \<union> set (lookup_set legacy current)"
  have children: "E `` {current} = ?cs" using 2(3) by (auto simp: inh_edges_def)
  show ?case
  proof (cases "current \<in> set expanded")
    case True
    then have closed: "E `` set expanded \<subseteq> set expanded \<union> set queue" using 2(4) by auto
    have "E\<^sup>* `` {current} \<subseteq> set expanded \<union> E\<^sup>* `` set queue"
      using closed_reach [OF closed] True by blast
    then have "set expanded \<union> E\<^sup>* `` set (current # queue) = set expanded \<union> E\<^sup>* `` set queue" by auto
    with 2(1) [OF True 2(3) closed] True show ?thesis by simp
  next
    case False
    define expanded' where "expanded' = expanded @ [current]"
    define new where "new = filter (\<lambda>child. child \<notin> set expanded')"
    define queue' where "queue' = queue @ new (lookup_set inh current) @ new (lookup_set legacy current)"
    have queue': "set queue' = set queue \<union> (?cs - set expanded')" by (auto simp: queue'_def new_def)
    have closed: "E `` set expanded' \<subseteq> set expanded' \<union> set queue'"
      using 2(4) children unfolding queue' by (auto simp: expanded'_def)
    have "set (transitiveExpand inh legacy queue' expanded') = set expanded' \<union> E\<^sup>* `` set queue'"
      using 2(2) [OF False expanded'_def new_def 2(3)] closed by (simp add: queue'_def)
    also have "\<dots> = set expanded \<union> E\<^sup>* `` set (current # queue)"
    proof -
      have "E\<^sup>* `` set expanded' \<subseteq> set expanded' \<union> E\<^sup>* `` set queue'" by (rule closed_reach [OF closed])
      moreover have "E\<^sup>* `` set queue' \<subseteq> E\<^sup>* `` set (current # queue)"
        unfolding queue' children [symmetric] by (auto intro: converse_rtrancl_into_rtrancl)
      ultimately show ?thesis by (auto simp: expanded'_def queue')
    qed
    finally show ?thesis using False by (simp add: Let_def expanded'_def new_def queue'_def)
  qed
qed simp

lemma distinct_transitiveExpand: "distinct expanded \<Longrightarrow> distinct (transitiveExpand inh legacy queue expanded)"
  by (induction inh legacy queue expanded rule: transitiveExpand.induct) (simp_all add: Let_def)

definition json_edges :: "'f json_store \<Rightarrow> (string \<times> string) set" where
  "json_edges s = inh_edges (jd_RoleInheritance (js_data s)) \<union> inh_edges (jd_RoleExpansion (js_data s))"

lemma inh_edges_append_child:
  "inh_edges (AList.update p (lookup_set inh p @ [child]) inh) = insert (p, child) (inh_edges inh)"
  by (auto simp: inh_edges_def split: if_splits)

lemma in_edges: "child \<in> set (lookup_set inh p) \<Longrightarrow> (p, child) \<in> inh_edges inh"
  by (simp add: inh_edges_def)

interpretation json_roles: inheritance_store "json_ops c os" json_edges "\<lambda>_. True" for c :: json_codec and os :: "'f go_os"
proof (unfold_locales, goal_cases)
  case (1 st ids)
  have "set (transitiveExpand (jd_RoleInheritance (js_data st)) (jd_RoleExpansion (js_data st)) ids []) =
      (json_edges st)\<^sup>* `` set ids"
    using transitiveExpand_reach [OF json_edges_def [of st], of "[]" ids] by simp
  then show ?case
    by (simp add: json_ops_def json_ExpandRoles_def ListExpandedRoleIDs_def distinct_transitiveExpand)
next
  case (2 st p child e st')
  then show ?case
    by (auto simp: json_ops_def json_AddRoleInheritance_def Let_def proper_edges_def json_edges_def
        inh_edges_append_child in_edges dest!: json_Save_data(1) split: if_splits)
qed

section \<open>Assignments\<close>

definition assignments_ok :: "(string, role_assignment list) gomap \<Rightarrow> bool" where
  "assignments_ok m \<longleftrightarrow> wf_gomap m \<and> (\<forall>i. \<forall>a \<in> set (lookup_set m i). wf_gomap (ra_BindingValues a))"

definition json_maps_ok :: "'f json_store \<Rightarrow> bool" where
  "json_maps_ok s \<longleftrightarrow> assignments_ok (jd_UserRoleAssignments (js_data s)) \<and>
     assignments_ok (jd_GroupRoleAssignments (js_data s)) \<and> assignments_ok (jd_TeamRoleAssignments (js_data s))"

definition json_roles_of :: "'f json_store \<Rightarrow> principal_ref \<Rightarrow> role_assignment list" where
  "json_roles_of s who = lookup_set (assignments_of_kind (pr_Kind who) (js_data s)) (pr_ID who)"

lemma json_cloneRoleAssignments_id:
  "\<forall>a \<in> set as. wf_gomap (ra_BindingValues a) \<Longrightarrow> json_cloneRoleAssignments as = as"
  unfolding json_cloneRoleAssignments_def by (rule map_idI) simp

lemma assignments_ok_kind: "json_maps_ok s \<Longrightarrow> assignments_ok (assignments_of_kind kind (js_data s))"
  by (auto simp: json_maps_ok_def assignments_of_kind_def assignments_ok_def)

lemma json_lookup_roles:
  assumes "json_maps_ok s"
  shows "json_RoleAssignmentsForPrincipal s who = Inr (json_roles_of s who)"
  using assignments_ok_kind [OF assms, of "pr_Kind who"]
  by (simp add: json_RoleAssignmentsForPrincipal_def json_roles_of_def json_cloneRoleAssignments_id assignments_ok_def)

lemma assignments_ok_changes:
  "assignments_ok m \<Longrightarrow> assignments_ok (add_assignments i [\<lparr>ra_RoleID = r, ra_BindingValues = copy_map b\<rparr>] m)"
  "assignments_ok m \<Longrightarrow> assignments_ok (remove_assignment i r b m)"
  by (auto simp: assignments_ok_def)

lemma update_assignments_Some:
  assumes "update_assignments f k d = Some d'"
  shows "k \<in> {PrincipalUser, PrincipalGroup, PrincipalTeam}"
    "assignments_of_kind kind d' = (if kind = k then f (assignments_of_kind kind d) else assignments_of_kind kind d)"
  using assms by (auto simp: update_assignments_def assignments_of_kind_def split: if_splits)

lemma change_assignments_cases:
  assumes "change_assignments c os s who roleID f = (e, s')"
  obtains (rejected) "PrincipalRef_Validate who \<noteq> None \<or> roleID = '''' \<or> \<not> inmemory_holder who" "e \<noteq> None" "s' = s"
    | (saved) "PrincipalRef_Validate who = None" "roleID \<noteq> ''''" "inmemory_holder who"
      "\<And>kind. assignments_of_kind kind (js_data s') =
        (if kind = pr_Kind who then f (assignments_of_kind kind (js_data s)) else assignments_of_kind kind (js_data s))"
proof (cases "PrincipalRef_Validate who \<noteq> None \<or> roleID = '''' \<or> update_assignments f (pr_Kind who) (js_data s) = None")
  case True
  then have "\<exists>e'. change_assignments c os s who roleID f = (Some e', s)"
    by (cases "PrincipalRef_Validate who") (auto simp: change_assignments_def)
  then have "e \<noteq> None" "s' = s" using assms by auto
  moreover have "\<not> inmemory_holder who" if "update_assignments f (pr_Kind who) (js_data s) = None"
    using that by (auto simp: update_assignments_def inmemory_holder_def split: if_splits)
  ultimately show ?thesis using True by (intro rejected) auto
next
  case False
  then obtain d where d: "update_assignments f (pr_Kind who) (js_data s) = Some d"
    "json_Save c os (s\<lparr>js_data := d\<rparr>) = (e, s')"
    using assms by (auto simp: change_assignments_def)
  have "js_data s' = d" using json_Save_data(1) [OF d(2)] by simp
  with update_assignments_Some [OF d(1)] False show ?thesis by (intro saved) (simp_all add: inmemory_holder_def)
qed

lemma change_assignments_None:
  assumes "change_assignments c os s who roleID f = (None, s')"
  shows "inmemory_holder who"
    "assignments_of_kind kind (js_data s') =
      (if kind = pr_Kind who then f (assignments_of_kind kind (js_data s)) else assignments_of_kind kind (js_data s))"
  using assms by (rule change_assignments_cases; simp)+

lemma json_maps_ok_iff: "json_maps_ok s \<longleftrightarrow> (\<forall>kind. assignments_ok (assignments_of_kind kind (js_data s)))"
proof
  assume all: "\<forall>kind. assignments_ok (assignments_of_kind kind (js_data s))"
  from spec [OF all, of PrincipalUser] spec [OF all, of PrincipalGroup] spec [OF all, of PrincipalTeam]
  show "json_maps_ok s" by (simp add: json_maps_ok_def assignments_of_kind_def)
qed (simp add: assignments_ok_kind)

lemma change_assignments_ok:
  assumes "json_maps_ok s" "change_assignments c os s who roleID f = (None, s')"
    and "\<And>m. assignments_ok m \<Longrightarrow> assignments_ok (f m)"
  shows "json_maps_ok s'"
  using assms(1,3) change_assignments_None(2) [OF assms(2)] by (simp add: json_maps_ok_iff)

lemma json_AssignRole_None:
  assumes "json_AssignRole c os s p r builtIns b = (None, s')"
  shows "inmemory_holder p" "json_maps_ok s \<Longrightarrow> json_maps_ok s'"
    "json_roles_of s' q = json_roles_of s q @ (if q = p then [\<lparr>ra_RoleID = r, ra_BindingValues = copy_map b\<rparr>] else [])"
proof -
  note change = assms [unfolded json_AssignRole_def]
  show "inmemory_holder p" by (rule change_assignments_None(1) [OF change])
  show "json_maps_ok s \<Longrightarrow> json_maps_ok s'" using change_assignments_ok [OF _ change] assignments_ok_changes(1) by blast
  show "json_roles_of s' q = json_roles_of s q @ (if q = p then [\<lparr>ra_RoleID = r, ra_BindingValues = copy_map b\<rparr>] else [])"
    using change_assignments_None(2) [OF change, of "pr_Kind q"] by (auto simp: json_roles_of_def)
qed

lemma json_UnassignRole_None:
  assumes "json_UnassignRole c os s p r builtIns b = (None, s')"
  shows "inmemory_holder p" "json_maps_ok s \<Longrightarrow> json_maps_ok s'"
    "json_roles_of s' q = (if q = p then filter (\<lambda>ra. \<not> (ra_RoleID ra = r \<and> BindingValuesEqual (ra_BindingValues ra) b))
       (json_roles_of s p) else json_roles_of s q)"
proof -
  note change = assms [unfolded json_UnassignRole_def]
  show "inmemory_holder p" by (rule change_assignments_None(1) [OF change])
  show "json_maps_ok s \<Longrightarrow> json_maps_ok s'" using change_assignments_ok [OF _ change] assignments_ok_changes(2) by blast
  show "json_roles_of s' q = (if q = p then filter (\<lambda>ra. \<not> (ra_RoleID ra = r \<and> BindingValuesEqual (ra_BindingValues ra) b))
       (json_roles_of s p) else json_roles_of s q)"
    using change_assignments_None(2) [OF change, of "pr_Kind q"] by (auto simp: json_roles_of_def)
qed

lemma json_reverse_lookup:
  assumes "json_maps_ok s" "json_RoleAssignmentsForRoleID s r = Inr hits"
  shows "h \<in> set hits \<longleftrightarrow> rh_RoleID h = r \<and> inmemory_holder (rh_Principal h) \<and>
    \<lparr>ra_RoleID = r, ra_BindingValues = rh_BindingValues h\<rparr> \<in> set (json_roles_of s (rh_Principal h))"
proof -
  define raw where "raw = hits_of_kind PrincipalUser r (jd_UserRoleAssignments (js_data s)) @
    hits_of_kind PrincipalGroup r (jd_GroupRoleAssignments (js_data s)) @
    hits_of_kind PrincipalTeam r (jd_TeamRoleAssignments (js_data s))"
  have raw: "h \<in> set raw \<longleftrightarrow> rh_RoleID h = r \<and> inmemory_holder (rh_Principal h) \<and>
    \<lparr>ra_RoleID = r, ra_BindingValues = rh_BindingValues h\<rparr> \<in> set (json_roles_of s (rh_Principal h))" for h
    using assms(1)
    by (auto simp: raw_def json_maps_ok_def assignments_ok_def set_hits_of_kind json_roles_of_def assignments_of_kind_def
        inmemory_holder_def)
  have "wf_gomap (rh_BindingValues h)" if "h \<in> set raw" for h
    using raw [of h] that assignments_ok_kind [OF assms(1), of "pr_Kind (rh_Principal h)"]
    by (force simp: json_roles_of_def assignments_ok_def)
  then have "json_cloneRoleAssignmentHits raw = raw"
    unfolding json_cloneRoleAssignmentHits_def by (intro map_idI) simp
  with assms(2) have "hits = raw" by (simp add: json_RoleAssignmentsForRoleID_def raw_def)
  with raw show ?thesis by simp
qed

interpretation json_assignments: assignment_store "json_ops c os" json_roles_of inmemory_holder json_maps_ok
  for c :: json_codec and os :: "'f go_os"
proof (unfold_locales, goal_cases)
  case (1 st p)
  then show ?case by (simp add: json_ops_def json_lookup_roles)
next
  case (2 st p r builtIns b st')
  then have "json_AssignRole c os st p r builtIns b = (None, st')" by (simp add: json_ops_def)
  from json_AssignRole_None [OF this] 2(1) show ?case by simp
next
  case (3 st p r builtIns b st' q)
  then have "json_AssignRole c os st p r builtIns b = (None, st')" by (simp add: json_ops_def)
  from json_AssignRole_None [OF this] show ?case by simp
next
  case (4 st p r builtIns b st')
  then have "json_UnassignRole c os st p r builtIns b = (None, st')" by (simp add: json_ops_def)
  from json_UnassignRole_None [OF this] 4(1) show ?case by simp
next
  case (5 st r)
  obtain hits where "json_RoleAssignmentsForRoleID st r = Inr hits"
    by (simp add: json_RoleAssignmentsForRoleID_def)
  with json_reverse_lookup [OF 5 this] show ?case by (auto simp: json_ops_def)
qed

end
