(* ===== verification/Json_Recovery.thy ===== *)
theory Json_Recovery
  imports Json_Store
begin

text \<open>
  What the JSON store keeps: what a store opened on a saved file holds, what remains after a save
  that failed, and what two concurrent writers leave in the file.
\<close>

section \<open>Saving and opening again\<close>

definition valid_strings :: "(string, string list) gomap \<Rightarrow> bool" where
  "valid_strings m \<longleftrightarrow> valid_keys m \<and> (\<forall>(k, xs) \<in> set m. \<forall>s \<in> set xs. valid_text s)"

definition valid_assignments :: "(string, role_assignment list) gomap \<Rightarrow> bool" where
  "valid_assignments m \<longleftrightarrow> valid_keys m \<and> (\<forall>(k, as) \<in> set m. \<forall>a \<in> set as. valid_assignment_text a)"

text \<open>All texts are valid UTF-8 and all numbers are 64-bit; the maps are Go maps.\<close>

definition valid_data :: "json_data \<Rightarrow> bool" where
  "valid_data d \<longleftrightarrow> valid_strings (jd_UserGroups d) \<and> valid_assignments (jd_UserRoleAssignments d) \<and>
     valid_assignments (jd_GroupRoleAssignments d) \<and> valid_assignments (jd_TeamRoleAssignments d) \<and>
     valid_strings (jd_RoleInheritance d) \<and> valid_strings (jd_RoleExpansion d) \<and>
     (\<forall>g \<in> set (jd_Grants d). valid_grant_text g)"

definition reloaded_assignments ::
  "json_codec \<Rightarrow> (string, role_assignment list) gomap \<Rightarrow> (string, role_assignment list) gomap" where
  "reloaded_assignments c m = map (\<lambda>(k, as). (k, map (reloaded_assignment c) as)) m"

text \<open>What is left of the data: no team memberships, and values as JSON keeps them.\<close>

definition reloaded_data :: "json_codec \<Rightarrow> json_data \<Rightarrow> json_data" where
  "reloaded_data c d = d\<lparr>
     jd_TeamMembership := [],
     jd_UserRoleAssignments := reloaded_assignments c (jd_UserRoleAssignments d),
     jd_GroupRoleAssignments := reloaded_assignments c (jd_GroupRoleAssignments d),
     jd_TeamRoleAssignments := reloaded_assignments c (jd_TeamRoleAssignments d),
     jd_Grants := map (\<lambda>g. reloaded_grant c (json_cloneGrant g)) (jd_Grants d)\<rparr>"

lemma valid_assignments_lookup:
  assumes "valid_assignments m" "a \<in> set (lookup_set m i)"
  shows "valid_assignment_text a"
proof (cases "map_of m i")
  case (Some as)
  then have "(i, as) \<in> set m" by (rule map_of_SomeD)
  with assms Some show ?thesis by (auto simp: valid_assignments_def lookup_set_def)
qed (use assms(2) in \<open>simp add: lookup_set_def\<close>)

lemma reads_back_string_map [reads]:
  assumes "valid_strings m"
  shows "reads_back (encode_map (encode_slice encode_string)) (decode_map (decode_slice decode_string)) m m"
proof -
  have "reads_back (encode_map (encode_slice encode_string)) (decode_map (decode_slice decode_string)) m
      (map (\<lambda>(k, xs). (k, (\<lambda>xs. xs) xs)) m)"
    using assms by (intro reads_back_map reads_back_strings) (auto simp: valid_strings_def)
  then show ?thesis by simp
qed

lemma reads_back_assignments [reads]:
  assumes "codec_laws c" "valid_assignments m"
  shows "reads_back (encode_assignments c) (decode_assignments c) m (reloaded_assignments c m)"
  unfolding encode_assignments_def decode_assignments_def reloaded_assignments_def
  using assms by (intro reads_back_map reads_back_slice reads_back_assignment) (auto simp: valid_assignments_def)

lemma valid_json_cloneGrant: "valid_grant_text g \<Longrightarrow> valid_grant_text (json_cloneGrant g)"
  by (cases "gr_VariableSpec g") (simp_all add: valid_grant_text_def json_cloneGrant_def valid_bindings_def valid_keys_def)

lemma valid_cloneAssignments: "\<forall>a \<in> set as. valid_assignment_text a \<Longrightarrow> json_cloneRoleAssignments as = as"
  by (rule json_cloneRoleAssignments_id) (simp add: valid_assignment_text_def valid_bindings_def valid_keys_def)

lemma clone_valid_assignments: "valid_assignments m \<Longrightarrow> clone_map json_cloneRoleAssignments m = m"
  unfolding valid_assignments_def valid_keys_def clone_map_def
  by (simp add: map_idI valid_cloneAssignments split_beta)

lemma clone_valid_strings: "valid_strings m \<Longrightarrow> clone_map (\<lambda>xs. xs) m = m"
  by (simp add: valid_strings_def valid_keys_def clone_map_def)

lemma cloneData_valid:
  assumes "valid_data d"
  shows "cloneData d = d\<lparr>jd_TeamMembership := [], jd_Grants := map json_cloneGrant (jd_Grants d)\<rparr>"
  using assms by (simp add: cloneData_def emptyData_def valid_data_def clone_valid_assignments clone_valid_strings)

lemma reads_back_data [reads]:
  assumes laws: "codec_laws c" and "valid_data d"
  shows "reads_back (encode_data c) (decode_data c) (cloneData d) (reloaded_data c d)"
proof -
  let ?strings = "reads_back (encode_map (encode_slice encode_string)) (decode_map (decode_slice decode_string))"
  let ?assignments = "\<lambda>m. reads_back (encode_assignments c) (decode_assignments c) m (reloaded_assignments c m)"
  have valid: "valid_strings (jd_UserGroups d)" "valid_strings (jd_RoleInheritance d)" "valid_strings (jd_RoleExpansion d)"
    "valid_assignments (jd_UserRoleAssignments d)" "valid_assignments (jd_GroupRoleAssignments d)"
    "valid_assignments (jd_TeamRoleAssignments d)"
    using assms(2) by (simp_all add: valid_data_def)
  have "?strings (jd_UserGroups d) (jd_UserGroups d)" "?strings (jd_RoleInheritance d) (jd_RoleInheritance d)"
    "?strings (jd_RoleExpansion d) (jd_RoleExpansion d)"
    using valid(1-3) by (auto intro: reads)
  moreover have "?assignments (jd_UserRoleAssignments d)" "?assignments (jd_GroupRoleAssignments d)"
    "?assignments (jd_TeamRoleAssignments d)"
    using valid(4-6) laws by (auto intro: reads)
  moreover have "reads_back (encode_array (encode_grant c)) (decode_slice (decode_grant c))
      (map json_cloneGrant (jd_Grants d)) (map (reloaded_grant c) (map json_cloneGrant (jd_Grants d)))"
    using assms(2) laws by (intro reads_back_array reads_back_grant) (auto simp: valid_data_def valid_json_cloneGrant)
  ultimately show ?thesis
    unfolding cloneData_valid [OF assms(2)]
    by (auto simp: reads_back_def encode_data_def encode_struct_def encode_teams_def decode_data_def struct_members_def
        decode_field_def decode_map_def [where dec = "decode_slice decode_entry"] reloaded_data_def comp_def)
qed

lemma json_Save_reopen:
  assumes "codec_laws c" "os_laws os" "js_path s \<noteq> ''''" "valid_data d"
    and "write_data c os (cloneData d) s = (None, s')"
  shows "json_NewStore c os (js_files s') (js_path s) =
    Inr \<lparr>js_path = js_path s, js_data = reloaded_data c d, js_files = js_files s'\<rparr>"
proof -
  obtain f where f: "replace_file os ''store'' (js_path s) (encode_data c (cloneData d)) (js_files s) = (None, f)"
    "s' = s\<lparr>js_files := f\<rparr>"
    using assms(5) by (auto simp: write_data_iff)
  have "load_file os ''store'' (decode_data c) emptyData (js_path s) f = Inr (reloaded_data c d)"
    by (rule replace_load [OF assms(2) f(1) reads_back_data [OF assms(1,4)]])
  with assms(3) f(2) show ?thesis by (simp add: json_NewStore_def json_Load_def)
qed

text \<open>After a reload no binding is an integer, so an integer binding names no assignment.\<close>

lemma reloaded_bindings_no_int:
  assumes "codec_laws c" "valid_bindings b" "map_of b' k = Some (GInt n)"
  shows "\<not> BindingValuesEqual (reloaded_bindings c b) b'"
proof
  assume eq: "BindingValuesEqual (reloaded_bindings c b) b'"
  have wf: "wf_gomap (reloaded_bindings c b)"
    using assms(2) by (simp add: reloaded_bindings_def valid_bindings_def valid_keys_def)
  have "set (map fst (reloaded_bindings c b)) \<subseteq> set (map fst b')"
    using eq by (force simp: BindingValuesEqual_def map_of_eq_None_iff split: option.splits)
  moreover have "length (map fst (reloaded_bindings c b)) = length (map fst b')"
    using eq by (simp add: BindingValuesEqual_def)
  ultimately have "set (map fst (reloaded_bindings c b)) = set (map fst b')"
    using wf by (metis wf_gomap_def card_length card_seteq distinct_card List.finite_set)
  moreover have "k \<in> fst ` set b'" using assms(3) by (metis map_of_SomeD fst_conv image_eqI)
  ultimately obtain w where w: "(k, w) \<in> set (reloaded_bindings c b)" by force
  then obtain v where v: "(k, v) \<in> set b" "w = reloaded c v" by (auto simp: reloaded_bindings_def)
  with w eq assms(3) have "reloaded c v = GInt n" by (auto simp: BindingValuesEqual_def)
  moreover have "valid_any v" using assms(2) v(1) by (force simp: valid_bindings_def)
  ultimately show False using reloaded_not_int [OF assms(1)] by blast
qed

section \<open>Effects of the writes\<close>

lemma json_cloneGrant_idem [simp]: "json_cloneGrant (json_cloneGrant g) = json_cloneGrant g"
  by (simp add: json_cloneGrant_def split: option.splits)

lemma json_Save_failed:
  assumes "os_laws os" "json_Save c os s = (e, s')" "e \<noteq> None"
  shows "os_ReadFile os (js_files s') (js_path s) = os_ReadFile os (js_files s) (js_path s)"
  using assms replace_file_effect(2) [OF assms(1)] by (auto simp: json_Save_def write_data_iff)

text \<open>Every write either does not save at all or ends with one save.\<close>

lemma json_write_saves:
  assumes "run_write (json_ops c os) w s = (e, s')"
  shows "s' = s \<or> (\<exists>d. json_Save c os (s\<lparr>js_data := d\<rparr>) = (e, s'))"
  using assms
  by (cases w) (auto simp: json_ops_def json_CreateGrant_def json_AssignRole_def json_UnassignRole_def
      change_assignments_def json_AddRoleInheritance_def json_DeleteGrantsForOwner_def Let_def json_CreateRole_def
      json_UpdateRole_def json_DeleteRole_def json_DisableBuiltInRole_def json_EnableBuiltInRole_def
      split: option.splits if_splits)

lemma json_write_failed:
  assumes "os_laws os" "run_write (json_ops c os) w s = (e, s')" "e \<noteq> None"
  shows "os_ReadFile os (js_files s') (js_path s) = os_ReadFile os (js_files s) (js_path s)"
  using json_write_saves [OF assms(2)] json_Save_failed [OF assms(1) _ assms(3)] by fastforce

lemma json_grants_writes:
  "json_CreateGrant c os s g = (e, s') \<Longrightarrow> json_grants s' = json_grants s @ [json_cloneGrant g]"
  "json_DeleteGrantsForOwner c os s kind oid = (e, s') \<Longrightarrow>
     json_grants s' = filter (\<lambda>g. \<not> (gr_OwnerKind g = kind \<and> gr_OwnerID g = oid)) (json_grants s)"
  by (auto simp: json_CreateGrant_def json_DeleteGrantsForOwner_def json_grants_def filter_map comp_def
      dest!: json_Save_data(1))

text \<open>The writes that are refused before the data is touched, and what the others leave in memory when
  their save fails. The remaining writes do nothing in this store and never report an error.\<close>

fun json_rejects :: "store_write \<Rightarrow> bool" where
  "json_rejects (WAssignRole p r bs b) \<longleftrightarrow> PrincipalRef_Validate p \<noteq> None \<or> r = '''' \<or> \<not> inmemory_holder p"
| "json_rejects (WUnassignRole p r bs b) \<longleftrightarrow> PrincipalRef_Validate p \<noteq> None \<or> r = '''' \<or> \<not> inmemory_holder p"
| "json_rejects (WAddRoleInheritance p child) \<longleftrightarrow> p = '''' \<or> child = '''' \<or> p = child"
| "json_rejects _ \<longleftrightarrow> False"

fun left_in_memory :: "store_write \<Rightarrow> 'f json_store \<Rightarrow> 'f json_store \<Rightarrow> bool" where
  "left_in_memory (WCreateGrant g) s s' \<longleftrightarrow> json_grants s' = json_grants s @ [json_cloneGrant g]"
| "left_in_memory (WDeleteGrantsForOwner kind oid) s s' \<longleftrightarrow>
     json_grants s' = filter (\<lambda>g. \<not> (gr_OwnerKind g = kind \<and> gr_OwnerID g = oid)) (json_grants s)"
| "left_in_memory (WAssignRole p r bs b) s s' \<longleftrightarrow>
     (\<forall>q. json_roles_of s' q =
       json_roles_of s q @ (if q = p then [\<lparr>ra_RoleID = r, ra_BindingValues = copy_map b\<rparr>] else []))"
| "left_in_memory (WUnassignRole p r bs b) s s' \<longleftrightarrow>
     (\<forall>q. json_roles_of s' q =
       (if q = p then filter (\<lambda>ra. \<not> (ra_RoleID ra = r \<and> BindingValuesEqual (ra_BindingValues ra) b)) (json_roles_of s p)
        else json_roles_of s q))"
| "left_in_memory (WAddRoleInheritance p child) s s' \<longleftrightarrow> json_edges s' = insert (p, child) (json_edges s)"
| "left_in_memory _ s s' \<longleftrightarrow> False"

lemma json_AddRoleInheritance_failed:
  assumes "json_AddRoleInheritance c os s p child = (Some e, s')"
  shows "if p = '''' \<or> child = '''' \<or> p = child then s' = s else json_edges s' = insert (p, child) (json_edges s)"
  using assms
  by (auto simp: json_AddRoleInheritance_def Let_def json_edges_def inh_edges_append_child
      dest!: json_Save_data(1) split: if_splits)

lemma json_write_memory:
  assumes "run_write (json_ops c os) w s = (Some e, s')"
  shows "if json_rejects w then s' = s else left_in_memory w s s'"
proof (cases w)
  case (WAssignRole p r bs b)
  with assms have "change_assignments c os s p r
      (add_assignments (pr_ID p) [\<lparr>ra_RoleID = r, ra_BindingValues = copy_map b\<rparr>]) = (Some e, s')"
    by (simp add: json_ops_def json_AssignRole_def)
  then show ?thesis
  proof (cases rule: change_assignments_cases)
    case saved
    then show ?thesis using WAssignRole by (auto simp: json_roles_of_def)
  qed (auto simp: WAssignRole)
next
  case (WUnassignRole p r bs b)
  with assms have "change_assignments c os s p r (remove_assignment (pr_ID p) r b) = (Some e, s')"
    by (simp add: json_ops_def json_UnassignRole_def)
  then show ?thesis
  proof (cases rule: change_assignments_cases)
    case saved
    then show ?thesis using WUnassignRole by (auto simp: json_roles_of_def)
  qed (auto simp: WUnassignRole)
next
  case (WAddRoleInheritance p child)
  then show ?thesis using assms json_AddRoleInheritance_failed by (fastforce simp: json_ops_def)
qed (use assms json_grants_writes [of c os s] in
    \<open>auto simp: json_ops_def json_CreateRole_def json_UpdateRole_def json_DeleteRole_def
      json_DisableBuiltInRole_def json_EnableBuiltInRole_def\<close>)

text \<open>What a write leaves in memory does not depend on what becomes of the file.\<close>

lemma json_Save_memory: "js_data (snd (json_Save c os s)) = js_data s"
  using json_Save_data(1) by (metis prod.collapse)

lemma json_write_same_memory:
  "js_data (snd (run_write (json_ops c os') w s)) = js_data (snd (run_write (json_ops c os) w s))"
  by (cases w) (simp_all add: json_ops_def json_CreateGrant_def json_DeleteGrantsForOwner_def json_AssignRole_def
      json_UnassignRole_def change_assignments_def json_AddRoleInheritance_def Let_def json_CreateRole_def
      json_UpdateRole_def json_DeleteRole_def json_DisableBuiltInRole_def json_EnableBuiltInRole_def json_Save_memory
      split: option.splits)

section \<open>Instances\<close>

text \<open>A codec for numbers that are written as integers, and a store with one assignment and one team.\<close>

definition demo_codec :: json_codec where
  "demo_codec = \<lparr>
     jc_literal = (\<lambda>v. case v of
        GFloat64 k t \<Rightarrow> if Atoi t = Some k then Inr (JNumber t) else Inl (Foreign ''unsupported'')
      | _ \<Rightarrow> Inl (Foreign ''unsupported'')),
     jc_number = (\<lambda>l. case Atoi l of None \<Rightarrow> Inl type_error | Some n \<Rightarrow> Inr (GFloat64 n l)),
     jc_composite = (\<lambda>j. GOther ''map[string]interface {}'' ''map[]''),
     jc_time = (\<lambda>t. if t = 0 then Inr ''1970-01-01T00:00:00Z'' else Inl (Foreign ''unsupported'')),
     jc_parse_time = (\<lambda>s. if s = ''1970-01-01T00:00:00Z'' then Inr 0 else Inl (Foreign ''unsupported''))\<rparr>"

definition demo_assignment :: role_assignment where
  "demo_assignment = \<lparr>ra_RoleID = ''editor'', ra_BindingValues = [(''project'', GInt 7)]\<rparr>"

definition demo_grant :: grant where
  "demo_grant = \<lparr>gr_ID = 0, gr_OwnerKind = PrincipalUser, gr_OwnerID = ''bob'', gr_Effect = EffectAllow, gr_TeamScope = ''*'',
     gr_ObjectScope = None, gr_PermissionName = ''read'', gr_ExpiresAt = None, gr_RestrictedFields = [], gr_VariableSpec = None\<rparr>"

definition demo_json :: "(string, file_content) gomap json_store" where
  "demo_json = \<lparr>js_path = ''store.json'',
     js_data = emptyData\<lparr>jd_TeamMembership := [(''red'', [\<lparr>te_ID = ''alice'', te_Kind = ''user''\<rparr>])],
       jd_UserRoleAssignments := [(''alice'', [demo_assignment])]\<rparr>,
     js_files = []\<rparr>"

lemma demo_codec_laws: "codec_laws demo_codec"
proof -
  have "valid_text ''1970-01-01T00:00:00Z''" by code_simp
  then show ?thesis
    by (auto simp: codec_laws_def demo_codec_def Atoi_Itoa split: goval.splits if_splits option.splits)
qed

lemma demo_grant_valid: "valid_grant_text demo_grant"
proof -
  have "valid_text ''user''" "valid_text ''bob''" "valid_text ''allow''" "valid_text ''*''" "valid_text ''read''" by code_simp+
  then show ?thesis
    by (simp add: valid_grant_text_def demo_grant_def principal_kind_defs effect_defs in_int64_def del: valid_text.simps)
qed

lemma demo_json_valid: "valid_data (js_data demo_json)"
  by code_simp

section \<open>What the store guarantees\<close>

text \<open>C37. A saved store can be opened again. The new store has the groups, the inheritance, the grants
  and the assignments of the old one, except that numbers in bindings have become \<open>float64\<close>: no
  \<open>UnassignRole\<close> whose bindings contain an integer removes anything any more. The team memberships are
  lost: no user of the new store belongs to a team.\<close>

theorem save_and_reopen:
  assumes "codec_laws c" "os_laws os" "valid_data (js_data s)" "js_path s \<noteq> ''''" "json_Save c os s = (None, s')"
  shows "\<exists>r. json_NewStore c os (js_files s') (js_path s) = Inr r \<and> js_data r = reloaded_data c (js_data s) \<and>
    (\<forall>u. store_GetUserTeams r u = Inr []) \<and>
    (\<forall>who role b k n e r'. map_of b k = Some (GInt n) \<longrightarrow> json_UnassignRole c os r who role [] b = (None, r') \<longrightarrow>
       json_roles_of r' who = json_roles_of r who)"
proof -
  define r where "r = \<lparr>js_path = js_path s, js_data = reloaded_data c (js_data s), js_files = js_files s'\<rparr>"
  have "json_NewStore c os (js_files s') (js_path s) = Inr r"
    unfolding r_def by (rule json_Save_reopen [OF assms(1,2,4,3) assms(5) [unfolded json_Save_def]])
  moreover have "store_GetUserTeams r u = Inr []" for u
    by (simp add: store_GetUserTeams_def store_identity_def json_GetUserTeams_def r_def reloaded_data_def)
  moreover have "json_roles_of r' who = json_roles_of r who"
    if "map_of b k = Some (GInt n)" "json_UnassignRole c os r who role [] b = (None, r')" for who role b k n r'
  proof -
    have "\<not> BindingValuesEqual (ra_BindingValues a) b" if "a \<in> set (json_roles_of r who)" for a
    proof -
      have maps: "jd_UserRoleAssignments (js_data r) = reloaded_assignments c (jd_UserRoleAssignments (js_data s))"
        "jd_GroupRoleAssignments (js_data r) = reloaded_assignments c (jd_GroupRoleAssignments (js_data s))"
        "jd_TeamRoleAssignments (js_data r) = reloaded_assignments c (jd_TeamRoleAssignments (js_data s))"
        by (simp_all add: r_def reloaded_data_def)
      obtain m where m: "valid_assignments m" "a \<in> set (lookup_set (reloaded_assignments c m) (pr_ID who))"
        using \<open>a \<in> set (json_roles_of r who)\<close> assms(3)
        by (auto simp: json_roles_of_def assignments_of_kind_def maps valid_data_def split: if_splits)
      moreover have "lookup_set (reloaded_assignments c m) i = map (reloaded_assignment c) (lookup_set m i)" for i
        by (simp add: reloaded_assignments_def lookup_set_map_snd)
      ultimately obtain a' where a': "a' \<in> set (lookup_set m (pr_ID who))" "a = reloaded_assignment c a'" by auto
      moreover have "valid_assignment_text a'"
        by (rule valid_assignments_lookup [OF m(1) a'(1)])
      ultimately show ?thesis
        using reloaded_bindings_no_int [OF assms(1) _ \<open>map_of b k = Some (GInt n)\<close>]
        by (simp add: reloaded_assignment_def valid_assignment_text_def)
    qed
    then have "filter (\<lambda>ra. \<not> (ra_RoleID ra = role \<and> BindingValuesEqual (ra_BindingValues ra) b)) (json_roles_of r who) =
        json_roles_of r who" by (intro filter_True) auto
    then show ?thesis using json_UnassignRole_None(3) [OF that(2), of who] by simp
  qed
  ultimately show ?thesis by (intro exI [of _ r]) (simp add: r_def)
qed

theorem save_and_reopen_witness:
  "\<exists>r. json_NewStore demo_codec disk_os (js_files (snd (json_Save demo_codec disk_os demo_json))) ''store.json'' = Inr r \<and>
    json_roles_of r \<lparr>pr_Kind = PrincipalUser, pr_ID = ''alice''\<rparr> =
      [\<lparr>ra_RoleID = ''editor'', ra_BindingValues = [(''project'', GFloat64 7 ''7'')]\<rparr>] \<and>
    store_GetUserTeams demo_json ''alice'' = Inr [''red''] \<and> store_GetUserTeams r ''alice'' = Inr []"
proof -
  have "fst (json_Save demo_codec disk_os demo_json) = None" by code_simp
  then have saved: "json_Save demo_codec disk_os demo_json = (None, snd (json_Save demo_codec disk_os demo_json))"
    by (metis prod.collapse)
  have path: "js_path demo_json = ''store.json''" by code_simp
  obtain r where r: "json_NewStore demo_codec disk_os (js_files (snd (json_Save demo_codec disk_os demo_json))) ''store.json'' = Inr r"
    "js_data r = reloaded_data demo_codec (js_data demo_json)" "store_GetUserTeams r ''alice'' = Inr []"
    using save_and_reopen [OF demo_codec_laws disk_os_laws(1) demo_json_valid _ saved] by (auto simp: path)
  have "jd_UserRoleAssignments (js_data r) =
      [(''alice'', [\<lparr>ra_RoleID = ''editor'', ra_BindingValues = [(''project'', GFloat64 7 ''7'')]\<rparr>])]"
    unfolding r(2) by code_simp
  then have "json_roles_of r \<lparr>pr_Kind = PrincipalUser, pr_ID = ''alice''\<rparr> =
      [\<lparr>ra_RoleID = ''editor'', ra_BindingValues = [(''project'', GFloat64 7 ''7'')]\<rparr>]"
    by (simp add: json_roles_of_def assignments_of_kind_def lookup_set_def)
  moreover have "store_GetUserTeams demo_json ''alice'' = Inr [''red'']" by code_simp
  ultimately show ?thesis using r by blast
qed

text \<open>C38. A write that reports an error never touches the saved file; the file is replaced as a whole
  or not at all. A write that is refused for its arguments changes nothing. Any other write that
  reports an error has failed to save: the data in memory is then what the same write leaves when
  its save succeeds. So a grant whose creation failed is stored, grants whose deletion failed are
  gone, and likewise for an assignment that was made or removed and for an inheritance.\<close>

theorem failed_save_splits_store:
  assumes "os_laws os" "run_write (json_ops c os) w s = (Some e, s')"
  shows "os_ReadFile os (js_files s') (js_path s) = os_ReadFile os (js_files s) (js_path s) \<and>
    (if json_rejects w then s' = s
     else left_in_memory w s s' \<and> (\<forall>os'. js_data (snd (run_write (json_ops c os') w s)) = js_data s'))"
  using json_write_failed [OF assms] json_write_memory [OF assms(2)] json_write_same_memory [of c _ w s os] assms(2)
  by (auto split: if_splits)

theorem failed_save_splits_store_witness:
  "\<exists>s'. json_CreateGrant demo_codec full_os demo_json demo_grant =
      (Some (Wrapf ''write temp store file: %w'' [] (Foreign ''no space left on device'')), s') \<and>
    length (json_grants s') = Suc 0 \<and> os_ReadFile full_os (js_files s') ''store.json'' = Missing \<and>
    fst (json_CreateGrant demo_codec disk_os demo_json demo_grant) = None \<and>
    js_data (snd (json_CreateGrant demo_codec disk_os demo_json demo_grant)) = js_data s'"
proof -
  have "fst (json_CreateGrant demo_codec full_os demo_json demo_grant) =
      Some (Wrapf ''write temp store file: %w'' [] (Foreign ''no space left on device''))" by code_simp
  then obtain s' where call: "json_CreateGrant demo_codec full_os demo_json demo_grant =
      (Some (Wrapf ''write temp store file: %w'' [] (Foreign ''no space left on device'')), s')"
    by (metis prod.collapse)
  then have "run_write (json_ops demo_codec full_os) (WCreateGrant demo_grant) demo_json =
      (Some (Wrapf ''write temp store file: %w'' [] (Foreign ''no space left on device'')), s')"
    by (simp add: json_ops_def)
  from failed_save_splits_store [OF disk_os_laws(2) this] have
    "os_ReadFile full_os (js_files s') ''store.json'' = os_ReadFile full_os [] ''store.json''"
    "json_grants s' = json_grants demo_json @ [json_cloneGrant demo_grant]"
    "js_data (snd (json_CreateGrant demo_codec disk_os demo_json demo_grant)) = js_data s'"
    by (simp_all add: demo_json_def json_ops_def)
  moreover have "json_grants demo_json = []" "os_ReadFile full_os [] ''store.json'' = Missing"
    "fst (json_CreateGrant demo_codec disk_os demo_json demo_grant) = None" by code_simp+
  ultimately show ?thesis using call by simp
qed

text \<open>C39. Saves are not ordered: when a second writer completes its whole call between the copy and the
  replacement of the first writer's save, both calls succeed and the second grant is in memory, but
  the file that the first writer leaves does not have it.\<close>

theorem concurrent_saves_lose_write:
  assumes "codec_laws c" "os_laws os" "js_path s \<noteq> ''''" "valid_data (js_data s)" "valid_grant_text a"
    and "s1 = s\<lparr>js_data := (js_data s)\<lparr>jd_Grants := jd_Grants (js_data s) @ [json_cloneGrant a]\<rparr>\<rparr>"
    and "copied = cloneData (js_data s1)"
    and "json_CreateGrant c os s1 b = (None, s2)" "write_data c os copied s2 = (None, s3)"
  shows "\<exists>r. json_NewStore c os (js_files s3) (js_path s) = Inr r \<and>
    json_grants s3 = json_grants s @ [json_cloneGrant a, json_cloneGrant b] \<and>
    jd_Grants (js_data r) = map (reloaded_grant c) (json_grants s @ [json_cloneGrant a])"
proof -
  have data: "js_data s3 = js_data s2" "js_path s2 = js_path s"
    using assms(8,9) json_Save_data(2) by (auto simp: write_data_iff json_CreateGrant_def assms(6) dest!: json_Save_data(2))
  have "valid_data (js_data s1)"
    using assms(4,5) valid_json_cloneGrant by (auto simp: assms(6) valid_data_def)
  with json_Save_reopen [OF assms(1,2) _ this assms(9) [unfolded assms(7)]] assms(3)
  have "json_NewStore c os (js_files s3) (js_path s) =
      Inr \<lparr>js_path = js_path s, js_data = reloaded_data c (js_data s1), js_files = js_files s3\<rparr>"
    by (simp add: data)
  moreover have "json_grants s3 = json_grants s @ [json_cloneGrant a, json_cloneGrant b]"
    using json_grants_writes(1) [OF assms(8)] by (simp add: json_grants_def data assms(6))
  ultimately show ?thesis
    by (auto simp: assms(6) reloaded_data_def json_grants_def)
qed


theorem concurrent_saves_lose_write_witness:
  "\<exists>s1 s2 s3 r. js_data s1 = (js_data demo_json)\<lparr>jd_Grants := [json_cloneGrant demo_grant]\<rparr> \<and>
    json_CreateGrant demo_codec disk_os s1 demo_grant = (None, s2) \<and>
    write_data demo_codec disk_os (cloneData (js_data s1)) s2 = (None, s3) \<and>
    json_NewStore demo_codec disk_os (js_files s3) ''store.json'' = Inr r \<and>
    length (json_grants s3) = 2 \<and> length (jd_Grants (js_data r)) = 1"
proof -
  define s1 where "s1 = demo_json\<lparr>js_data := (js_data demo_json)\<lparr>jd_Grants := jd_Grants (js_data demo_json) @ [json_cloneGrant demo_grant]\<rparr>\<rparr>"
  define s2 where "s2 = snd (json_CreateGrant demo_codec disk_os s1 demo_grant)"
  define s3 where "s3 = snd (write_data demo_codec disk_os (cloneData (js_data s1)) s2)"
  have "fst (json_CreateGrant demo_codec disk_os s1 demo_grant) = None" unfolding s1_def by code_simp
  then have create: "json_CreateGrant demo_codec disk_os s1 demo_grant = (None, s2)" by (simp add: s2_def prod_eq_iff)
  have "fst (write_data demo_codec disk_os (cloneData (js_data s1)) s2) = None" unfolding s2_def s1_def by code_simp
  then have rewrite: "write_data demo_codec disk_os (cloneData (js_data s1)) s2 = (None, s3)" by (simp add: s3_def prod_eq_iff)
  have facts: "js_path demo_json = ''store.json''" "json_grants demo_json = []" "jd_Grants (js_data demo_json) = []"
    by code_simp+
  from concurrent_saves_lose_write [OF demo_codec_laws disk_os_laws(1) _ demo_json_valid demo_grant_valid s1_def refl create rewrite]
  obtain r where "json_NewStore demo_codec disk_os (js_files s3) ''store.json'' = Inr r"
    "length (json_grants s3) = 2" "length (jd_Grants (js_data r)) = 1"
    by (auto simp: facts)
  with create rewrite show ?thesis
    by (intro exI [of _ s1] exI [of _ s2] exI [of _ s3] exI [of _ r]) (simp add: s1_def facts)
qed

end
