(* ===== verification/Postgres_Server.thy ===== *)
theory Postgres_Server
  imports Json_Values
begin

text \<open>
  The database server as the PostgreSQL store sees it through pgx: calls that may fail, with or
  without effect, single statements, transactions, and the part of SQL that the store's
  statements use on texts. The data are a parameter of the calls. One session is modelled: a call
  is complete before the next one starts.
\<close>

section \<open>Calls\<close>

text \<open>\<open>Lost\<close>: the call took effect, but the client got an error instead of the answer.\<close>

datatype outcome = Succeeds | Fails goerror | Lost goerror

text \<open>
  The server: how a call ends, told apart by the text that the store puts around its errors and by
  the number of calls before it; the time that \<open>timestamptz\<close> keeps of a Go time; equality on
  \<open>jsonb\<close>; the numbers a sequence skips; and the sort keys of the collation.
\<close>

record pg_server =
  pg_outcome :: "string \<Rightarrow> nat \<Rightarrow> outcome"
  pg_time :: "time \<Rightarrow> time"
  pg_same_json :: "json \<Rightarrow> json \<Rightarrow> bool"
  pg_skip :: "nat \<Rightarrow> nat"
  pg_sort_key :: "string \<Rightarrow> string"

record 'd database =
  db_data :: 'd
  db_calls :: nat

definition called :: "nat \<Rightarrow> 'd \<Rightarrow> 'd database \<Rightarrow> 'd database" where
  "called n d s = s\<lparr>db_data := d, db_calls := db_calls s + n\<rparr>"

lemma called_simps [simp]: "db_data (called n d s) = d" "db_calls (called n d s) = db_calls s + n"
  by (simp_all add: called_def)

fun client_error :: "outcome \<Rightarrow> goerror option" where
  "client_error Succeeds = None"
| "client_error (Fails e) = Some e"
| "client_error (Lost e) = Some e"

definition wrap :: "string \<Rightarrow> goerror \<Rightarrow> goerror" where
  "wrap label e = Wrapf (label @ '': %w'') [] e"

definition bad_input :: goerror where
  "bad_input = Foreign ''invalid input''"

text \<open>A query. \<open>ok\<close> says that the server accepts the parameters.\<close>

definition pg_query :: "pg_server \<Rightarrow> string \<Rightarrow> bool \<Rightarrow> 'd database \<Rightarrow> ('d \<Rightarrow> 'r) \<Rightarrow> 'r result" where
  "pg_query db label ok s f =
     (if \<not> ok then Inl (wrap label bad_input)
      else case client_error (pg_outcome db label (db_calls s)) of
        Some e \<Rightarrow> Inl (wrap label e)
      | None \<Rightarrow> Inr (f (db_data s)))"

text \<open>The loop over the rows: each row is scanned, and the connection may break before the last one.\<close>

definition pg_rows :: "pg_server \<Rightarrow> string \<Rightarrow> 'd database \<Rightarrow> ('row \<Rightarrow> 'a result) \<Rightarrow> 'row list \<Rightarrow> 'a list result" where
  "pg_rows db label s scan rows =
     attempt (collect scan rows) (\<lambda>xs.
     case client_error (pg_outcome db label (db_calls s)) of Some e \<Rightarrow> Inl (wrap label e) | None \<Rightarrow> Inr xs)"

text \<open>A statement outside a transaction; it yields the number of rows affected.\<close>

definition pg_exec :: "pg_server \<Rightarrow> string \<Rightarrow> bool \<Rightarrow> ('d \<Rightarrow> (nat \<times> 'd) result) \<Rightarrow> 'd database \<Rightarrow> nat result \<times> 'd database" where
  "pg_exec db label ok stmt s =
     (if \<not> ok then (Inl bad_input, called 1 (db_data s) s)
      else case pg_outcome db label (db_calls s) of
        Fails e \<Rightarrow> (Inl e, called 1 (db_data s) s)
      | Lost e \<Rightarrow> (Inl e, called 1 (case stmt (db_data s) of Inl _ \<Rightarrow> db_data s | Inr (n, d) \<Rightarrow> d) s)
      | Succeeds \<Rightarrow>
          (case stmt (db_data s) of
             Inl e \<Rightarrow> (Inl e, called 1 (db_data s) s)
           | Inr (n, d) \<Rightarrow> (Inr n, called 1 d s)))"

definition pg_write :: "pg_server \<Rightarrow> string \<Rightarrow> bool \<Rightarrow> ('d \<Rightarrow> (nat \<times> 'd) result) \<Rightarrow> 'd database \<Rightarrow> 'd database update" where
  "pg_write db label ok stmt s =
     (case pg_exec db label ok stmt s of
        (Inl e, s') \<Rightarrow> (Some (wrap label e), s')
      | (Inr n, s') \<Rightarrow> (None, s'))"

text \<open>A statement that must affect a row; \<open>missing\<close> is the error when there is none.\<close>

definition pg_affect ::
  "pg_server \<Rightarrow> string \<Rightarrow> bool \<Rightarrow> ('d \<Rightarrow> (nat \<times> 'd) result) \<Rightarrow> goerror \<Rightarrow> 'd database \<Rightarrow> 'd database update" where
  "pg_affect db label ok stmt missing s =
     (case pg_exec db label ok stmt s of
        (Inl e, s') \<Rightarrow> (Some (wrap label e), s')
      | (Inr n, s') \<Rightarrow> (if n = 0 then Some missing else None, s'))"

section \<open>Transactions\<close>

text \<open>What happens between \<open>Begin\<close> and \<open>Commit\<close>: code of the store that may return, and statements.\<close>

datatype 'd tx_step = Local "goerror option" | Run string bool "'d \<Rightarrow> (nat \<times> 'd) result"

fun tx_steps :: "pg_server \<Rightarrow> nat \<Rightarrow> 'd tx_step list \<Rightarrow> 'd \<Rightarrow> 'd result" where
  "tx_steps db n [] d = Inr d"
| "tx_steps db n (Local r # steps) d = (case r of Some e \<Rightarrow> Inl e | None \<Rightarrow> tx_steps db n steps d)"
| "tx_steps db n (Run label ok stmt # steps) d =
     (if \<not> ok then Inl (wrap label bad_input)
      else case client_error (pg_outcome db label n) of
        Some e \<Rightarrow> Inl (wrap label e)
      | None \<Rightarrow> (case stmt d of Inl e \<Rightarrow> Inl (wrap label e) | Inr (m, d') \<Rightarrow> tx_steps db (Suc n) steps d'))"

text \<open>
  \<open>Begin\<close>, the steps, \<open>Commit\<close>; the deferred \<open>Rollback\<close> undoes the steps unless \<open>Commit\<close> was carried
  out, with an answer or without.
\<close>

definition pg_transaction ::
  "pg_server \<Rightarrow> string \<Rightarrow> 'd tx_step list \<Rightarrow> string \<Rightarrow> 'd database \<Rightarrow> 'd database update" where
  "pg_transaction db beginning steps commit s =
     (let n = length steps + 2; undone = called n (db_data s) s in
      case client_error (pg_outcome db beginning (db_calls s)) of
        Some e \<Rightarrow> (Some (wrap beginning e), undone)
      | None \<Rightarrow>
          (case tx_steps db (db_calls s + 1) steps (db_data s) of
             Inl e \<Rightarrow> (Some e, undone)
           | Inr d \<Rightarrow>
               (case pg_outcome db commit (db_calls s + length steps + 1) of
                  Succeeds \<Rightarrow> (None, called n d s)
                | Fails e \<Rightarrow> (Some (wrap commit e), undone)
                | Lost e \<Rightarrow> (Some (wrap commit e), called n d s))))"

section \<open>Servers without failures\<close>

definition no_faults :: "pg_server \<Rightarrow> pg_server" where
  "no_faults db = db\<lparr>pg_outcome := (\<lambda>_ _. Succeeds)\<rparr>"

lemma no_faults_simps [simp]:
  "pg_outcome (no_faults db) l n = Succeeds" "pg_time (no_faults db) = pg_time db"
  "pg_same_json (no_faults db) = pg_same_json db" "pg_skip (no_faults db) = pg_skip db"
  "pg_sort_key (no_faults db) = pg_sort_key db"
  by (simp_all add: no_faults_def)

lemma pg_query_no_faults [simp]:
  "pg_query (no_faults db) l ok s f = (if ok then Inr (f (db_data s)) else Inl (wrap l bad_input))"
  by (simp add: pg_query_def)

lemma pg_rows_no_faults [simp]: "pg_rows (no_faults db) l s scan rows = collect scan rows"
  by (simp add: pg_rows_def)

lemma pg_query_Inr: "pg_query db l ok s f = Inr r \<Longrightarrow> ok \<and> r = f (db_data s)"
  by (auto simp: pg_query_def split: if_splits option.splits)

lemma pg_rows_Inr: "pg_rows db l s scan rows = Inr xs \<Longrightarrow> collect scan rows = Inr xs"
  by (auto simp: pg_rows_def split: option.splits)

text \<open>
  Whatever the server does, a write leaves the data as they were or as a server without failures
  would leave them, and no error is only reported in the second case.
\<close>

definition all_or_nothing :: "'d database \<Rightarrow> 'd database update \<Rightarrow> 'd database update \<Rightarrow> bool" where
  "all_or_nothing s faulty ideal \<longleftrightarrow>
     (db_data (snd faulty) = db_data s \<or> (fst ideal = None \<and> db_data (snd faulty) = db_data (snd ideal))) \<and>
     (fst faulty = None \<longrightarrow> fst ideal = None \<and> db_data (snd faulty) = db_data (snd ideal))"

lemma all_or_nothing_same [simp]: "all_or_nothing s (Some e, s) x"
  by (simp add: all_or_nothing_def)

lemma pg_write_atomic: "all_or_nothing s (pg_write db l ok stmt s) (pg_write (no_faults db) l ok stmt s)"
  by (cases "pg_outcome db l (db_calls s)"; cases "stmt (db_data s)")
    (auto simp: all_or_nothing_def pg_write_def pg_exec_def)

lemma pg_affect_atomic:
  assumes "\<And>t'. stmt (db_data s) = Inr (0, t') \<Longrightarrow> t' = db_data s"
  shows "all_or_nothing s (pg_affect db l ok stmt m s) (pg_affect (no_faults db) l ok stmt m s)"
  using assms by (cases "pg_outcome db l (db_calls s)"; cases "stmt (db_data s)")
    (auto simp: all_or_nothing_def pg_affect_def pg_exec_def split: if_splits intro: ccontr)

lemma tx_steps_no_faults: "tx_steps db n steps d = Inr d' \<Longrightarrow> tx_steps (no_faults db) m steps d = Inr d'"
proof (induction steps arbitrary: n m d)
  case (Cons st steps)
  then show ?case
    by (cases st) (auto split: option.splits if_splits sum.splits)
qed simp

lemma pg_transaction_atomic:
  "all_or_nothing s (pg_transaction db b steps c s) (pg_transaction (no_faults db) b steps c s)"
proof (cases "tx_steps db (db_calls s + 1) steps (db_data s)")
  case (Inl e)
  then show ?thesis by (auto simp: all_or_nothing_def pg_transaction_def Let_def split: option.splits)
next
  case (Inr d)
  then have "tx_steps (no_faults db) (db_calls s + 1) steps (db_data s) = Inr d" by (rule tx_steps_no_faults)
  with Inr show ?thesis
    by (auto simp: all_or_nothing_def pg_transaction_def Let_def split: option.splits outcome.splits)
qed

section \<open>Texts\<close>

text \<open>A database in UTF-8 rejects other texts, and the character 0.\<close>

definition pg_text :: "string \<Rightarrow> bool" where
  "pg_text s \<longleftrightarrow> valid_text s \<and> char_of (0 :: nat) \<notin> set s"

fun json_texts :: "json \<Rightarrow> string list" where
  "json_texts (JString s) = [s]"
| "json_texts (JArray js) = concat (map json_texts js)"
| "json_texts (JObject ms) = concat (map (\<lambda>(k, j). k # json_texts j) ms)"
| "json_texts j = []"

definition pg_json :: "json \<Rightarrow> bool" where
  "pg_json j \<longleftrightarrow> list_all pg_text (json_texts j)"

text \<open>
  \<open>LIKE\<close>: a percent sign stands for any text, an underscore for one character, and a backslash
  takes the next character literally. A pattern that ends in a lone backslash is an error of the
  server; the patterns here end in a percent sign.
\<close>

fun like :: "string \<Rightarrow> string \<Rightarrow> bool" where
  "like [] t \<longleftrightarrow> t = []"
| "like (c # p) t \<longleftrightarrow>
     (if c = CHR ''%'' then like p t \<or> (case t of [] \<Rightarrow> False | _ # t' \<Rightarrow> like (c # p) t')
      else if c = CHR ''_'' then t \<noteq> [] \<and> like p (drop (max 1 (rune_len t)) t)
      else if c = CHR 0x5C \<and> p \<noteq> [] then t \<noteq> [] \<and> hd t = hd p \<and> like (tl p) (tl t)
      else t \<noteq> [] \<and> hd t = c \<and> like p (tl t))"

lemma like_any: "like ''%'' t"
  by (induction t) auto

definition plain_pattern :: "string \<Rightarrow> bool" where
  "plain_pattern p \<longleftrightarrow> CHR ''%'' \<notin> set p \<and> CHR ''_'' \<notin> set p \<and> CHR 0x5C \<notin> set p"

lemma like_prefix: "plain_pattern p \<Longrightarrow> like (p @ ''%'') t \<longleftrightarrow> HasPrefix t p"
proof (induction p arbitrary: t)
  case Nil
  show ?case using like_any [of t] by (simp add: HasPrefix_def del: like.simps)
next
  case (Cons c p)
  then have "c \<noteq> CHR ''%''" "c \<noteq> CHR ''_''" "c \<noteq> CHR 0x5C" "plain_pattern p" by (auto simp: plain_pattern_def)
  with Cons.IH show ?case by (cases t) (auto simp: HasPrefix_def)
qed

lemma like_variable [simp]: "like ''?%'' t \<longleftrightarrow> HasPrefix t ''?''"
  using like_prefix [of "''?''" t] by (simp add: plain_pattern_def del: like.simps)

declare like.simps [simp del]

end
