(* ===== verification/Postgres_Tables.thy ===== *)
theory Postgres_Tables
  imports Postgres_Server
begin

text \<open>
  The tables of \<open>postgres/store.go\<close> and its SQL statements. A table is the list of its rows in the
  order of their insertion, without the columns that the store never reads. A statement yields
  the number of rows it affected, or the violation of a constraint.
\<close>

section \<open>Rows\<close>

record role_row =
  rr_id :: string
  rr_code :: string
  rr_description :: string
  rr_built_in :: bool
  rr_is_disabled :: bool
  rr_scope :: string
  rr_tags :: "string list"
  rr_permissions :: "string list"

record assignment_row =
  aw_principal_kind :: string
  aw_principal_id :: string
  aw_role_id :: string
  aw_binding_values :: json

record grant_row =
  gw_id :: int
  gw_owner_kind :: string
  gw_owner_id :: string
  gw_effect :: string
  gw_team_scope :: string
  gw_object_scope :: "string option"
  gw_permission_name :: string
  gw_expires_at :: "time option"
  gw_field_allowlist :: "string list"
  gw_variable_spec :: json

text \<open>\<open>tb_grant_seq\<close> is the last number drawn from the sequence of \<open>permission_grants.id\<close>.\<close>

record pg_tables =
  tb_roles :: "role_row list"
  tb_inheritance :: "(string \<times> string) list"
  tb_closure :: "(string \<times> string \<times> int) list"
  tb_assignments :: "assignment_row list"
  tb_disabled :: "string list"
  tb_grants :: "grant_row list"
  tb_grant_seq :: int

definition no_rows :: pg_tables where
  "no_rows = \<lparr>tb_roles = [], tb_inheritance = [], tb_closure = [], tb_assignments = [], tb_disabled = [],
     tb_grants = [], tb_grant_seq = 0\<rparr>"

text \<open>The enumerations \<open>principal_type\<close> and \<open>grant_effect\<close>.\<close>

definition principal_type :: "string \<Rightarrow> bool" where
  "principal_type k \<longleftrightarrow> k \<in> set [PrincipalUser, PrincipalGroup, PrincipalTeam, PrincipalRole]"

definition grant_effect :: "string \<Rightarrow> bool" where
  "grant_effect e \<longleftrightarrow> e \<in> set [EffectAllow, EffectDeny]"

definition unique_violation :: goerror where
  "unique_violation = Foreign ''duplicate key value violates unique constraint''"

definition not_null_violation :: goerror where
  "not_null_violation = Foreign ''null value violates not-null constraint''"

definition sequence_limit :: goerror where
  "sequence_limit = Foreign ''reached maximum value of sequence''"

type_synonym statement = "pg_tables \<Rightarrow> (nat \<times> pg_tables) result"

section \<open>Roles\<close>

definition sql_insert_role :: "role_row \<Rightarrow> statement" where
  "sql_insert_role row t =
     (if list_ex (\<lambda>r. rr_id r = rr_id row \<or> rr_code r = rr_code row) (tb_roles t) then Inl unique_violation
      else Inr (1, t\<lparr>tb_roles := tb_roles t @ [row]\<rparr>))"

text \<open>\<open>null_permissions\<close>: the parameter of the column is NULL.\<close>

definition sql_update_role :: "bool \<Rightarrow> role_row \<Rightarrow> statement" where
  "sql_update_role null_permissions row t =
     (if \<not> list_ex (\<lambda>r. rr_id r = rr_id row) (tb_roles t) then Inr (0, t)
      else if null_permissions then Inl not_null_violation
      else if list_ex (\<lambda>r. rr_id r \<noteq> rr_id row \<and> rr_code r = rr_code row) (tb_roles t) then Inl unique_violation
      else Inr (1, t\<lparr>tb_roles := map (\<lambda>r. if rr_id r = rr_id row then row else r) (tb_roles t)\<rparr>))"

definition sql_delete_role :: "string \<Rightarrow> statement" where
  "sql_delete_role roleID t =
     Inr (length (filter (\<lambda>r. rr_id r = roleID) (tb_roles t)), t\<lparr>tb_roles := filter (\<lambda>r. rr_id r \<noteq> roleID) (tb_roles t)\<rparr>)"

section \<open>Inheritance\<close>

definition add_pair :: "string \<times> string \<times> int \<Rightarrow> (string \<times> string \<times> int) list \<Rightarrow> (string \<times> string \<times> int) list" where
  "add_pair x rows =
     (if list_ex (\<lambda>y. fst y = fst x \<and> fst (snd y) = fst (snd x)) rows then rows else rows @ [x])"

definition sql_insert_self_closure :: "string \<Rightarrow> statement" where
  "sql_insert_self_closure roleID t =
     (let rows = add_pair (roleID, roleID, 0) (tb_closure t)
      in Inr (length rows - length (tb_closure t), t\<lparr>tb_closure := rows\<rparr>))"

definition sql_insert_edge :: "string \<Rightarrow> string \<Rightarrow> statement" where
  "sql_insert_edge parent child t =
     (if (parent, child) \<in> set (tb_inheritance t) then Inr (0, t)
      else Inr (1, t\<lparr>tb_inheritance := tb_inheritance t @ [(parent, child)]\<rparr>))"

text \<open>The cross join, and the insertion of its rows one after the other.\<close>

definition closure_extension :: "string \<Rightarrow> string \<Rightarrow> (string \<times> string \<times> int) list \<Rightarrow> (string \<times> string \<times> int) list" where
  "closure_extension parent child rows =
     concat (map (\<lambda>(a, a', n). map (\<lambda>(d', d, m). (a, d, n + m + 1)) (filter (\<lambda>y. fst y = child) rows))
       (filter (\<lambda>x. fst (snd x) = parent) rows))"

definition sql_extend_closure :: "string \<Rightarrow> string \<Rightarrow> statement" where
  "sql_extend_closure parent child t =
     (let rows = fold add_pair (closure_extension parent child (tb_closure t)) (tb_closure t)
      in Inr (length rows - length (tb_closure t), t\<lparr>tb_closure := rows\<rparr>))"

definition sql_expanded_roles :: "string list \<Rightarrow> pg_tables \<Rightarrow> string list" where
  "sql_expanded_roles roleIDs t = remdups (map (fst \<circ> snd) (filter (\<lambda>x. fst x \<in> set roleIDs) (tb_closure t)))"

section \<open>Assignments\<close>

definition same_assignment :: "pg_server \<Rightarrow> assignment_row \<Rightarrow> assignment_row \<Rightarrow> bool" where
  "same_assignment db x y \<longleftrightarrow> aw_principal_kind x = aw_principal_kind y \<and> aw_principal_id x = aw_principal_id y \<and>
     aw_role_id x = aw_role_id y \<and> pg_same_json db (aw_binding_values x) (aw_binding_values y)"

definition sql_insert_assignment :: "pg_server \<Rightarrow> assignment_row \<Rightarrow> statement" where
  "sql_insert_assignment db row t =
     (if list_ex (\<lambda>x. same_assignment db x row) (tb_assignments t) then Inl unique_violation
      else Inr (1, t\<lparr>tb_assignments := tb_assignments t @ [row]\<rparr>))"

text \<open>Without bindings the statement has no condition on them.\<close>

definition deleted_assignment :: "pg_server \<Rightarrow> string \<Rightarrow> string \<Rightarrow> string \<Rightarrow> json option \<Rightarrow> assignment_row \<Rightarrow> bool" where
  "deleted_assignment db kind i roleID b x \<longleftrightarrow> aw_principal_kind x = kind \<and> aw_principal_id x = i \<and> aw_role_id x = roleID \<and>
     (case b of None \<Rightarrow> True | Some j \<Rightarrow> pg_same_json db (aw_binding_values x) j)"

definition sql_delete_assignments :: "pg_server \<Rightarrow> string \<Rightarrow> string \<Rightarrow> string \<Rightarrow> json option \<Rightarrow> statement" where
  "sql_delete_assignments db kind i roleID b t =
     Inr (length (filter (deleted_assignment db kind i roleID b) (tb_assignments t)),
       t\<lparr>tb_assignments := filter (\<lambda>x. \<not> deleted_assignment db kind i roleID b x) (tb_assignments t)\<rparr>)"

section \<open>Disabled built-in roles\<close>

definition sql_disable :: "string \<Rightarrow> statement" where
  "sql_disable roleID t =
     (if roleID \<in> set (tb_disabled t) then Inr (0, t) else Inr (1, t\<lparr>tb_disabled := tb_disabled t @ [roleID]\<rparr>))"

definition sql_enable :: "string \<Rightarrow> statement" where
  "sql_enable roleID t =
     Inr (length (filter (\<lambda>r. r = roleID) (tb_disabled t)), t\<lparr>tb_disabled := filter (\<lambda>r. r \<noteq> roleID) (tb_disabled t)\<rparr>)"

section \<open>Grants\<close>

definition max_bigint :: int where
  "max_bigint = 2 ^ 63 - 1"

definition sql_insert_grant :: "nat \<Rightarrow> grant_row \<Rightarrow> statement" where
  "sql_insert_grant skip row t =
     (let i = tb_grant_seq t + 1 + int skip in
      if max_bigint < i then Inl sequence_limit
      else Inr (1, t\<lparr>tb_grants := tb_grants t @ [row\<lparr>gw_id := i\<rparr>], tb_grant_seq := i\<rparr>))"

definition sql_delete_grants :: "string \<Rightarrow> string \<Rightarrow> statement" where
  "sql_delete_grants kind i t =
     Inr (length (filter (\<lambda>g. gw_owner_kind g = kind \<and> gw_owner_id g = i) (tb_grants t)),
       t\<lparr>tb_grants := filter (\<lambda>g. \<not> (gw_owner_kind g = kind \<and> gw_owner_id g = i)) (tb_grants t)\<rparr>)"

definition sql_active :: "time \<Rightarrow> grant_row \<Rightarrow> bool" where
  "sql_active now g \<longleftrightarrow> (case gw_expires_at g of None \<Rightarrow> True | Some t \<Rightarrow> now < t)"

text \<open>The conditions of \<open>ListGrantsForOwners\<close>; the team is NULL or a text, the object always a text.\<close>

definition sql_scopes_pass :: "string option \<Rightarrow> string \<Rightarrow> grant_row \<Rightarrow> bool" where
  "sql_scopes_pass team object g \<longleftrightarrow>
     (gw_team_scope g = ''*'' \<or> like ''?%'' (gw_team_scope g) \<or>
        (case team of None \<Rightarrow> False | Some t \<Rightarrow> gw_team_scope g = t)) \<and>
     (case gw_object_scope g of None \<Rightarrow> True | Some os \<Rightarrow> os = ''*'' \<or> like ''?%'' os \<or> os = object)"

definition sql_grant_passes :: "time \<Rightarrow> string \<Rightarrow> string option \<Rightarrow> string \<Rightarrow> grant_row \<Rightarrow> bool" where
  "sql_grant_passes now perm team object g \<longleftrightarrow>
     (perm = '''' \<or> gw_permission_name g = perm) \<and> sql_active now g \<and> sql_scopes_pass team object g"

text \<open>The join with the owners: a grant comes once for every time that its owner is asked for.\<close>

definition sql_grants_for_owners ::
  "time \<Rightarrow> (string \<times> string) list \<Rightarrow> string \<Rightarrow> string option \<Rightarrow> string \<Rightarrow> pg_tables \<Rightarrow> grant_row list" where
  "sql_grants_for_owners now owners perm team object t =
     concat (map (\<lambda>g. map (\<lambda>_. g) (filter (\<lambda>r. r = (gw_owner_kind g, gw_owner_id g)) owners))
       (filter (sql_grant_passes now perm team object) (tb_grants t)))"

text \<open>The conditions of \<open>ListPrincipalsWithGrant\<close>, which compare scopes without variables.\<close>

definition sql_grant_concerns :: "time \<Rightarrow> string \<Rightarrow> string option \<Rightarrow> string \<Rightarrow> grant_row \<Rightarrow> bool" where
  "sql_grant_concerns now perm team object g \<longleftrightarrow> gw_permission_name g = perm \<and> sql_active now g \<and>
     (case team of None \<Rightarrow> gw_team_scope g = ''*'' | Some t \<Rightarrow> gw_team_scope g = ''*'' \<or> gw_team_scope g = t) \<and>
     (case gw_object_scope g of None \<Rightarrow> True | Some os \<Rightarrow> os = ''*'' \<or> os = object)"

definition sql_principals_with_grant ::
  "time \<Rightarrow> string \<Rightarrow> string option \<Rightarrow> string \<Rightarrow> pg_tables \<Rightarrow> principal_hit list" where
  "sql_principals_with_grant now perm team object t =
     remdups (map (\<lambda>g. \<lparr>ph_Kind = gw_owner_kind g, ph_ID = gw_owner_id g, ph_TeamScope = gw_team_scope g,
         ph_ObjectScope = gw_object_scope g, ph_PermissionName = gw_permission_name g\<rparr>)
       (filter (\<lambda>g. gw_effect g = EffectAllow \<and> sql_grant_concerns now perm team object g \<and>
           \<not> list_ex (\<lambda>d. gw_owner_kind d = gw_owner_kind g \<and> gw_owner_id d = gw_owner_id g \<and>
               gw_effect d = EffectDeny \<and> sql_grant_concerns now perm team object d) (tb_grants t))
         (tb_grants t)))"

text \<open>The \<open>where\<close> clause that \<open>ListGrants\<close> builds from its query.\<close>

definition sql_query_matches :: "grant_query \<Rightarrow> grant_row \<Rightarrow> bool" where
  "sql_query_matches q g \<longleftrightarrow>
     (gq_Principals q \<noteq> [] \<longrightarrow> list_ex (\<lambda>p. gw_owner_kind g = pr_Kind p \<and> gw_owner_id g = pr_ID p) (gq_Principals q)) \<and>
     (gq_TeamScopes q \<noteq> [] \<longrightarrow> gw_team_scope g \<in> set (gq_TeamScopes q)) \<and>
     (gq_ObjectScopes q \<noteq> [] \<longrightarrow> (case gw_object_scope g of None \<Rightarrow> False | Some os \<Rightarrow> os \<in> set (gq_ObjectScopes q))) \<and>
     (gq_Permissions q \<noteq> [] \<longrightarrow> gw_permission_name g \<in> set (gq_Permissions q)) \<and>
     (gq_PermissionPrefix q \<noteq> '''' \<longrightarrow> like (gq_PermissionPrefix q @ ''%'') (gw_permission_name g))"

definition sql_list_grants :: "grant_query \<Rightarrow> int option \<Rightarrow> int \<Rightarrow> pg_tables \<Rightarrow> grant_row list" where
  "sql_list_grants q after limit t =
     take (nat limit) (sort_key gw_id (filter (\<lambda>g. sql_query_matches q g \<and>
       (case after of None \<Rightarrow> True | Some i \<Rightarrow> i < gw_id g)) (tb_grants t)))"

end
