(* ===== verification/Postgres_Store.thy ===== *)
theory Postgres_Store
  imports Postgres_Tables Paging
begin

text \<open>
  The methods of \<open>postgres/store.go\<close> on a server and its tables. Method by method: the checks on the
  arguments, the statements with the texts that label their errors, and the reading of the rows.
  Reads do not change the tables; a row that cannot be read is the error of the whole read.
\<close>

type_synonym pg_store = "pg_tables database"

definition wrapped :: "string \<Rightarrow> 'a result \<Rightarrow> 'a result" where
  "wrapped label r = (case r of Inl e \<Rightarrow> Inl (wrap label e) | Inr x \<Rightarrow> Inr x)"

definition no_rows_error :: goerror where
  "no_rows_error = Foreign ''no rows in result set''"

section \<open>Reading assignments\<close>

definition scan_bindings :: "json_codec \<Rightarrow> string \<Rightarrow> json \<Rightarrow> bindings result" where
  "scan_bindings c label j = wrapped label (decode_map (decode_any c) j)"

definition scan_assignment :: "json_codec \<Rightarrow> string \<Rightarrow> assignment_row \<Rightarrow> role_assignment result" where
  "scan_assignment c label row =
     attempt (scan_bindings c label (aw_binding_values row))
       (\<lambda>b. Inr \<lparr>ra_RoleID = aw_role_id row, ra_BindingValues = b\<rparr>)"

text \<open>\<open>select distinct\<close>: rows with the same role and equal documents are one.\<close>

fun distinct_assignments :: "pg_server \<Rightarrow> assignment_row list \<Rightarrow> assignment_row list" where
  "distinct_assignments db [] = []"
| "distinct_assignments db (x # xs) =
     x # distinct_assignments db
       (filter (\<lambda>y. \<not> (aw_role_id y = aw_role_id x \<and> pg_same_json db (aw_binding_values y) (aw_binding_values x))) xs)"

definition pg_ListRoleAssignmentsForUserAndGroups ::
  "pg_server \<Rightarrow> json_codec \<Rightarrow> pg_store \<Rightarrow> string \<Rightarrow> string list \<Rightarrow> role_assignment list result" where
  "pg_ListRoleAssignmentsForUserAndGroups db c s userID groupIDs =
     attempt (pg_query db ''query role assignments'' (pg_text userID \<and> list_all pg_text groupIDs) s
       (\<lambda>t. distinct_assignments db (filter (\<lambda>x. (aw_principal_kind x = PrincipalUser \<and> aw_principal_id x = userID) \<or>
          (aw_principal_kind x = PrincipalGroup \<and> aw_principal_id x \<in> set groupIDs)) (tb_assignments t))))
     (\<lambda>rows. pg_rows db ''iterate role assignments'' s (scan_assignment c ''unmarshal binding values'') rows)"

definition pg_RoleAssignmentsForPrincipal ::
  "pg_server \<Rightarrow> json_codec \<Rightarrow> pg_store \<Rightarrow> principal_ref \<Rightarrow> role_assignment list result" where
  "pg_RoleAssignmentsForPrincipal db c s p =
     (case PrincipalRef_Validate p of
        Some e \<Rightarrow> Inl e
      | None \<Rightarrow>
          attempt (pg_query db ''query role assignments for principal'' (principal_type (pr_Kind p) \<and> pg_text (pr_ID p)) s
            (\<lambda>t. filter (\<lambda>x. aw_principal_kind x = pr_Kind p \<and> aw_principal_id x = pr_ID p) (tb_assignments t)))
          (\<lambda>rows. pg_rows db ''iterate role assignments for principal'' s
             (scan_assignment c ''unmarshal binding values for principal assignment'') rows))"

definition scan_hit :: "json_codec \<Rightarrow> assignment_row \<Rightarrow> role_assignment_hit result" where
  "scan_hit c row =
     attempt (scan_bindings c ''unmarshal binding values'' (aw_binding_values row))
       (\<lambda>b. Inr \<lparr>rh_RoleID = aw_role_id row, rh_BindingValues = b,
          rh_Principal = \<lparr>pr_Kind = aw_principal_kind row, pr_ID = aw_principal_id row\<rparr>\<rparr>)"

definition pg_RoleAssignmentsForRoleID ::
  "pg_server \<Rightarrow> json_codec \<Rightarrow> pg_store \<Rightarrow> string \<Rightarrow> role_assignment_hit list result" where
  "pg_RoleAssignmentsForRoleID db c s roleID =
     attempt (pg_query db ''query role assignments for roleID'' (pg_text roleID) s
       (\<lambda>t. filter (\<lambda>x. aw_role_id x = roleID) (tb_assignments t)))
     (\<lambda>rows. pg_rows db ''iterate role assignments'' s (scan_hit c) rows)"

section \<open>Expanding roles\<close>

definition pg_ListExpandedRoleIDs :: "pg_server \<Rightarrow> pg_store \<Rightarrow> string list \<Rightarrow> string list result" where
  "pg_ListExpandedRoleIDs db s roleIDs =
     (if roleIDs = [] then Inr []
      else attempt (pg_query db ''query expanded roles'' (list_all pg_text roleIDs) s (sql_expanded_roles roleIDs))
        (\<lambda>rows. pg_rows db ''iterate expanded roles'' s Inr rows))"

definition pg_ExpandRoles :: "pg_server \<Rightarrow> pg_store \<Rightarrow> string list \<Rightarrow> string list result" where
  "pg_ExpandRoles db s roleIDs = pg_ListExpandedRoleIDs db s roleIDs"

section \<open>Reading grants\<close>

definition scan_grant :: "json_codec \<Rightarrow> grant_row \<Rightarrow> grant result" where
  "scan_grant c row =
     attempt (wrapped ''unmarshal variable spec'' (decode_map (decode_any c) (gw_variable_spec row)))
       (\<lambda>spec. Inr \<lparr>gr_ID = gw_id row, gr_OwnerKind = gw_owner_kind row, gr_OwnerID = gw_owner_id row,
          gr_Effect = gw_effect row, gr_TeamScope = gw_team_scope row, gr_ObjectScope = gw_object_scope row,
          gr_PermissionName = gw_permission_name row, gr_ExpiresAt = gw_expires_at row,
          gr_RestrictedFields = gw_field_allowlist row, gr_VariableSpec = Some spec\<rparr>)"

definition team_parameter :: "request \<Rightarrow> string option" where
  "team_parameter req = (if rq_TeamID req = '''' then None else Some (rq_TeamID req))"

definition request_texts :: "request \<Rightarrow> bool" where
  "request_texts req \<longleftrightarrow> pg_text (rq_Perm req) \<and> pg_text (rq_TeamID req) \<and> pg_text (rq_Object req)"

definition pg_ListGrantsForOwners ::
  "pg_server \<Rightarrow> json_codec \<Rightarrow> time \<Rightarrow> pg_store \<Rightarrow> principal_ref list \<Rightarrow> request \<Rightarrow> grant list result" where
  "pg_ListGrantsForOwners db c now s owners req =
     (if owners = [] then Inr []
      else attempt (collect (\<lambda>p. case PrincipalRef_Validate p of Some e \<Rightarrow> Inl e | None \<Rightarrow> Inr (pr_Kind p, pr_ID p)) owners)
        (\<lambda>refs. attempt (pg_query db ''query grants''
             (list_all (\<lambda>(k, i). principal_type k \<and> pg_text i) refs \<and> request_texts req) s
             (sql_grants_for_owners now refs (rq_Perm req) (team_parameter req) (rq_Object req)))
        (\<lambda>rows. pg_rows db ''iterate grants'' s (scan_grant c) rows)))"

definition pg_GrantsForOwners ::
  "pg_server \<Rightarrow> json_codec \<Rightarrow> time \<Rightarrow> pg_store \<Rightarrow> principal_ref list \<Rightarrow> request \<Rightarrow> grant list result" where
  "pg_GrantsForOwners db c now s owners req = pg_ListGrantsForOwners db c now s owners req"

definition pg_GrantsForPrincipal ::
  "pg_server \<Rightarrow> json_codec \<Rightarrow> time \<Rightarrow> pg_store \<Rightarrow> principal_ref \<Rightarrow> grant list result" where
  "pg_GrantsForPrincipal db c now s p = pg_ListGrantsForOwners db c now s [p] zero_request"

definition pg_ListPrincipalsWithGrant :: "pg_server \<Rightarrow> time \<Rightarrow> pg_store \<Rightarrow> request \<Rightarrow> principal_hit list result" where
  "pg_ListPrincipalsWithGrant db now s req =
     (if rq_Perm req = '''' then Inl (Errorf ''permission name is required'' [])
      else attempt (pg_query db ''query principals with grant'' (request_texts req) s
          (sql_principals_with_grant now (rq_Perm req) (team_parameter req) (rq_Object req)))
        (\<lambda>rows. pg_rows db ''iterate principals with grant'' s Inr rows))"

definition pg_PrincipalsWithGrant :: "pg_server \<Rightarrow> time \<Rightarrow> pg_store \<Rightarrow> request \<Rightarrow> principal_hit list result" where
  "pg_PrincipalsWithGrant db now s req = pg_ListPrincipalsWithGrant db now s req"

section \<open>Roles\<close>

definition role_of_row :: "role_row \<Rightarrow> role" where
  "role_of_row r = \<lparr>ro_ID = rr_id r, ro_Name = rr_code r, ro_Description = rr_description r, ro_Scope = rr_scope r,
     ro_Tags = rr_tags r, ro_Permissions = rr_permissions r, ro_BuiltIn = rr_built_in r, ro_IsDisabled = rr_is_disabled r\<rparr>"

definition row_of_role :: "role \<Rightarrow> role_row" where
  "row_of_role r = \<lparr>rr_id = ro_ID r, rr_code = ro_Name r, rr_description = ro_Description r, rr_built_in = ro_BuiltIn r,
     rr_is_disabled = ro_IsDisabled r, rr_scope = ro_Scope r, rr_tags = ro_Tags r, rr_permissions = ro_Permissions r\<rparr>"

definition role_texts :: "role \<Rightarrow> bool" where
  "role_texts r \<longleftrightarrow> list_all pg_text ([ro_ID r, ro_Name r, ro_Description r, ro_Scope r] @ ro_Tags r @ ro_Permissions r)"

definition pg_RoleDefinitions :: "pg_server \<Rightarrow> pg_store \<Rightarrow> role list result" where
  "pg_RoleDefinitions db s =
     attempt (pg_query db ''query role definitions'' True s (\<lambda>t. sort_key (\<lambda>r. pg_sort_key db (rr_id r)) (tb_roles t)))
       (\<lambda>rows. pg_rows db ''iterate role definitions'' s (\<lambda>r. Inr (role_of_row r)) rows)"

definition pg_RoleDefinition :: "pg_server \<Rightarrow> pg_store \<Rightarrow> string \<Rightarrow> role result" where
  "pg_RoleDefinition db s roleID =
     (if roleID = '''' then Inl (Errorf ''role ID is required'' [])
      else attempt (pg_query db ''query role definition'' (pg_text roleID) s (\<lambda>t. find (\<lambda>r. rr_id r = roleID) (tb_roles t)))
        (\<lambda>row. case row of None \<Rightarrow> Inl (wrap ''query role definition'' no_rows_error) | Some r \<Rightarrow> Inr (role_of_row r)))"

definition role_stored :: "string \<Rightarrow> pg_tables \<Rightarrow> bool" where
  "role_stored roleID t \<longleftrightarrow> list_ex (\<lambda>r. rr_id r = roleID) (tb_roles t)"

definition pg_CreateRole :: "pg_server \<Rightarrow> pg_store \<Rightarrow> role \<Rightarrow> pg_store update" where
  "pg_CreateRole db s role =
     (if ro_ID role = '''' then (Some (Errorf ''role ID is required'' []), s)
      else if ro_Name role = '''' then (Some (Errorf ''role name is required'' []), s)
      else case pg_query db ''check role existence'' (pg_text (ro_ID role)) s (role_stored (ro_ID role)) of
        Inl e \<Rightarrow> (Some e, s)
      | Inr True \<Rightarrow> (Some (Errorf ''role already exists: %s'' [ro_ID role]), s)
      | Inr False \<Rightarrow>
          pg_transaction db ''begin transaction''
            [Run ''insert role'' (role_texts role) (sql_insert_role (row_of_role role)),
             Run ''insert role self-closure'' True (sql_insert_self_closure (ro_ID role))]
            ''commit create role'' s)"

text \<open>\<open>empty_is_nil\<close>: whether the caller's empty list of permissions is nil, which becomes NULL.\<close>

definition pg_UpdateRole :: "pg_server \<Rightarrow> bool \<Rightarrow> pg_store \<Rightarrow> role \<Rightarrow> pg_store update" where
  "pg_UpdateRole db empty_is_nil s role =
     (if ro_ID role = '''' then (Some (Errorf ''role ID is required'' []), s)
      else if ro_Name role = '''' then (Some (Errorf ''role name is required'' []), s)
      else pg_affect db ''update role'' (role_texts role)
        (sql_update_role (empty_is_nil \<and> ro_Permissions role = []) (row_of_role role))
        (Errorf ''role not found: %s'' [ro_ID role]) s)"

definition pg_DeleteRole :: "pg_server \<Rightarrow> pg_store \<Rightarrow> string \<Rightarrow> pg_store update" where
  "pg_DeleteRole db s roleID =
     (if roleID = '''' then (Some (Errorf ''role ID is required'' []), s)
      else pg_affect db ''delete role'' (pg_text roleID) (sql_delete_role roleID)
        (Errorf ''role not found: %s'' [roleID]) s)"

definition pg_AddRoleInheritance :: "pg_server \<Rightarrow> pg_store \<Rightarrow> string \<Rightarrow> string \<Rightarrow> pg_store update" where
  "pg_AddRoleInheritance db s parentRoleID childRoleID =
     (if parentRoleID = '''' then (Some (Errorf ''parent role ID is required'' []), s)
      else if childRoleID = '''' then (Some (Errorf ''child role ID is required'' []), s)
      else if parentRoleID = childRoleID then (Some (Errorf ''a role cannot inherit itself'' []), s)
      else pg_transaction db ''begin role inheritance transaction''
        [Run ''insert role inheritance edge'' (pg_text parentRoleID \<and> pg_text childRoleID)
           (sql_insert_edge parentRoleID childRoleID),
         Run ''extend role closure'' True (sql_extend_closure parentRoleID childRoleID)]
        ''commit role inheritance transaction'' s)"

section \<open>Writing grants\<close>

definition grant_required :: "grant \<Rightarrow> goerror option" where
  "grant_required g =
     (if gr_OwnerID g = '''' then Some (Errorf ''owner ID is required'' [])
      else if gr_PermissionName g = '''' then Some (Errorf ''permission name is required'' [])
      else if gr_TeamScope g = '''' then Some (Errorf ''team scope is required'' [])
      else None)"

definition encode_bindings :: "json_codec \<Rightarrow> bindings \<Rightarrow> json result" where
  "encode_bindings c b = encode_map (encode_any c) (copy_map b)"

definition row_of_grant :: "pg_server \<Rightarrow> grant \<Rightarrow> json \<Rightarrow> grant_row" where
  "row_of_grant db g spec = \<lparr>gw_id = 0, gw_owner_kind = gr_OwnerKind g, gw_owner_id = gr_OwnerID g, gw_effect = gr_Effect g,
     gw_team_scope = gr_TeamScope g, gw_object_scope = gr_ObjectScope g, gw_permission_name = gr_PermissionName g,
     gw_expires_at = map_option (pg_time db) (gr_ExpiresAt g), gw_field_allowlist = gr_RestrictedFields g,
     gw_variable_spec = spec\<rparr>"

definition grant_accepted :: "grant \<Rightarrow> json \<Rightarrow> bool" where
  "grant_accepted g spec \<longleftrightarrow> principal_type (gr_OwnerKind g) \<and> grant_effect (gr_Effect g) \<and> pg_json spec \<and>
     list_all pg_text ([gr_OwnerID g, gr_TeamScope g, gr_PermissionName g] @ gr_RestrictedFields g) \<and>
     (case gr_ObjectScope g of None \<Rightarrow> True | Some os \<Rightarrow> pg_text os)"

definition spec_document :: "json_codec \<Rightarrow> grant \<Rightarrow> json result" where
  "spec_document c g = encode_bindings c (case gr_VariableSpec g of None \<Rightarrow> [] | Some m \<Rightarrow> m)"

definition pg_CreateGrant :: "pg_server \<Rightarrow> json_codec \<Rightarrow> pg_store \<Rightarrow> grant \<Rightarrow> pg_store update" where
  "pg_CreateGrant db c s g =
     (case grant_required g of
        Some e \<Rightarrow> (Some e, s)
      | None \<Rightarrow>
          (case spec_document c g of
             Inl e \<Rightarrow> (Some (wrap ''marshal variable spec'' e), s)
           | Inr spec \<Rightarrow> pg_write db ''insert permission grant'' (grant_accepted g spec)
               (sql_insert_grant (pg_skip db (db_calls s)) (row_of_grant db g spec)) s))"

text \<open>In a batch every grant is checked before any is sent.\<close>

definition batch_check :: "json_codec \<Rightarrow> grant \<Rightarrow> goerror option" where
  "batch_check c g =
     (case grant_required g of
        Some e \<Rightarrow> Some e
      | None \<Rightarrow> (case spec_document c g of Inl e \<Rightarrow> Some (wrap ''marshal variable spec'' e) | Inr _ \<Rightarrow> None))"

definition batch_insert :: "pg_server \<Rightarrow> json_codec \<Rightarrow> nat \<Rightarrow> grant \<Rightarrow> pg_tables tx_step" where
  "batch_insert db c skip g =
     (case spec_document c g of
        Inl e \<Rightarrow> Local (Some (wrap ''marshal variable spec'' e))
      | Inr spec \<Rightarrow> Run ''insert permission grants'' (grant_accepted g spec) (sql_insert_grant skip (row_of_grant db g spec)))"

definition pg_CreateGrants :: "pg_server \<Rightarrow> json_codec \<Rightarrow> pg_store \<Rightarrow> grant list \<Rightarrow> pg_store update" where
  "pg_CreateGrants db c s grants =
     (if grants = [] then (None, s)
      else pg_transaction db ''begin grant transaction''
        (map (\<lambda>g. Local (batch_check c g)) grants @
         map (batch_insert db c (pg_skip db (db_calls s))) grants @
         [Run ''close permission grant batch'' True (\<lambda>t. Inr (0, t))])
        ''commit grant transaction'' s)"

definition pg_DeleteGrantsForOwner :: "pg_server \<Rightarrow> pg_store \<Rightarrow> principal_kind \<Rightarrow> string \<Rightarrow> pg_store update" where
  "pg_DeleteGrantsForOwner db s ownerKind ownerID =
     (if ownerID = '''' then (Some (Errorf ''owner ID is required'' []), s)
      else pg_write db ''delete grants for owner'' (principal_type ownerKind \<and> pg_text ownerID)
        (sql_delete_grants ownerKind ownerID) s)"

section \<open>Writing assignments\<close>

definition assignable_kind :: "principal_kind \<Rightarrow> bool" where
  "assignable_kind k \<longleftrightarrow> k = PrincipalUser \<or> k = PrincipalGroup \<or> k = PrincipalTeam"

text \<open>The checks that \<open>AssignRole\<close> and \<open>UnassignRole\<close> share. Only \<open>ErrNoRows\<close> counts as an error of the
  lookup: if the lookup itself fails, both go on.\<close>

definition assignment_checks :: "pg_server \<Rightarrow> pg_store \<Rightarrow> principal_ref \<Rightarrow> string \<Rightarrow> role list \<Rightarrow> goerror option" where
  "assignment_checks db s p roleID builtIns =
     (case PrincipalRef_Validate p of
        Some e \<Rightarrow> Some e
      | None \<Rightarrow>
          if \<not> assignable_kind (pr_Kind p)
          then Some (Errorf ''role assignments support only user, group, or team principals'' [])
          else if roleID = '''' then Some (Errorf ''role ID is required'' [])
          else case pg_query db ''select role'' (pg_text roleID) s (role_stored roleID) of
            Inr False \<Rightarrow> if list_ex (\<lambda>r. ro_ID r = roleID) builtIns then None else Some (Errorf ''role not found: %s'' [roleID])
          | _ \<Rightarrow> None)"

definition pg_AssignRole ::
  "pg_server \<Rightarrow> json_codec \<Rightarrow> pg_store \<Rightarrow> principal_ref \<Rightarrow> string \<Rightarrow> role list \<Rightarrow> bindings \<Rightarrow> pg_store update" where
  "pg_AssignRole db c s p roleID builtIns bindingValues =
     (case assignment_checks db s p roleID builtIns of
        Some e \<Rightarrow> (Some e, s)
      | None \<Rightarrow>
          (case encode_bindings c bindingValues of
             Inl e \<Rightarrow> (Some (wrap ''marshal role binding values'' e), s)
           | Inr j \<Rightarrow> pg_write db ''insert principal role assignment''
               (principal_type (pr_Kind p) \<and> pg_text (pr_ID p) \<and> pg_text roleID \<and> pg_json j)
               (sql_insert_assignment db \<lparr>aw_principal_kind = pr_Kind p, aw_principal_id = pr_ID p, aw_role_id = roleID,
                  aw_binding_values = j\<rparr>) s))"

text \<open>Unlike everywhere else, nil and empty bindings differ here: nil removes every assignment of the
  role, whatever its bindings.\<close>

definition unassign_document :: "json_codec \<Rightarrow> bindings option \<Rightarrow> json option result" where
  "unassign_document c bindingValues =
     (case bindingValues of
        None \<Rightarrow> Inr None
      | Some b \<Rightarrow> attempt (wrapped ''marshal bindingValues'' (encode_map (encode_any c) b)) (\<lambda>j. Inr (Some j)))"

definition pg_UnassignRole ::
  "pg_server \<Rightarrow> json_codec \<Rightarrow> pg_store \<Rightarrow> principal_ref \<Rightarrow> string \<Rightarrow> role list \<Rightarrow> bindings option \<Rightarrow> pg_store update" where
  "pg_UnassignRole db c s p roleID builtIns bindingValues =
     (case assignment_checks db s p roleID builtIns of
        Some e \<Rightarrow> (Some e, s)
      | None \<Rightarrow>
          (case unassign_document c bindingValues of
             Inl e \<Rightarrow> (Some e, s)
           | Inr j \<Rightarrow> pg_affect db ''delete principal role assignment''
               (principal_type (pr_Kind p) \<and> pg_text (pr_ID p) \<and> pg_text roleID \<and> (case j of None \<Rightarrow> True | Some d \<Rightarrow> pg_json d))
               (sql_delete_assignments db (pr_Kind p) (pr_ID p) roleID j)
               (Errorf ''role %q with bindingValues %+v was not assigned to principal %s'' [roleID, '''', pr_ID p]) s))"

section \<open>Disabled built-in roles\<close>

definition pg_DisableBuiltInRole :: "pg_server \<Rightarrow> pg_store \<Rightarrow> string \<Rightarrow> pg_store update" where
  "pg_DisableBuiltInRole db s roleID =
     (if roleID = '''' then (Some (Errorf ''role ID is required'' []), s)
      else pg_write db ''disable built in role'' (pg_text roleID) (sql_disable roleID) s)"

definition pg_EnableBuiltInRole :: "pg_server \<Rightarrow> pg_store \<Rightarrow> string \<Rightarrow> pg_store update" where
  "pg_EnableBuiltInRole db s roleID =
     (if roleID = '''' then (Some (Errorf ''role ID is required'' []), s)
      else pg_write db ''enable built in role'' (pg_text roleID) (sql_enable roleID) s)"

definition pg_DisabledBuiltInRoles :: "pg_server \<Rightarrow> pg_store \<Rightarrow> string list result" where
  "pg_DisabledBuiltInRoles db s =
     attempt (pg_query db ''query disabled built in roles'' True s (\<lambda>t. sort_key (pg_sort_key db) (tb_disabled t)))
       (\<lambda>rows. pg_rows db ''iterate disabled built in roles'' s Inr rows)"

section \<open>Listing grants\<close>

definition query_accepted :: "grant_query \<Rightarrow> bool" where
  "query_accepted q \<longleftrightarrow> list_all (\<lambda>p. principal_type (pr_Kind p) \<and> pg_text (pr_ID p)) (gq_Principals q) \<and>
     list_all pg_text (gq_TeamScopes q @ gq_ObjectScopes q @ gq_Permissions q @ [gq_PermissionPrefix q])"

definition parse_cursor :: "string \<Rightarrow> int option result" where
  "parse_cursor cursor =
     (if cursor = '''' then Inr None
      else case Atoi cursor of
        None \<Rightarrow> Inl (wrap ''invalid cursor'' (Foreign ''invalid syntax''))
      | Some i \<Rightarrow> Inr (Some i))"

definition pg_ListGrants :: "pg_server \<Rightarrow> json_codec \<Rightarrow> pg_store \<Rightarrow> grant_query \<Rightarrow> grant_query_result result" where
  "pg_ListGrants db c s q =
     attempt (pg_query db ''count grants'' (query_accepted q) s (\<lambda>t. int (length (filter (sql_query_matches q) (tb_grants t)))))
     (\<lambda>total. attempt (parse_cursor (gq_Cursor q))
     (\<lambda>after. let limit = list_limit (gq_Limit q) in
       attempt (pg_query db ''query grants list'' (query_accepted q) s (sql_list_grants q after limit))
       (\<lambda>rows. attempt (pg_rows db ''iterate grants list'' s (scan_grant c) rows)
       (\<lambda>grants. Inr \<lparr>qr_Grants = grants,
          qr_NextCursor = (if int (length grants) = limit then Itoa (gr_ID (last grants)) else ''''),
          qr_TotalCount = total\<rparr>))))"

section \<open>The store\<close>

text \<open>\<open>empty_is_nil\<close> says whether callers pass nil where the model has an empty list or map; the service
  hands it on.\<close>

definition postgres_ops :: "pg_server \<Rightarrow> json_codec \<Rightarrow> bool \<Rightarrow> pg_store store_ops" where
  "postgres_ops db c empty_is_nil = \<lparr>
     op_RoleDefinitions = pg_RoleDefinitions db,
     op_RoleDefinition = pg_RoleDefinition db,
     op_CreateRole = pg_CreateRole db,
     op_UpdateRole = pg_UpdateRole db empty_is_nil,
     op_DeleteRole = pg_DeleteRole db,
     op_AddRoleInheritance = pg_AddRoleInheritance db,
     op_RoleAssignmentsForPrincipal = pg_RoleAssignmentsForPrincipal db c,
     op_RoleAssignmentsForRoleID = pg_RoleAssignmentsForRoleID db c,
     op_AssignRole = pg_AssignRole db c,
     op_UnassignRole = (\<lambda>s p roleID builtIns b. pg_UnassignRole db c s p roleID builtIns
       (if empty_is_nil \<and> b = [] then None else Some b)),
     op_GrantsForPrincipal = pg_GrantsForPrincipal db c,
     op_GrantsForOwners = pg_GrantsForOwners db c,
     op_CreateGrant = pg_CreateGrant db c,
     op_PrincipalsWithGrant = pg_PrincipalsWithGrant db,
     op_ExpandRoles = pg_ExpandRoles db,
     op_DeleteGrantsForOwner = pg_DeleteGrantsForOwner db,
     op_DisableBuiltInRole = pg_DisableBuiltInRole db,
     op_EnableBuiltInRole = pg_EnableBuiltInRole db,
     op_DisabledBuiltInRoles = pg_DisabledBuiltInRoles db,
     op_ListGrants = pg_ListGrants db c,
     op_BulkCreateGrants = Some (pg_CreateGrants db c)\<rparr>"

end
