(* ===== verification/Postgres_Runs.thy ===== *)
theory Postgres_Runs
  imports Postgres_Store
begin

text \<open>
  Runs of the PostgreSQL store: what every statement keeps, the constraints that hold in all states
  that can be reached whatever calls fail, and the effect of a failing call.
\<close>

section \<open>What statements keep\<close>

definition keeps :: "('d \<Rightarrow> bool) \<Rightarrow> ('d \<Rightarrow> (nat \<times> 'd) result) \<Rightarrow> bool" where
  "keeps P stmt \<longleftrightarrow> (\<forall>t n t'. P t \<longrightarrow> stmt t = Inr (n, t') \<longrightarrow> P t')"

named_theorems kept \<open>statements that keep the constraints\<close>

lemma pg_exec_keeps:
  assumes "P (db_data s)" "ok \<Longrightarrow> keeps P stmt"
  shows "P (db_data (snd (pg_exec db l ok stmt s)))"
proof (cases "stmt (db_data s)")
  case (Inr r)
  with assms have "ok \<Longrightarrow> P (snd r)" by (cases r) (auto simp: keeps_def)
  with assms(1) Inr show ?thesis by (cases "pg_outcome db l (db_calls s)"; cases r) (auto simp: pg_exec_def)
qed (use assms in \<open>auto simp: pg_exec_def split: outcome.splits\<close>)

lemma pg_write_keeps:
  "P (db_data s) \<Longrightarrow> (ok \<Longrightarrow> keeps P stmt) \<Longrightarrow> P (db_data (snd (pg_write db l ok stmt s)))"
  using pg_exec_keeps [of P s ok stmt db l] by (auto simp: pg_write_def split: prod.splits sum.splits)

lemma pg_affect_keeps:
  "P (db_data s) \<Longrightarrow> (ok \<Longrightarrow> keeps P stmt) \<Longrightarrow> P (db_data (snd (pg_affect db l ok stmt m s)))"
  using pg_exec_keeps [of P s ok stmt db l] by (auto simp: pg_affect_def split: prod.splits sum.splits)

fun step_keeps :: "('d \<Rightarrow> bool) \<Rightarrow> 'd tx_step \<Rightarrow> bool" where
  "step_keeps P (Local e) \<longleftrightarrow> True"
| "step_keeps P (Run l ok stmt) \<longleftrightarrow> (ok \<longrightarrow> keeps P stmt)"

lemma tx_steps_keeps:
  "tx_steps db n steps d = Inr d' \<Longrightarrow> \<forall>st \<in> set steps. step_keeps P st \<Longrightarrow> P d \<Longrightarrow> P d'"
proof (induction steps arbitrary: n d)
  case (Cons st steps)
  then show ?case
  proof (cases st)
    case (Run l ok stmt)
    with Cons.prems(1) obtain m d1 where "ok" "stmt d = Inr (m, d1)" "tx_steps db (Suc n) steps d1 = Inr d'"
      by (auto split: if_splits option.splits sum.splits)
    moreover from this have "P d1" using Cons.prems(2,3) Run by (auto simp: keeps_def)
    ultimately show ?thesis using Cons.IH Cons.prems(2) by auto
  qed (auto split: option.splits)
qed simp

lemma pg_transaction_keeps:
  assumes "P (db_data s)" "\<forall>st \<in> set steps. step_keeps P st"
  shows "P (db_data (snd (pg_transaction db b steps c s)))"
  using assms tx_steps_keeps [of db "db_calls s + 1" steps "db_data s" _ P]
  by (auto simp: pg_transaction_def Let_def split: option.splits sum.splits outcome.splits)

section \<open>Documents that can be read\<close>

text \<open>Go's integers have 64 bits; a document written from such bindings is one that can be read.\<close>

fun in_range :: "goval \<Rightarrow> bool" where
  "in_range (GInt n) \<longleftrightarrow> in_int64 n"
| "in_range (GInt64 n) \<longleftrightarrow> in_int64 n"
| "in_range v \<longleftrightarrow> True"

definition ranged :: "bindings \<Rightarrow> bool" where
  "ranged b \<longleftrightarrow> (\<forall>v \<in> snd ` set b. in_range v)"

definition readable :: "json_codec \<Rightarrow> json \<Rightarrow> bool" where
  "readable c j \<longleftrightarrow> (\<exists>b. decode_map (decode_any c) j = Inr b)"

lemma encode_any_read:
  assumes "codec_laws c" "in_range v" "encode_any c v = Inr j"
  shows "\<exists>w. decode_any c j = Inr w"
proof -
  have "\<exists>w. decode_any c j = Inr w" if "jc_literal c v = Inr j"
    using assms(1) that unfolding codec_laws_def by blast
  moreover have "\<exists>w. jc_number c (Itoa n) = Inr w" if "in_int64 n" for n
    using codec_number [OF assms(1) that] by blast
  ultimately show ?thesis
    using assms(2,3) by (cases v) (auto simp: encode_string_def encode_int_def)
qed

lemma ranged_update: "ranged m \<Longrightarrow> in_range v \<Longrightarrow> ranged (AList.update k v m)"
  by (induction m) (auto simp: ranged_def split: if_splits)

lemma ranged_fold_update: "ranged acc \<Longrightarrow> ranged m \<Longrightarrow> ranged (fold (\<lambda>(k, v) acc. AList.update k v acc) m acc)"
proof (induction m arbitrary: acc)
  case (Cons a m)
  have "in_range (snd a)" "ranged m" using Cons.prems(2) by (simp_all add: ranged_def)
  with Cons.IH [OF ranged_update [OF Cons.prems(1)], of "snd a" "fst a"] show ?case by (simp add: split_beta)
qed simp

lemma ranged_copy_map: "ranged b \<Longrightarrow> ranged (copy_map b)"
  using ranged_fold_update [of "[]" b] by (simp add: copy_map_def ranged_def)

lemma encode_map_readable:
  assumes laws: "codec_laws c" and "ranged b" "encode_map (encode_any c) b = Inr j"
  shows "readable c j"
proof -
  obtain ms where ms: "collect (\<lambda>(k, v). attempt (encode_any c v) (\<lambda>j. Inr (coerce_text k, j))) b = Inr ms" "j = JObject ms"
    using assms(3) by (auto simp: encode_map_def)
  have "\<exists>m. collect (\<lambda>(k, j). attempt (decode_any c j) (\<lambda>v. Inr (k, v))) ms = Inr m"
    using ms(1) assms(2)
  proof (induction b arbitrary: ms)
    case (Cons a b)
    obtain k v where a: "a = (k, v)" by fastforce
    with Cons.prems obtain j' ms' where step: "encode_any c v = Inr j'" "ms = (coerce_text k, j') # ms'"
      "collect (\<lambda>(k, v). attempt (encode_any c v) (\<lambda>j. Inr (coerce_text k, j))) b = Inr ms'"
      by auto
    have "in_range v" "ranged b" using Cons.prems(2) a by (auto simp: ranged_def)
    with Cons.IH [OF step(3)] encode_any_read [OF laws _ step(1)] step(2) show ?case by auto
  qed simp
  then show ?thesis by (auto simp: readable_def decode_map_def ms(2))
qed

lemma encode_bindings_readable: "codec_laws c \<Longrightarrow> ranged b \<Longrightarrow> encode_bindings c b = Inr j \<Longrightarrow> readable c j"
  unfolding encode_bindings_def by (rule encode_map_readable) (auto intro: ranged_copy_map)

section \<open>The constraints\<close>

definition grant_row_ok :: "json_codec \<Rightarrow> grant_row \<Rightarrow> bool" where
  "grant_row_ok c g \<longleftrightarrow> principal_type (gw_owner_kind g) \<and> grant_effect (gw_effect g) \<and> gw_owner_id g \<noteq> '''' \<and>
     gw_permission_name g \<noteq> '''' \<and> gw_team_scope g \<noteq> '''' \<and> readable c (gw_variable_spec g)"

definition assignment_row_ok :: "json_codec \<Rightarrow> assignment_row \<Rightarrow> bool" where
  "assignment_row_ok c x \<longleftrightarrow> PrincipalRef_Validate \<lparr>pr_Kind = aw_principal_kind x, pr_ID = aw_principal_id x\<rparr> = None \<and>
     assignable_kind (aw_principal_kind x) \<and> aw_role_id x \<noteq> '''' \<and> readable c (aw_binding_values x)"

text \<open>Keys are unique, the numbers of grants ascend and fit \<open>bigint\<close>, and every row can be read.\<close>

definition pg_constraints :: "pg_server \<Rightarrow> json_codec \<Rightarrow> pg_tables \<Rightarrow> bool" where
  "pg_constraints db c t \<longleftrightarrow>
     distinct (map rr_id (tb_roles t)) \<and> distinct (map rr_code (tb_roles t)) \<and>
     (\<forall>r \<in> set (tb_roles t). rr_id r \<noteq> '''' \<and> rr_code r \<noteq> '''') \<and>
     distinct (tb_inheritance t) \<and> distinct (map (\<lambda>x. (fst x, fst (snd x))) (tb_closure t)) \<and> distinct (tb_disabled t) \<and>
     sorted_wrt (\<lambda>x y. \<not> same_assignment db x y) (tb_assignments t) \<and>
     (\<forall>x \<in> set (tb_assignments t). assignment_row_ok c x) \<and>
     sorted_wrt (\<lambda>g h. gw_id g < gw_id h) (tb_grants t) \<and>
     (\<forall>g \<in> set (tb_grants t). 0 < gw_id g \<and> gw_id g \<le> tb_grant_seq t \<and> grant_row_ok c g) \<and>
     0 \<le> tb_grant_seq t \<and> tb_grant_seq t \<le> max_bigint"

lemma constraints_no_rows [simp]: "pg_constraints db c no_rows"
  by (simp add: pg_constraints_def no_rows_def max_bigint_def)

lemmas constraints_kept =
  pg_write_keeps [where P = "pg_constraints db c" for db c]
  pg_affect_keeps [where P = "pg_constraints db c" for db c]
  pg_transaction_keeps [where P = "pg_constraints db c" for db c]

lemma keepsI: "(\<And>t n t'. P t \<Longrightarrow> stmt t = Inr (n, t') \<Longrightarrow> P t') \<Longrightarrow> keeps P stmt"
  by (auto simp: keeps_def)

lemma sorted_wrt_map_filter [simp]: "sorted_wrt R xs \<Longrightarrow> sorted_wrt R (filter P xs)"
  by (rule sorted_wrt_filter)

lemma distinct_map_filter_row: "distinct (map f xs) \<Longrightarrow> distinct (map f (filter P xs))"
  by (rule distinct_map_filter)

lemma distinct_replace:
  assumes "distinct (map f xs)" "\<forall>x \<in> set xs. \<not> P x \<longrightarrow> f x \<noteq> f y" "distinct (map g xs)" "\<And>x. x \<in> set xs \<Longrightarrow> P x \<longleftrightarrow> g x = g y"
  shows "distinct (map f (map (\<lambda>x. if P x then y else x) xs))"
  using assms
proof (induction xs)
  case (Cons x xs)
  show ?case
  proof (cases "P x")
    case True
    then have "\<forall>z \<in> set xs. \<not> P z" using Cons.prems(3,4) by (auto simp: image_iff)
    moreover from this have "map (\<lambda>x. if P x then y else x) xs = xs" by (simp add: map_idI)
    ultimately show ?thesis using True Cons.prems by (auto simp: image_iff)
  next
    case False
    with Cons show ?thesis by (auto simp: image_iff split: if_splits)
  qed
qed simp

lemma keeps_roles [kept]:
  "rr_id row \<noteq> '''' \<Longrightarrow> rr_code row \<noteq> '''' \<Longrightarrow> keeps (pg_constraints db c) (sql_insert_role row)"
  "rr_id row \<noteq> '''' \<Longrightarrow> rr_code row \<noteq> '''' \<Longrightarrow> keeps (pg_constraints db c) (sql_update_role b row)"
  "keeps (pg_constraints db c) (sql_delete_role r)"
proof -
  assume row: "rr_id row \<noteq> ''''" "rr_code row \<noteq> ''''"
  show "keeps (pg_constraints db c) (sql_insert_role row)"
    using row by (intro keepsI) (auto simp: sql_insert_role_def pg_constraints_def list_ex_iff split: if_splits)
  show "keeps (pg_constraints db c) (sql_update_role b row)"
  proof (rule keepsI)
    fix t n t'
    assume t: "pg_constraints db c t" and upd: "sql_update_role b row t = Inr (n, t')"
    let ?rows = "map (\<lambda>r. if rr_id r = rr_id row then row else r) (tb_roles t)"
    consider "t' = t" | "t' = t\<lparr>tb_roles := ?rows\<rparr>" "\<forall>r \<in> set (tb_roles t). rr_id r \<noteq> rr_id row \<longrightarrow> rr_code r \<noteq> rr_code row"
      using upd by (auto simp: sql_update_role_def list_ex_iff split: if_splits)
    then show "pg_constraints db c t'"
    proof cases
      case 2
      have "distinct (map rr_id (tb_roles t))" "distinct (map rr_code (tb_roles t))" using t by (simp_all add: pg_constraints_def)
      then have "distinct (map rr_id ?rows)" "distinct (map rr_code ?rows)"
        using 2(2) by (auto intro!: distinct_replace [where g = rr_id] simp del: map_map)
      then show ?thesis using t row unfolding 2(1) by (auto simp: pg_constraints_def simp del: map_map)
    qed (use t in simp)
  qed
next
  show "keeps (pg_constraints db c) (sql_delete_role r)"
    by (intro keepsI) (auto simp: sql_delete_role_def pg_constraints_def distinct_map_filter_row)
qed

lemma distinct_add_pair:
  "distinct (map (\<lambda>x. (fst x, fst (snd x))) rows) \<Longrightarrow> distinct (map (\<lambda>x. (fst x, fst (snd x))) (add_pair x rows))"
  by (auto simp: add_pair_def list_ex_iff)

lemma distinct_fold_add_pair:
  "distinct (map (\<lambda>x. (fst x, fst (snd x))) rows) \<Longrightarrow> distinct (map (\<lambda>x. (fst x, fst (snd x))) (fold add_pair xs rows))"
  by (induction xs arbitrary: rows) (auto intro: distinct_add_pair)

lemma keeps_inheritance [kept]:
  "keeps (pg_constraints db c) (sql_insert_self_closure r)"
  "keeps (pg_constraints db c) (sql_insert_edge p q)"
  "keeps (pg_constraints db c) (sql_extend_closure p q)"
  "keeps (pg_constraints db c) (sql_disable r)"
  "keeps (pg_constraints db c) (sql_enable r)"
  by (intro keepsI; auto simp: sql_insert_self_closure_def sql_insert_edge_def sql_extend_closure_def sql_disable_def
      sql_enable_def pg_constraints_def Let_def distinct_add_pair distinct_fold_add_pair split: if_splits)+

lemma keeps_assignments [kept]:
  "assignment_row_ok c row \<Longrightarrow> keeps (pg_constraints db c) (sql_insert_assignment db row)"
  "keeps (pg_constraints db c) (sql_delete_assignments db k i r b)"
  by (intro keepsI; auto simp: sql_insert_assignment_def sql_delete_assignments_def pg_constraints_def list_ex_iff
      sorted_wrt_append split: if_splits)+

lemma keeps_grants [kept]:
  "grant_row_ok c row \<Longrightarrow> keeps (pg_constraints db c) (sql_insert_grant skip row)"
  "keeps (pg_constraints db c) (sql_delete_grants k i)"
  "keeps (pg_constraints db c) (\<lambda>t. Inr (0, t))"
proof -
  assume "grant_row_ok c row"
  then have "grant_row_ok c (row\<lparr>gw_id := i\<rparr>)" for i by (simp add: grant_row_ok_def)
  then show "keeps (pg_constraints db c) (sql_insert_grant skip row)"
    by (intro keepsI) (auto simp: sql_insert_grant_def pg_constraints_def Let_def sorted_wrt_append split: if_splits; force)
qed (intro keepsI; auto simp: sql_delete_grants_def pg_constraints_def)+

section \<open>Reachable states\<close>

text \<open>One event per writing method. \<open>ranged\<close> restricts the arguments to integers that Go has.\<close>

datatype pg_call =
    PgWrite store_write
  | PgCreateGrants "grant list"
  | PgUnassignAll principal_ref string "role list"

fun pg_run :: "pg_server \<Rightarrow> json_codec \<Rightarrow> bool \<Rightarrow> pg_call \<Rightarrow> pg_store \<Rightarrow> pg_store update" where
  "pg_run db c e (PgWrite w) s = run_write (postgres_ops db c e) w s"
| "pg_run db c e (PgCreateGrants gs) s = pg_CreateGrants db c s gs"
| "pg_run db c e (PgUnassignAll p r bs) s = pg_UnassignRole db c s p r bs None"

definition grant_ranged :: "grant \<Rightarrow> bool" where
  "grant_ranged g \<longleftrightarrow> (case gr_VariableSpec g of None \<Rightarrow> True | Some m \<Rightarrow> ranged m)"

fun call_ranged :: "pg_call \<Rightarrow> bool" where
  "call_ranged (PgWrite (WCreateGrant g)) \<longleftrightarrow> grant_ranged g"
| "call_ranged (PgWrite (WAssignRole p r bs b)) \<longleftrightarrow> ranged b"
| "call_ranged (PgCreateGrants gs) \<longleftrightarrow> (\<forall>g \<in> set gs. grant_ranged g)"
| "call_ranged w \<longleftrightarrow> True"

inductive pg_reachable :: "pg_server \<Rightarrow> json_codec \<Rightarrow> pg_store \<Rightarrow> bool" for db c where
  start: "db_data s = no_rows \<Longrightarrow> pg_reachable db c s"
| step: "pg_reachable db c s \<Longrightarrow> call_ranged w \<Longrightarrow> pg_reachable db c (snd (pg_run db c e w s))"

lemma new_grant_row_ok:
  assumes "codec_laws c" "grant_ranged g" "grant_required g = None" "spec_document c g = Inr spec" "grant_accepted g spec"
  shows "grant_row_ok c (row_of_grant db g spec)"
proof -
  have "ranged (case gr_VariableSpec g of None \<Rightarrow> [] | Some m \<Rightarrow> m)"
    using assms(2) by (auto simp: grant_ranged_def ranged_def split: option.splits)
  from encode_bindings_readable [OF assms(1) this] assms(4) have "readable c spec" by (simp add: spec_document_def)
  with assms(3,5) show ?thesis
    by (auto simp: grant_row_ok_def row_of_grant_def grant_accepted_def grant_required_def split: if_splits)
qed

lemma new_assignment_row_ok:
  assumes "codec_laws c" "ranged b" "assignment_checks db s p r bs = None" "encode_bindings c b = Inr j"
  shows "assignment_row_ok c \<lparr>aw_principal_kind = pr_Kind p, aw_principal_id = pr_ID p, aw_role_id = r, aw_binding_values = j\<rparr>"
proof -
  have "PrincipalRef_Validate p = None" "assignable_kind (pr_Kind p)" "r \<noteq> ''''"
    using assms(3) by (auto simp: assignment_checks_def split: option.splits if_splits)
  then show ?thesis
    using encode_bindings_readable [OF assms(1,2,4)] by (cases p) (simp add: assignment_row_ok_def)
qed

lemma tx_steps_local_error:
  "\<exists>g \<in> set gs. f g \<noteq> None \<Longrightarrow> \<exists>e. tx_steps db n (map (\<lambda>g. Local (f g)) gs @ steps) d = Inl e"
  by (induction gs) (auto split: option.splits)

lemma pg_transaction_aborted:
  assumes "\<And>n. \<exists>e. tx_steps db n steps (db_data s) = Inl e"
  shows "db_data (snd (pg_transaction db b steps c s)) = db_data s"
proof -
  obtain e where "tx_steps db (db_calls s + 1) steps (db_data s) = Inl e" using assms by blast
  then show ?thesis by (simp add: pg_transaction_def Let_def split: option.splits)
qed

lemma CreateGrants_keeps:
  assumes "codec_laws c" "\<forall>g \<in> set gs. grant_ranged g" "pg_constraints db c (db_data s)"
  shows "pg_constraints db c (db_data (snd (pg_CreateGrants db c s gs)))"
proof (cases "\<forall>g \<in> set gs. batch_check c g = None")
  case True
  have "step_keeps (pg_constraints db c) (batch_insert db c k g)" if "g \<in> set gs" for g k
  proof (cases "spec_document c g")
    case (Inr spec)
    have "grant_required g = None" using True that by (auto simp: batch_check_def split: option.splits)
    moreover have "grant_ranged g" using assms(2) that by blast
    ultimately show ?thesis
      using new_grant_row_ok [OF assms(1) _ _ Inr] Inr by (simp add: batch_insert_def keeps_grants)
  qed (simp add: batch_insert_def)
  with assms(3) show ?thesis
    unfolding pg_CreateGrants_def by (auto intro!: constraints_kept(3) simp: keeps_grants)
next
  case False
  then have "\<exists>g \<in> set gs. batch_check c g \<noteq> None" by blast
  then have "db_data (snd (pg_CreateGrants db c s gs)) = db_data s"
    unfolding pg_CreateGrants_def by (simp add: pg_transaction_aborted tx_steps_local_error)
  with assms(3) show ?thesis by simp
qed

lemma role_writes_keep:
  assumes t: "pg_constraints db c (db_data s)"
  shows "pg_constraints db c (db_data (snd (pg_CreateRole db s role)))"
    "pg_constraints db c (db_data (snd (pg_UpdateRole db e s role)))"
    "pg_constraints db c (db_data (snd (pg_DeleteRole db s r)))"
    "pg_constraints db c (db_data (snd (pg_AddRoleInheritance db s p q)))"
    "pg_constraints db c (db_data (snd (pg_DisableBuiltInRole db s r)))"
    "pg_constraints db c (db_data (snd (pg_EnableBuiltInRole db s r)))"
proof -
  have row: "rr_id (row_of_role role) = ro_ID role" "rr_code (row_of_role role) = ro_Name role"
    by (simp_all add: row_of_role_def)
  show "pg_constraints db c (db_data (snd (pg_CreateRole db s role)))"
  proof (cases "ro_ID role = '''' \<or> ro_Name role = ''''")
    case False
    then have "pg_constraints db c (db_data (snd (pg_transaction db b
       [Run l ok (sql_insert_role (row_of_role role)), Run l' ok' (sql_insert_self_closure (ro_ID role))] d s)))" for b l ok l' ok' d
      by (intro constraints_kept(3) t) (simp add: keeps_roles keeps_inheritance row)
    with False t show ?thesis by (simp add: pg_CreateRole_def split: sum.split bool.split)
  qed (use t in \<open>auto simp: pg_CreateRole_def\<close>)
  show "pg_constraints db c (db_data (snd (pg_UpdateRole db e s role)))"
  proof (cases "ro_ID role = '''' \<or> ro_Name role = ''''")
    case False
    then have "pg_constraints db c (db_data (snd (pg_affect db l ok (sql_update_role b (row_of_role role)) m s)))" for l ok b m
      by (intro constraints_kept(2) t keeps_roles) (simp_all add: row)
    with False show ?thesis by (simp add: pg_UpdateRole_def)
  qed (use t in \<open>auto simp: pg_UpdateRole_def\<close>)
  show "pg_constraints db c (db_data (snd (pg_DeleteRole db s r)))"
    using t by (simp add: pg_DeleteRole_def constraints_kept(2) keeps_roles)
  show "pg_constraints db c (db_data (snd (pg_AddRoleInheritance db s p q)))"
    using t by (simp add: pg_AddRoleInheritance_def constraints_kept(3) keeps_inheritance)
  show "pg_constraints db c (db_data (snd (pg_DisableBuiltInRole db s r)))"
    "pg_constraints db c (db_data (snd (pg_EnableBuiltInRole db s r)))"
    using t by (simp_all add: pg_DisableBuiltInRole_def pg_EnableBuiltInRole_def constraints_kept(1) keeps_inheritance)
qed

lemma other_writes_keep:
  assumes laws: "codec_laws c" and t: "pg_constraints db c (db_data s)"
  shows "grant_ranged g \<Longrightarrow> pg_constraints db c (db_data (snd (pg_CreateGrant db c s g)))"
    "ranged b \<Longrightarrow> pg_constraints db c (db_data (snd (pg_AssignRole db c s p r bs b)))"
    "pg_constraints db c (db_data (snd (pg_UnassignRole db c s p r bs b')))"
    "pg_constraints db c (db_data (snd (pg_DeleteGrantsForOwner db s k i)))"
proof -
  show "pg_constraints db c (db_data (snd (pg_CreateGrant db c s g)))" if "grant_ranged g"
  proof (cases "grant_required g")
    case None
    show ?thesis
    proof (cases "spec_document c g")
      case (Inr spec)
      have "pg_constraints db c (db_data (snd (pg_write db l (grant_accepted g spec) (sql_insert_grant k (row_of_grant db g spec)) s)))"
        for l k by (intro constraints_kept(1) t keeps_grants new_grant_row_ok [OF laws that None Inr])
      with None Inr show ?thesis by (simp add: pg_CreateGrant_def)
    qed (use t None in \<open>simp add: pg_CreateGrant_def\<close>)
  qed (use t in \<open>simp add: pg_CreateGrant_def\<close>)
  show "pg_constraints db c (db_data (snd (pg_AssignRole db c s p r bs b)))" if "ranged b"
  proof (cases "assignment_checks db s p r bs")
    case None
    show ?thesis
    proof (cases "encode_bindings c b")
      case (Inr j)
      have "pg_constraints db c (db_data (snd (pg_write db l ok (sql_insert_assignment db \<lparr>aw_principal_kind = pr_Kind p,
          aw_principal_id = pr_ID p, aw_role_id = r, aw_binding_values = j\<rparr>) s)))" for l ok
        by (intro constraints_kept(1) t keeps_assignments new_assignment_row_ok [OF laws that None Inr])
      with None Inr show ?thesis by (simp add: pg_AssignRole_def)
    qed (use t None in \<open>simp add: pg_AssignRole_def\<close>)
  qed (use t in \<open>simp add: pg_AssignRole_def\<close>)
  show "pg_constraints db c (db_data (snd (pg_UnassignRole db c s p r bs b')))"
    using t by (simp add: pg_UnassignRole_def constraints_kept(2) keeps_assignments split: option.split sum.split)
  show "pg_constraints db c (db_data (snd (pg_DeleteGrantsForOwner db s k i)))"
    using t by (simp add: pg_DeleteGrantsForOwner_def constraints_kept(1) keeps_grants)
qed

lemma run_keeps_constraints:
  assumes "codec_laws c" "pg_constraints db c (db_data s)" "call_ranged w"
  shows "pg_constraints db c (db_data (snd (pg_run db c e w s)))"
proof (cases w)
  case (PgWrite v)
  with assms(3) role_writes_keep [OF assms(2)] other_writes_keep [OF assms(1,2)] show ?thesis
    by (cases v) (simp_all add: postgres_ops_def)
qed (use assms CreateGrants_keeps other_writes_keep(3) [OF assms(1,2)] in simp_all)

lemma pg_reachable_constraints:
  assumes "codec_laws c" "pg_reachable db c s"
  shows "pg_constraints db c (db_data s)"
  using assms(2) by (induction rule: pg_reachable.induct) (auto intro: run_keeps_constraints [OF assms(1)])

end
