(* ===== verification/Postgres_Schema.thy ===== *)
theory Postgres_Schema
  imports Postgres_Server
begin

text \<open>
  \<open>EnsureSchema\<close> of \<open>postgres/store.go\<close>: the catalogue of the database, the kinds of statements
  that change it, the statements of the method, and what running them does to a database that is
  empty, complete or in between. Defaults and checks of columns are not part of the catalogue;
  that a column is NULL or unique shows in the statements of \<open>Postgres_Tables\<close>.
\<close>

section \<open>The catalogue\<close>

record pg_table =
  pt_columns :: "(string \<times> string) list"
  pt_keys :: "string list list"

record pg_schema =
  sc_enums :: "(string, string list) gomap"
  sc_tables :: "(string, pg_table) gomap"
  sc_indexes :: "(string, string \<times> string list) gomap"

definition no_schema :: pg_schema where
  "no_schema = \<lparr>sc_enums = [], sc_tables = [], sc_indexes = []\<rparr>"

text \<open>Tables and indexes share one space of names, and so do types and tables.\<close>

definition relation_exists :: "pg_schema \<Rightarrow> string \<Rightarrow> bool" where
  "relation_exists s n \<longleftrightarrow> map_of (sc_tables s) n \<noteq> None \<or> map_of (sc_indexes s) n \<noteq> None"

definition type_exists :: "pg_schema \<Rightarrow> string \<Rightarrow> bool" where
  "type_exists s n \<longleftrightarrow> map_of (sc_enums s) n \<noteq> None \<or> map_of (sc_tables s) n \<noteq> None"

definition has_column :: "pg_schema \<Rightarrow> string \<Rightarrow> string \<Rightarrow> bool" where
  "has_column s t c \<longleftrightarrow> (case map_of (sc_tables s) t of None \<Rightarrow> False | Some tb \<Rightarrow> list_ex (\<lambda>x. fst x = c) (pt_columns tb))"

definition has_label :: "pg_schema \<Rightarrow> string \<Rightarrow> string \<Rightarrow> bool" where
  "has_label s n v \<longleftrightarrow> (case map_of (sc_enums s) n of None \<Rightarrow> False | Some vs \<Rightarrow> v \<in> set vs)"

section \<open>Statements\<close>

datatype ddl =
    CreateEnum string "string list"
  | AddValue string string
  | CreateTable string "(string \<times> string) list" "string list list"
  | AddColumn string string string
  | CreateIndex string string "string list"

definition undefined_object :: goerror where
  "undefined_object = Foreign ''object does not exist''"

text \<open>Each statement says what to do when its object is there already: nothing.\<close>

fun run_ddl :: "ddl \<Rightarrow> pg_schema \<Rightarrow> (nat \<times> pg_schema) result" where
  "run_ddl (CreateEnum n vs) s =
     Inr (0, if type_exists s n then s else s\<lparr>sc_enums := AList.update n vs (sc_enums s)\<rparr>)"
| "run_ddl (AddValue n v) s =
     (case map_of (sc_enums s) n of
        None \<Rightarrow> Inl undefined_object
      | Some vs \<Rightarrow> Inr (0, if v \<in> set vs then s else s\<lparr>sc_enums := AList.update n (vs @ [v]) (sc_enums s)\<rparr>))"
| "run_ddl (CreateTable t columns keys) s =
     (if relation_exists s t then Inr (0, s)
      else if type_exists s t then Inl (Foreign ''type already exists'')
      else Inr (0, s\<lparr>sc_tables := AList.update t \<lparr>pt_columns = columns, pt_keys = keys\<rparr> (sc_tables s)\<rparr>))"
| "run_ddl (AddColumn t c ty) s =
     (case map_of (sc_tables s) t of
        None \<Rightarrow> Inl undefined_object
      | Some tb \<Rightarrow> Inr (0, if has_column s t c then s
          else s\<lparr>sc_tables := AList.update t (tb\<lparr>pt_columns := pt_columns tb @ [(c, ty)]\<rparr>) (sc_tables s)\<rparr>))"
| "run_ddl (CreateIndex i t columns) s =
     (if map_of (sc_tables s) t = None then Inl undefined_object
      else if relation_exists s i then Inr (0, s)
      else if \<not> list_all (has_column s t) columns then Inl undefined_object
      else Inr (0, s\<lparr>sc_indexes := AList.update i (t, columns) (sc_indexes s)\<rparr>))"

definition schema_statements :: "ddl list" where
  "schema_statements =
    [CreateEnum ''principal_type'' [''user'', ''group'', ''team'', ''role''],
     AddValue ''principal_type'' ''team'',
     CreateEnum ''grant_effect'' [''allow'', ''deny''],
     CreateTable ''roles'' [(''id'', ''text''), (''code'', ''text''), (''description'', ''text''), (''built_in'', ''boolean''),
       (''is_disabled'', ''boolean''), (''created_at'', ''timestamptz''), (''updated_at'', ''timestamptz'')]
       [[''id''], [''code'']],
     AddColumn ''roles'' ''built_in'' ''boolean'',
     AddColumn ''roles'' ''is_disabled'' ''boolean'',
     AddColumn ''roles'' ''scope'' ''text'',
     AddColumn ''roles'' ''tags'' ''text[]'',
     AddColumn ''roles'' ''permissions'' ''text[]'',
     CreateTable ''role_inheritance'' [(''parent_role_id'', ''text''), (''child_role_id'', ''text'')]
       [[''parent_role_id'', ''child_role_id'']],
     CreateTable ''role_closure'' [(''ancestor_role_id'', ''text''), (''descendant_role_id'', ''text''), (''depth'', ''int'')]
       [[''ancestor_role_id'', ''descendant_role_id'']],
     CreateTable ''principal_roles'' [(''id'', ''bigserial''), (''principal_kind'', ''principal_type''),
       (''principal_id'', ''text''), (''role_id'', ''text''), (''binding_values'', ''jsonb''), (''created_at'', ''timestamptz'')]
       [[''id''], [''principal_kind'', ''principal_id'', ''role_id'', ''binding_values'']],
     CreateTable ''disabled_builtin_roles'' [(''role_id'', ''text''), (''disabled_at'', ''timestamptz'')] [[''role_id'']],
     CreateTable ''permission_grants'' [(''id'', ''bigserial''), (''owner_kind'', ''principal_type''), (''owner_id'', ''text''),
       (''effect'', ''grant_effect''), (''team_scope'', ''text''), (''object_scope'', ''text''), (''permission_name'', ''text''),
       (''expires_at'', ''timestamptz''), (''field_allowlist'', ''text[]''), (''variable_spec'', ''jsonb''),
       (''created_at'', ''timestamptz''), (''updated_at'', ''timestamptz'')] [[''id'']],
     AddColumn ''permission_grants'' ''expires_at'' ''timestamptz'',
     CreateIndex ''idx_role_assignments_principal'' ''principal_roles'' [''principal_kind'', ''principal_id'', ''role_id''],
     CreateIndex ''idx_role_closure_ancestor'' ''role_closure'' [''ancestor_role_id'', ''descendant_role_id''],
     CreateIndex ''idx_permission_grants_owner_perm'' ''permission_grants'' [''owner_kind'', ''owner_id'', ''permission_name''],
     CreateIndex ''idx_permission_grants_match'' ''permission_grants''
       [''team_scope'', ''object_scope'', ''permission_name'', ''effect''],
     CreateIndex ''idx_permission_grants_object'' ''permission_grants'' [''object_scope''],
     CreateIndex ''idx_permission_grants_perm_pattern'' ''permission_grants'' [''permission_name'']]"

definition pg_EnsureSchema :: "pg_server \<Rightarrow> pg_schema database \<Rightarrow> pg_schema database update" where
  "pg_EnsureSchema db s =
     pg_transaction db ''begin schema transaction''
       (map (\<lambda>d. Run ''ensure schema statement failed'' True (run_ddl d)) schema_statements)
       ''commit schema transaction'' s"

section \<open>Statements that have nothing left to do\<close>

fun ddl_done :: "ddl \<Rightarrow> pg_schema \<Rightarrow> bool" where
  "ddl_done (CreateEnum n vs) s \<longleftrightarrow> type_exists s n"
| "ddl_done (AddValue n v) s \<longleftrightarrow> has_label s n v"
| "ddl_done (CreateTable t columns keys) s \<longleftrightarrow> relation_exists s t"
| "ddl_done (AddColumn t c ty) s \<longleftrightarrow> has_column s t c"
| "ddl_done (CreateIndex i t columns) s \<longleftrightarrow> map_of (sc_tables s) t \<noteq> None \<and> relation_exists s i"

text \<open>What a schema has, a larger schema has as well.\<close>

definition schema_le :: "pg_schema \<Rightarrow> pg_schema \<Rightarrow> bool" where
  "schema_le s s' \<longleftrightarrow> has_label s \<le> has_label s' \<and> has_column s \<le> has_column s' \<and>
     dom (map_of (sc_enums s)) \<subseteq> dom (map_of (sc_enums s')) \<and> dom (map_of (sc_tables s)) \<subseteq> dom (map_of (sc_tables s')) \<and>
     dom (map_of (sc_indexes s)) \<subseteq> dom (map_of (sc_indexes s'))"

lemma schema_le_refl [simp]: "schema_le s s"
  by (simp add: schema_le_def)

lemma schema_le_trans: "schema_le s s' \<Longrightarrow> schema_le s' s'' \<Longrightarrow> schema_le s s''"
  unfolding schema_le_def by (meson order_trans)

lemmas schema_parts = relation_exists_def type_exists_def has_column_def has_label_def

lemma run_ddl_extends: "run_ddl d s = Inr (n, s') \<Longrightarrow> schema_le s s'"
  by (cases d) (auto simp: schema_le_def le_fun_def schema_parts split: if_splits option.splits)

lemma run_ddl_done: "run_ddl d s = Inr (n, s') \<Longrightarrow> ddl_done d s'"
  by (cases d) (auto simp: schema_parts split: if_splits option.splits)

lemma ddl_done_mono: "ddl_done d s \<Longrightarrow> schema_le s s' \<Longrightarrow> ddl_done d s'"
  by (cases d) (auto simp: schema_le_def le_fun_def relation_exists_def type_exists_def)

lemma done_ddl_idle: "ddl_done d s \<Longrightarrow> run_ddl d s = Inr (0, s)"
  by (cases d) (auto simp: schema_parts split: option.splits)

section \<open>The whole method\<close>

lemma ddl_steps:
  assumes "tx_steps db n (map (\<lambda>d. Run l True (run_ddl d)) ds) s = Inr s'"
  shows "schema_le s s' \<and> (\<forall>d \<in> set ds. ddl_done d s')"
  using assms
proof (induction ds arbitrary: n s)
  case (Cons d ds)
  then obtain m s1 where s1: "run_ddl d s = Inr (m, s1)" "tx_steps db (Suc n) (map (\<lambda>d. Run l True (run_ddl d)) ds) s1 = Inr s'"
    by (auto split: option.splits sum.splits)
  with Cons.IH [OF s1(2)] show ?case
    using run_ddl_extends [OF s1(1)] run_ddl_done [OF s1(1)] ddl_done_mono schema_le_trans by auto
qed simp

lemma done_steps_idle:
  "(\<forall>d \<in> set ds. ddl_done d s) \<Longrightarrow> tx_steps (no_faults db) n (map (\<lambda>d. Run l True (run_ddl d)) ds) s = Inr s"
  by (induction ds arbitrary: n) (simp_all add: done_ddl_idle)

lemma EnsureSchema_None:
  assumes "pg_EnsureSchema db s = (None, s')"
  shows "schema_le (db_data s) (db_data s') \<and> (\<forall>d \<in> set schema_statements. ddl_done d (db_data s'))"
proof -
  obtain n where "tx_steps db n (map (\<lambda>d. Run ''ensure schema statement failed'' True (run_ddl d)) schema_statements)
      (db_data s) = Inr (db_data s')"
    using assms by (auto simp: pg_EnsureSchema_def pg_transaction_def Let_def split: option.splits sum.splits outcome.splits)
  then show ?thesis by (rule ddl_steps)
qed

text \<open>
  Ensuring the schema never takes anything away; it can be repeated at every start, since a second
  run changes nothing and succeeds unless the server fails; and an error leaves the schema as it was
  or complete.
\<close>

lemma ensure_schema_idempotent:
  assumes "pg_EnsureSchema db s = (None, s')"
  shows "schema_le (db_data s) (db_data s')"
    "fst (pg_EnsureSchema (no_faults db') s') = None" "db_data (snd (pg_EnsureSchema (no_faults db') s')) = db_data s'"
  using EnsureSchema_None [OF assms]
  by (simp_all add: pg_EnsureSchema_def pg_transaction_def Let_def done_steps_idle)

lemma ensure_schema_all_or_nothing:
  "all_or_nothing s (pg_EnsureSchema db s) (pg_EnsureSchema (no_faults db) s)"
  by (simp add: pg_EnsureSchema_def pg_transaction_atomic)

text \<open>The columns that the store's statements name.\<close>

definition store_columns :: "(string \<times> string list) list" where
  "store_columns =
    [(''roles'', [''id'', ''code'', ''description'', ''built_in'', ''is_disabled'', ''scope'', ''tags'', ''permissions'', ''updated_at'']),
     (''role_inheritance'', [''parent_role_id'', ''child_role_id'']),
     (''role_closure'', [''ancestor_role_id'', ''descendant_role_id'', ''depth'']),
     (''principal_roles'', [''principal_kind'', ''principal_id'', ''role_id'', ''binding_values'']),
     (''disabled_builtin_roles'', [''role_id'']),
     (''permission_grants'', [''id'', ''owner_kind'', ''owner_id'', ''effect'', ''team_scope'', ''object_scope'', ''permission_name'',
       ''expires_at'', ''field_allowlist'', ''variable_spec''])]"

definition store_ready :: "pg_schema \<Rightarrow> bool" where
  "store_ready s \<longleftrightarrow> list_all (\<lambda>(t, cs). list_all (has_column s t) cs) store_columns"

lemma store_ready_mono: "store_ready s \<Longrightarrow> schema_le s s' \<Longrightarrow> store_ready s'"
  by (fastforce simp: store_ready_def list_all_iff schema_le_def le_fun_def)

fun run_all :: "ddl list \<Rightarrow> pg_schema \<Rightarrow> pg_schema result" where
  "run_all [] s = Inr s"
| "run_all (d # ds) s = attempt (run_ddl d s) (\<lambda>r. run_all ds (snd r))"

lemma run_all_steps:
  "run_all ds s = Inr s' \<Longrightarrow> tx_steps (no_faults db) n (map (\<lambda>d. Run l True (run_ddl d)) ds) s = Inr s'"
  by (induction ds arbitrary: n s) (auto split: sum.splits)

definition full_schema :: pg_schema where
  "full_schema = projr (run_all schema_statements no_schema)"

lemma full_schema_reached: "run_all schema_statements no_schema = Inr full_schema" and full_schema_ready: "store_ready full_schema"
  by code_simp+

text \<open>A new database becomes ready for the store. In an older one \<open>create table if not exists\<close> adds
  nothing to a table that exists: the columns that no later statement adds must be there already.\<close>

lemma new_database_ready:
  assumes "db_data s = no_schema"
  shows "fst (pg_EnsureSchema (no_faults db) s) = None" "store_ready (db_data (snd (pg_EnsureSchema (no_faults db) s)))"
  using assms by (simp_all add: pg_EnsureSchema_def pg_transaction_def Let_def run_all_steps [OF full_schema_reached] full_schema_ready)

lemma ready_stays:
  "store_ready (db_data s) \<Longrightarrow> pg_EnsureSchema db s = (None, s') \<Longrightarrow> store_ready (db_data s')"
  using EnsureSchema_None store_ready_mono by blast

end
