(* ===== verification/Postgres_Properties.thy ===== *)
theory Postgres_Properties
  imports Postgres_Runs Postgres_Schema Json_Recovery
begin

text \<open>
  What the PostgreSQL store guarantees, and where it differs from the other stores.
\<close>

section \<open>A server to compute with\<close>

definition demo_server :: pg_server where
  "demo_server = \<lparr>pg_outcome = (\<lambda>_ _. Succeeds), pg_time = (\<lambda>t. t), pg_same_json = (=), pg_skip = (\<lambda>_. 0),
     pg_sort_key = (\<lambda>s. s)\<rparr>"

text \<open>A server whose third call is carried out but not answered.\<close>

definition flaky_server :: pg_server where
  "flaky_server = demo_server\<lparr>pg_outcome := (\<lambda>_ n. if n = 2 then Lost (Foreign ''connection reset'') else Succeeds)\<rparr>"

definition demo_database :: pg_store where
  "demo_database = \<lparr>db_data = no_rows, db_calls = 0\<rparr>"

lemma demo_database_reachable: "pg_reachable db c demo_database"
  by (rule pg_reachable.start) (simp add: demo_database_def)

section \<open>Well-formed rows\<close>

text \<open>C9. In every state that calls reach, failing ones included, the rows meet the constraints of the
  schema and every row can be read: keys are unique, the numbers of grants ascend within
  \<open>bigint\<close>, the holder of every assignment is a valid user, group or team, and no stored document
  makes a read fail.\<close>

theorem postgres_rows_wellformed:
  assumes "codec_laws c" "pg_reachable db c s"
  shows "distinct (map rr_id (tb_roles (db_data s))) \<and> distinct (map rr_code (tb_roles (db_data s))) \<and>
    sorted_wrt (<) (map gw_id (tb_grants (db_data s))) \<and>
    (\<forall>g \<in> set (tb_grants (db_data s)). 0 < gw_id g \<and> gw_id g \<le> max_bigint \<and> (\<exists>g'. scan_grant c g = Inr g')) \<and>
    (\<forall>x \<in> set (tb_assignments (db_data s)). \<exists>h. scan_hit c x = Inr h \<and> PrincipalRef_Validate (rh_Principal h) = None \<and>
      pr_Kind (rh_Principal h) \<in> {PrincipalUser, PrincipalGroup, PrincipalTeam})"
  using pg_reachable_constraints [OF assms]
  by (auto simp: pg_constraints_def sorted_wrt_map grant_row_ok_def assignment_row_ok_def scan_grant_def scan_hit_def
      scan_bindings_def readable_def wrapped_def assignable_kind_def)

theorem postgres_rows_wellformed_witness:
  "sorted_wrt (<) (map gw_id (tb_grants (db_data (snd (pg_CreateGrants flaky_server demo_codec demo_database [demo_grant, demo_grant])))))"
proof -
  have "pg_reachable flaky_server demo_codec (snd (pg_run flaky_server demo_codec True (PgCreateGrants [demo_grant, demo_grant]) demo_database))"
    by (intro pg_reachable.step demo_database_reachable) (simp add: grant_ranged_def demo_grant_def)
  from postgres_rows_wellformed [OF demo_codec_laws this] show ?thesis by simp
qed

section \<open>Failing calls\<close>

lemma pg_query_no_fault_Inr: "pg_query db l ok s f = Inr r \<Longrightarrow> pg_query (no_faults db) l ok s f = Inr r"
  by (auto simp: pg_query_def split: if_splits option.splits)

lemma same_conditions [simp]:
  "same_assignment (no_faults db) = same_assignment db"
  "deleted_assignment (no_faults db) = deleted_assignment db"
  "row_of_grant (no_faults db) = row_of_grant db"
  by (simp_all add: fun_eq_iff same_assignment_def deleted_assignment_def row_of_grant_def split: option.split)

lemma same_statements [simp]:
  "sql_insert_assignment (no_faults db) = sql_insert_assignment db"
  "sql_delete_assignments (no_faults db) = sql_delete_assignments db"
  "batch_insert (no_faults db) = batch_insert db"
  by (simp_all add: fun_eq_iff sql_insert_assignment_def sql_delete_assignments_def batch_insert_def split: sum.split)

lemma zero_rows_unchanged:
  "sql_update_role b row t = Inr (0, t') \<Longrightarrow> t' = t"
  "sql_delete_role r t = Inr (0, t') \<Longrightarrow> t' = t"
  "sql_delete_assignments db k i r b' t = Inr (0, t') \<Longrightarrow> t' = t"
  by (auto simp: sql_update_role_def sql_delete_role_def sql_delete_assignments_def filter_id_conv filter_empty_conv
      split: if_splits)

text \<open>
  \<open>AssignRole\<close> and \<open>UnassignRole\<close> go on when the lookup of the role fails, as if the role were
  known: their reference is the call with the role among the built-in ones.
\<close>

definition lookup_fails :: "pg_server \<Rightarrow> pg_store \<Rightarrow> bool" where
  "lookup_fails db s \<longleftrightarrow> client_error (pg_outcome db ''select role'' (db_calls s)) \<noteq> None"

definition assumed_roles :: "bool \<Rightarrow> string \<Rightarrow> role list \<Rightarrow> role list" where
  "assumed_roles failed r bs = (if failed then zero_role\<lparr>ro_ID := r\<rparr> # bs else bs)"

fun trusting :: "bool \<Rightarrow> pg_call \<Rightarrow> pg_call" where
  "trusting failed (PgWrite (WAssignRole p r bs b)) = PgWrite (WAssignRole p r (assumed_roles failed r bs) b)"
| "trusting failed (PgWrite (WUnassignRole p r bs b)) = PgWrite (WUnassignRole p r (assumed_roles failed r bs) b)"
| "trusting failed (PgUnassignAll p r bs) = PgUnassignAll p r (assumed_roles failed r bs)"
| "trusting failed w = w"

lemma trusting_False [simp]: "trusting False w = w"
  by (rule trusting.cases [of "(False, w)"]) (simp_all add: assumed_roles_def)

lemma same_checks:
  "assignment_checks (no_faults db) s p r (assumed_roles (lookup_fails db s) r bs) = assignment_checks db s p r bs"
  by (auto simp: assignment_checks_def pg_query_def lookup_fails_def assumed_roles_def split: option.split bool.split)

lemma CreateRole_atomic: "all_or_nothing s (pg_CreateRole db s role) (pg_CreateRole (no_faults db) s role)"
proof (cases "pg_query db ''check role existence'' (pg_text (ro_ID role)) s (role_stored (ro_ID role))")
  case (Inr b)
  from pg_query_no_fault_Inr [OF this] Inr show ?thesis
    by (cases b) (simp_all add: pg_CreateRole_def pg_transaction_atomic del: pg_query_no_faults)
qed (simp add: pg_CreateRole_def)

lemma UnassignRole_atomic:
  "all_or_nothing s (pg_UnassignRole db c s p r bs b)
     (pg_UnassignRole (no_faults db) c s p r (assumed_roles (lookup_fails db s) r bs) b)"
  unfolding pg_UnassignRole_def same_checks
  by (auto split: option.split sum.split intro: pg_affect_atomic dest: zero_rows_unchanged(3))

lemma AssignRole_atomic:
  "all_or_nothing s (pg_AssignRole db c s p r bs b)
     (pg_AssignRole (no_faults db) c s p r (assumed_roles (lookup_fails db s) r bs) b)"
  unfolding pg_AssignRole_def same_checks
  by (auto split: option.split sum.split intro: pg_write_atomic)

lemma write_atomic:
  "all_or_nothing s (pg_run db c e (PgWrite w) s) (pg_run (no_faults db) c e (trusting (lookup_fails db s) (PgWrite w)) s)"
proof (cases w)
  case (WUpdateRole r)
  then show ?thesis
    by (auto simp: postgres_ops_def pg_UpdateRole_def intro: pg_affect_atomic dest: zero_rows_unchanged(1))
next
  case (WDeleteRole r)
  then show ?thesis
    by (auto simp: postgres_ops_def pg_DeleteRole_def intro: pg_affect_atomic dest: zero_rows_unchanged(2))
next
  case (WCreateGrant g)
  then show ?thesis
    by (auto simp: postgres_ops_def pg_CreateGrant_def intro: pg_write_atomic split: option.split sum.split)
qed (simp_all add: postgres_ops_def CreateRole_atomic AssignRole_atomic UnassignRole_atomic
    pg_AddRoleInheritance_def pg_transaction_atomic pg_DeleteGrantsForOwner_def pg_DisableBuiltInRole_def
    pg_EnableBuiltInRole_def pg_write_atomic)

lemma run_atomic:
  "all_or_nothing s (pg_run db c e w s) (pg_run (no_faults db) c e (trusting (lookup_fails db s) w) s)"
proof (cases w)
  case (PgCreateGrants gs)
  have "all_or_nothing s (pg_CreateGrants db c s gs) (pg_CreateGrants (no_faults db) c s gs)"
  proof (cases "gs = []")
    case False
    have "pg_CreateGrants db' c s gs = pg_transaction db' ''begin grant transaction''
        (map (\<lambda>g. Local (batch_check c g)) gs @ map (batch_insert db' c (pg_skip db' (db_calls s))) gs @
          [Run ''close permission grant batch'' True (\<lambda>t. Inr (0, t))]) ''commit grant transaction'' s" for db'
      using False by (simp add: pg_CreateGrants_def)
    then show ?thesis by (simp add: pg_transaction_atomic)
  qed (simp add: pg_CreateGrants_def all_or_nothing_def)
  with PgCreateGrants show ?thesis by simp
next
  case (PgWrite w)
  then show ?thesis using write_atomic by simp
qed (simp add: UnassignRole_atomic)

text \<open>C16. All or nothing: whichever calls to the server fail, and whether or not they took effect, a
  writing method leaves the tables as they were or exactly as it leaves them on a server without
  failures, and it reports no error only in the second case. A failed lookup of the role does not end
  \<open>AssignRole\<close> and \<open>UnassignRole\<close>: they are then compared with the call for a known role (\<open>trusting\<close>).
  The schema is treated likewise. Ensuring it can be repeated: after a success another run, by any
  server, changes nothing, and without failures it succeeds.\<close>

theorem postgres_all_or_nothing:
  "all_or_nothing s (pg_run db c e w s) (pg_run (no_faults db) c e (trusting (lookup_fails db s) w) s) \<and>
    all_or_nothing sc (pg_EnsureSchema db sc) (pg_EnsureSchema (no_faults db) sc) \<and>
    (\<forall>sc'. pg_EnsureSchema db sc = (None, sc') \<longrightarrow> schema_le (db_data sc) (db_data sc') \<and>
      (\<forall>db'. db_data (snd (pg_EnsureSchema db' sc')) = db_data sc' \<and> fst (pg_EnsureSchema (no_faults db') sc') = None))"
proof (intro conjI allI impI)
  show "all_or_nothing s (pg_run db c e w s) (pg_run (no_faults db) c e (trusting (lookup_fails db s) w) s)"
    by (rule run_atomic)
  show "all_or_nothing sc (pg_EnsureSchema db sc) (pg_EnsureSchema (no_faults db) sc)"
    by (rule ensure_schema_all_or_nothing)
next
  fix sc' db' assume run: "pg_EnsureSchema db sc = (None, sc')"
  show "db_data (snd (pg_EnsureSchema db' sc')) = db_data sc'"
    using ensure_schema_all_or_nothing [of sc' db'] ensure_schema_idempotent(3) [OF run, of db']
    by (auto simp: all_or_nothing_def)
qed (use ensure_schema_idempotent in blast)+

theorem postgres_all_or_nothing_witness:
  "all_or_nothing demo_database (pg_CreateGrants flaky_server demo_codec demo_database [demo_grant, demo_grant])
     (pg_CreateGrants (no_faults flaky_server) demo_codec demo_database [demo_grant, demo_grant]) \<and>
   fst (pg_CreateGrants flaky_server demo_codec demo_database [demo_grant, demo_grant]) \<noteq> None \<and>
   (\<exists>sc'. pg_EnsureSchema demo_server \<lparr>db_data = no_schema, db_calls = 0\<rparr> = (None, sc') \<and>
      fst (pg_EnsureSchema (no_faults demo_server) sc') = None)"
proof -
  let ?empty = "\<lparr>db_data = no_schema, db_calls = 0\<rparr>"
  have "fst (pg_EnsureSchema (no_faults demo_server) ?empty) = None" by (rule new_database_ready(1)) simp
  moreover have "no_faults demo_server = demo_server" by (simp add: no_faults_def demo_server_def)
  ultimately obtain sc' where sc': "pg_EnsureSchema demo_server ?empty = (None, sc')"
    by (cases "pg_EnsureSchema demo_server ?empty") simp
  have "fst (pg_EnsureSchema (no_faults demo_server) sc') = None"
    using postgres_all_or_nothing [of demo_database demo_server demo_codec True "PgCreateGrants []" ?empty] sc' by blast
  moreover from postgres_all_or_nothing [of demo_database flaky_server demo_codec True "PgCreateGrants [demo_grant, demo_grant]" ?empty]
  have "all_or_nothing demo_database (pg_CreateGrants flaky_server demo_codec demo_database [demo_grant, demo_grant])
     (pg_CreateGrants (no_faults flaky_server) demo_codec demo_database [demo_grant, demo_grant])" by simp
  moreover have "fst (pg_CreateGrants flaky_server demo_codec demo_database [demo_grant, demo_grant]) \<noteq> None"
    by code_simp
  ultimately show ?thesis using sc' by blast
qed

end
