(* ===== verification/Postgres_Grants.thy ===== *)
theory Postgres_Grants
  imports Postgres_Properties
begin

text \<open>
  Grants in the PostgreSQL store: what reads return, what writes store, and the pages of \<open>ListGrants\<close>.
\<close>

section \<open>Stored grants\<close>

definition stored_grants :: "json_codec \<Rightarrow> pg_tables \<Rightarrow> grant list" where
  "stored_grants c t = map (\<lambda>row. projr (scan_grant c row)) (tb_grants t)"

lemma scan_grant_fields:
  assumes "scan_grant c row = Inr g"
  shows "gr_ID g = gw_id row" "gr_OwnerKind g = gw_owner_kind row" "gr_OwnerID g = gw_owner_id row"
    "gr_Effect g = gw_effect row" "gr_TeamScope g = gw_team_scope row" "gr_ObjectScope g = gw_object_scope row"
    "gr_PermissionName g = gw_permission_name row" "gr_ExpiresAt g = gw_expires_at row" "gr_VariableSpec g \<noteq> None"
    "gr_RestrictedFields g = gw_field_allowlist row"
  using assms by (auto simp: scan_grant_def wrapped_def split: sum.splits)

text \<open>The filter of a read, on grants: unlike in the other stores, variable scopes always pass.\<close>

definition pg_scope_filter :: "request \<Rightarrow> grant \<Rightarrow> bool" where
  "pg_scope_filter req g \<longleftrightarrow>
     (gr_TeamScope g = ''*'' \<or> HasPrefix (gr_TeamScope g) ''?'' \<or> (rq_TeamID req \<noteq> '''' \<and> gr_TeamScope g = rq_TeamID req)) \<and>
     (case gr_ObjectScope g of None \<Rightarrow> True | Some os \<Rightarrow> os = ''*'' \<or> HasPrefix os ''?'' \<or> os = rq_Object req)"

lemma scopes_pass_iff:
  assumes "scan_grant c row = Inr g"
  shows "sql_grant_passes now (rq_Perm req) (team_parameter req) (rq_Object req) row \<longleftrightarrow>
    \<not> IsExpiredAt g now \<and> perm_filter req g \<and> pg_scope_filter req g"
proof -
  note fields = scan_grant_fields [OF assms]
  have "sql_active now row \<longleftrightarrow> \<not> IsExpiredAt g now"
    by (simp add: sql_active_def IsExpiredAt_def IsActiveAt_def fields split: option.split)
  moreover have "sql_scopes_pass (team_parameter req) (rq_Object req) row \<longleftrightarrow> pg_scope_filter req g"
    by (simp add: sql_scopes_pass_def pg_scope_filter_def team_parameter_def fields split: option.split)
  ultimately show ?thesis by (auto simp: sql_grant_passes_def perm_filter_def fields)
qed

lemma scope_filter_passes: "scope_filter req g \<Longrightarrow> pg_scope_filter req g"
  by (auto simp: scope_filter_def pg_scope_filter_def scopeMatches_def split: option.splits if_splits)

lemma owner_refs:
  "collect (\<lambda>p. case PrincipalRef_Validate p of Some e \<Rightarrow> Inl e | None \<Rightarrow> Inr (pr_Kind p, pr_ID p)) owners = Inr refs \<Longrightarrow>
     refs = map (\<lambda>p. (pr_Kind p, pr_ID p)) owners"
  by (induction owners arbitrary: refs) (auto split: option.splits)

lemma ref_in_owners:
  "(k, i) \<in> (\<lambda>p. (pr_Kind p, pr_ID p)) ` set owners \<longleftrightarrow> \<lparr>pr_Kind = k, pr_ID = i\<rparr> \<in> set owners"
proof
  assume "(k, i) \<in> (\<lambda>p. (pr_Kind p, pr_ID p)) ` set owners"
  then obtain p where p: "p \<in> set owners" "pr_Kind p = k" "pr_ID p = i" by auto
  then have "p = \<lparr>pr_Kind = k, pr_ID = i\<rparr>" by (simp only: principal_ref_eq_iff)
  with p(1) show "\<lparr>pr_Kind = k, pr_ID = i\<rparr> \<in> set owners" by simp
qed force

lemma rows_for_owners:
  "set (sql_grants_for_owners now refs perm team object t) =
     {row \<in> set (tb_grants t). (gw_owner_kind row, gw_owner_id row) \<in> set refs \<and> sql_grant_passes now perm team object row}"
  by (auto simp: sql_grants_for_owners_def)

lemma GrantsForOwners_Inr:
  assumes "pg_GrantsForOwners db c now s owners req = Inr gs"
  shows "g \<in> set gs \<longleftrightarrow> (\<exists>row \<in> set (tb_grants (db_data s)). scan_grant c row = Inr g \<and> grant_owner g \<in> set owners \<and>
    \<not> IsExpiredAt g now \<and> perm_filter req g \<and> pg_scope_filter req g)"
proof (cases "owners = []")
  case False
  with assms obtain refs where
    refs: "collect (\<lambda>p. case PrincipalRef_Validate p of Some e \<Rightarrow> Inl e | None \<Rightarrow> Inr (pr_Kind p, pr_ID p)) owners = Inr refs"
    and scan: "collect (scan_grant c) (sql_grants_for_owners now refs (rq_Perm req) (team_parameter req) (rq_Object req) (db_data s)) = Inr gs"
    by (auto simp: pg_GrantsForOwners_def pg_ListGrantsForOwners_def dest!: pg_query_Inr pg_rows_Inr)
  have owner: "(gw_owner_kind row, gw_owner_id row) \<in> set refs \<longleftrightarrow> grant_owner g \<in> set owners" if "scan_grant c row = Inr g" for row
    using scan_grant_fields(2,3) [OF that] owner_refs [OF refs] by (simp add: grant_owner_def ref_in_owners)
  have "g \<in> set gs \<longleftrightarrow> (\<exists>row \<in> set (sql_grants_for_owners now refs (rq_Perm req) (team_parameter req) (rq_Object req) (db_data s)).
      scan_grant c row = Inr g)"
    using collect_Inr_in [OF scan] in_collect_Inr [OF scan] by fastforce
  then show ?thesis using owner scopes_pass_iff by (auto simp: rows_for_owners)
qed (use assms in \<open>simp add: pg_GrantsForOwners_def pg_ListGrantsForOwners_def\<close>)

interpretation postgres: grant_reader "postgres_ops db c e" "\<lambda>s. stored_grants c (db_data s)" "\<lambda>_. True"
  for db :: pg_server and c :: json_codec and e :: bool
proof (unfold_locales, goal_cases)
  case (1 st now owners req gs g)
  then obtain row where "row \<in> set (tb_grants (db_data st))" "scan_grant c row = Inr g" "grant_owner g \<in> set owners"
    "\<not> IsExpiredAt g now" "perm_filter req g"
    using GrantsForOwners_Inr by (auto simp: postgres_ops_def)
  then show ?case by (force simp: stored_grants_def owned_by_def)
qed

section \<open>Writing grants\<close>

text \<open>What is stored of a grant: the number is the store's, and the variables are a map, never nil.\<close>

definition grant_spec :: "grant \<Rightarrow> bindings" where
  "grant_spec g = (case gr_VariableSpec g of None \<Rightarrow> [] | Some m \<Rightarrow> m)"

definition pg_stored :: "pg_server \<Rightarrow> json_codec \<Rightarrow> grant \<Rightarrow> grant" where
  "pg_stored db c g = g\<lparr>gr_ID := 0, gr_ExpiresAt := map_option (pg_time db) (gr_ExpiresAt g),
     gr_VariableSpec := Some (reloaded_bindings c (grant_spec g))\<rparr>"

definition unnumbered :: "grant list \<Rightarrow> grant list" where
  "unnumbered gs = map (\<lambda>g. g\<lparr>gr_ID := 0\<rparr>) gs"

lemma spec_reads_back:
  assumes "codec_laws c" "valid_bindings (grant_spec g)" "spec_document c g = Inr j"
  shows "decode_map (decode_any c) j = Inr (reloaded_bindings c (grant_spec g))"
proof -
  have "copy_map (grant_spec g) = grant_spec g" using assms(2) by (simp add: valid_bindings_def valid_keys_def)
  then have "encode_map (encode_any c) (grant_spec g) = Inr j"
    using assms(3) by (simp add: spec_document_def encode_bindings_def grant_spec_def)
  with reads_back_bindings [OF assms(1,2)] show ?thesis by (simp add: reads_back_def)
qed

lemma pg_write_None: "pg_write db l ok stmt s = (None, s') \<Longrightarrow> \<exists>n. stmt (db_data s) = Inr (n, db_data s')"
  by (auto simp: pg_write_def pg_exec_def split: if_splits outcome.splits sum.splits prod.splits)

lemma insert_grant_rows:
  assumes "sql_insert_grant skip row t = Inr (n, t')"
  obtains i where "tb_grants t' = tb_grants t @ [row\<lparr>gw_id := i\<rparr>]"
proof -
  have "tb_grants t' = tb_grants t @ [row\<lparr>gw_id := tb_grant_seq t + 1 + int skip\<rparr>]"
    using assms by (auto simp: sql_insert_grant_def Let_def split: if_splits)
  then show thesis by (rule that)
qed

lemma CreateGrant_row:
  assumes "codec_laws c" "valid_bindings (grant_spec g)" "pg_CreateGrant db c s g = (None, s')"
  obtains row i where "tb_grants (db_data s') = tb_grants (db_data s) @ [row]"
    "scan_grant c row = Inr ((pg_stored db c g)\<lparr>gr_ID := i\<rparr>)"
proof -
  obtain spec where spec: "spec_document c g = Inr spec"
    and "pg_write db ''insert permission grant'' (grant_accepted g spec)
      (sql_insert_grant (pg_skip db (db_calls s)) (row_of_grant db g spec)) s = (None, s')"
    using assms(3) by (auto simp: pg_CreateGrant_def split: option.splits sum.splits)
  then obtain i where rows: "tb_grants (db_data s') = tb_grants (db_data s) @ [(row_of_grant db g spec)\<lparr>gw_id := i\<rparr>]"
    by (blast dest: pg_write_None elim: insert_grant_rows)
  have "scan_grant c ((row_of_grant db g spec)\<lparr>gw_id := i\<rparr>) = Inr ((pg_stored db c g)\<lparr>gr_ID := i\<rparr>)"
    using spec_reads_back [OF assms(1,2) spec] by (simp add: scan_grant_def row_of_grant_def wrapped_def pg_stored_def)
  with rows show thesis by (rule that)
qed

lemma CreateGrant_length:
  assumes "pg_CreateGrant db c s g = (None, s')"
  shows "length (tb_grants (db_data s')) = Suc (length (tb_grants (db_data s)))"
proof -
  obtain l ok skip row where "pg_write db l ok (sql_insert_grant skip row) s = (None, s')"
    using assms by (auto simp: pg_CreateGrant_def split: option.splits sum.splits)
  then obtain i where "tb_grants (db_data s') = tb_grants (db_data s) @ [row\<lparr>gw_id := i\<rparr>]"
    by (blast dest: pg_write_None elim: insert_grant_rows)
  then show ?thesis by simp
qed

lemma delete_grant_rows:
  "sql_delete_grants k i t = Inr (n, t') \<Longrightarrow> tb_grants t' = filter (\<lambda>g. \<not> (gw_owner_kind g = k \<and> gw_owner_id g = i)) (tb_grants t)"
  by (auto simp: sql_delete_grants_def)

lemma DeleteGrants_None:
  assumes "pg_DeleteGrantsForOwner db s k i = (None, s')"
  shows "tb_grants (db_data s') = filter (\<lambda>g. \<not> (gw_owner_kind g = k \<and> gw_owner_id g = i)) (tb_grants (db_data s))"
proof -
  from assms obtain n where "sql_delete_grants k i (db_data s) = Inr (n, db_data s')"
    by (auto simp: pg_DeleteGrantsForOwner_def dest: pg_write_None split: if_splits)
  then show ?thesis by (rule delete_grant_rows)
qed

text \<open>What a call means for a plain list of grants.\<close>

fun grants_after :: "pg_call \<Rightarrow> grant list \<Rightarrow> grant list" where
  "grants_after (PgWrite (WCreateGrant g)) gs = gs @ [g]"
| "grants_after (PgCreateGrants new) gs = gs @ new"
| "grants_after (PgWrite (WDeleteGrantsForOwner k i)) gs = filter (\<lambda>g. \<not> (gr_OwnerKind g = k \<and> gr_OwnerID g = i)) gs"
| "grants_after w gs = gs"

fun grants_valid :: "pg_call \<Rightarrow> bool" where
  "grants_valid (PgWrite (WCreateGrant g)) \<longleftrightarrow> valid_bindings (grant_spec g)"
| "grants_valid (PgCreateGrants gs) \<longleftrightarrow> (\<forall>g \<in> set gs. valid_bindings (grant_spec g))"
| "grants_valid w \<longleftrightarrow> True"

text \<open>
  Runs of any calls, beside the same calls on a plain list. A call that reports no error counts; one
  that reports an error counts exactly if it changed the table of grants, since a lost answer
  may hide a write that took effect.
\<close>

inductive pg_granted :: "pg_server \<Rightarrow> json_codec \<Rightarrow> pg_store \<Rightarrow> grant list \<Rightarrow> bool" for db c where
  start: "db_data s = no_rows \<Longrightarrow> pg_granted db c s []"
| call: "pg_granted db c s gs \<Longrightarrow> grants_valid w \<Longrightarrow> pg_run db c e w s = (r, s') \<Longrightarrow>
    pg_granted db c s' (if r = None \<or> tb_grants (db_data s') \<noteq> tb_grants (db_data s) then grants_after w gs else gs)"

definition rows_hold :: "pg_server \<Rightarrow> json_codec \<Rightarrow> pg_tables \<Rightarrow> grant list \<Rightarrow> bool" where
  "rows_hold db c t gs \<longleftrightarrow> (\<forall>row \<in> set (tb_grants t). \<exists>g. scan_grant c row = Inr g) \<and>
     unnumbered (stored_grants c t) = map (pg_stored db c) gs"

lemma rows_hold_cong: "tb_grants t' = tb_grants t \<Longrightarrow> rows_hold db c t' gs = rows_hold db c t gs"
  by (simp add: rows_hold_def stored_grants_def)

lemma rows_hold_insert:
  assumes "codec_laws c" "valid_bindings (grant_spec g)" "spec_document c g = Inr spec"
    and "sql_insert_grant skip (row_of_grant db g spec) t = Inr (n, t')" "rows_hold db c t gs"
  shows "rows_hold db c t' (gs @ [g])"
proof -
  obtain i where rows: "tb_grants t' = tb_grants t @ [(row_of_grant db g spec)\<lparr>gw_id := i\<rparr>]"
    by (rule insert_grant_rows [OF assms(4)])
  have "scan_grant c ((row_of_grant db g spec)\<lparr>gw_id := i\<rparr>) = Inr ((pg_stored db c g)\<lparr>gr_ID := i\<rparr>)"
    using spec_reads_back [OF assms(1-3)] by (simp add: scan_grant_def row_of_grant_def wrapped_def pg_stored_def)
  with rows assms(5) show ?thesis by (simp add: rows_hold_def stored_grants_def unnumbered_def pg_stored_def)
qed

lemma filter_map_cong: "(\<And>x. x \<in> set xs \<Longrightarrow> P (f x) \<longleftrightarrow> Q x) \<Longrightarrow> filter P (map f xs) = map f (filter Q xs)"
  by (induction xs) auto

lemma rows_hold_delete:
  assumes "sql_delete_grants k i t = Inr (n, t')" "rows_hold db c t gs"
  shows "rows_hold db c t' (filter (\<lambda>g. \<not> (gr_OwnerKind g = k \<and> gr_OwnerID g = i)) gs)"
proof -
  let ?P = "\<lambda>row. \<not> (gw_owner_kind row = k \<and> gw_owner_id row = i)"
  let ?Q = "\<lambda>g. \<not> (gr_OwnerKind g = k \<and> gr_OwnerID g = i)"
  have owner: "?Q ((projr (scan_grant c row))\<lparr>gr_ID := 0\<rparr>) \<longleftrightarrow> ?P row" if row: "row \<in> set (tb_grants t)" for row
  proof -
    obtain g where "scan_grant c row = Inr g" using assms(2) row by (auto simp: rows_hold_def)
    with scan_grant_fields [OF this] show ?thesis by simp
  qed
  have "unnumbered (stored_grants c t') = filter ?Q (unnumbered (stored_grants c t))"
    unfolding unnumbered_def stored_grants_def delete_grant_rows [OF assms(1)] map_map comp_def
    by (rule filter_map_cong [symmetric]) (rule owner)
  also have "\<dots> = map (pg_stored db c) (filter ?Q gs)"
    using assms(2) by (simp add: rows_hold_def filter_map comp_def pg_stored_def)
  finally show ?thesis using assms(2) delete_grant_rows [OF assms(1)] by (simp add: rows_hold_def)
qed

lemma tx_steps_locals:
  "tx_steps db n (map (\<lambda>g. Local (f g)) gs @ steps) d = Inr d' \<Longrightarrow> tx_steps db n steps d = Inr d'"
  by (induction gs) (auto split: option.splits)

lemma rows_hold_batch:
  "tx_steps db' n (map (batch_insert db c k) new @ [Run l True (\<lambda>t. Inr (0, t))]) t = Inr t' \<Longrightarrow> codec_laws c \<Longrightarrow>
   \<forall>g \<in> set new. valid_bindings (grant_spec g) \<Longrightarrow> rows_hold db c t gs \<Longrightarrow> rows_hold db c t' (gs @ new)"
proof (induction new arbitrary: n t gs)
  case (Cons g new)
  obtain spec where spec: "spec_document c g = Inr spec" using Cons.prems(1) by (auto simp: batch_insert_def split: sum.splits)
  then have first: "batch_insert db c k g = Run ''insert permission grants'' (grant_accepted g spec) (sql_insert_grant k (row_of_grant db g spec))"
    by (simp add: batch_insert_def)
  obtain m t1 where t1: "sql_insert_grant k (row_of_grant db g spec) t = Inr (m, t1)"
    "tx_steps db' (Suc n) (map (batch_insert db c k) new @ [Run l True (\<lambda>t. Inr (0, t))]) t1 = Inr t'"
    using Cons.prems(1) first by (auto split: if_splits option.splits sum.splits)
  have "rows_hold db c t1 (gs @ [g])" using rows_hold_insert [OF Cons.prems(2) _ spec t1(1)] Cons.prems(3,4) by simp
  from Cons.IH [OF t1(2) Cons.prems(2) _ this] Cons.prems(3) show ?case by simp
qed (auto split: option.splits)

lemma pg_transaction_None:
  "pg_transaction db b steps l s = (None, s') \<Longrightarrow> \<exists>n. tx_steps db n steps (db_data s) = Inr (db_data s')"
  by (auto simp: pg_transaction_def Let_def split: option.splits sum.splits outcome.splits)

text \<open>Calls that do not concern grants leave their table alone.\<close>

lemma other_statements_keep:
  fixes gs :: "grant_row list"
  defines "P \<equiv> \<lambda>t. tb_grants t = gs"
  shows "keeps P (sql_insert_role row)" "keeps P (sql_update_role b row)" "keeps P (sql_delete_role r)"
    "keeps P (sql_insert_self_closure r)" "keeps P (sql_insert_edge p q)" "keeps P (sql_extend_closure p q)"
    "keeps P (sql_disable r)" "keeps P (sql_enable r)" "keeps P (sql_insert_assignment db arow)"
    "keeps P (sql_delete_assignments db k i r d)"
  unfolding P_def
  by (intro keepsI; auto simp: sql_insert_role_def sql_update_role_def sql_delete_role_def sql_insert_self_closure_def
      sql_insert_edge_def sql_extend_closure_def sql_disable_def sql_enable_def sql_insert_assignment_def
      sql_delete_assignments_def Let_def split: if_splits)+

fun concerns_grants :: "pg_call \<Rightarrow> bool" where
  "concerns_grants (PgWrite (WCreateGrant g)) \<longleftrightarrow> True"
| "concerns_grants (PgCreateGrants new) \<longleftrightarrow> True"
| "concerns_grants (PgWrite (WDeleteGrantsForOwner k i)) \<longleftrightarrow> True"
| "concerns_grants w \<longleftrightarrow> False"

lemma unconcerned_effect: "\<not> concerns_grants w \<Longrightarrow> grants_after w gs = gs"
  by (cases "(w, gs)" rule: grants_after.cases) auto

lemma unconcerned_run:
  assumes "\<not> concerns_grants w"
  shows "tb_grants (db_data (snd (pg_run db c e w s))) = tb_grants (db_data s)"
proof -
  note kept = pg_write_keeps [where P = "\<lambda>t. tb_grants t = tb_grants (db_data s)" and s = s, OF refl]
    pg_affect_keeps [where P = "\<lambda>t. tb_grants t = tb_grants (db_data s)" and s = s, OF refl]
    pg_transaction_keeps [where P = "\<lambda>t. tb_grants t = tb_grants (db_data s)" and s = s, OF refl]
  note keep = other_statements_keep [where gs = "tb_grants (db_data s)"]
  have unassign: "tb_grants (db_data (snd (pg_UnassignRole db c s p r bs b))) = tb_grants (db_data s)" for p r bs b
    by (simp add: pg_UnassignRole_def kept keep split: option.split sum.split)
  show ?thesis
  proof (cases w)
    case (PgWrite v)
    with assms show ?thesis
      by (cases v) (simp_all add: postgres_ops_def pg_CreateRole_def pg_UpdateRole_def pg_DeleteRole_def
          pg_AddRoleInheritance_def pg_AssignRole_def pg_DisableBuiltInRole_def pg_EnableBuiltInRole_def unassign
          kept keep split: option.split sum.split bool.split)
  qed (use assms unassign in simp_all)
qed

lemma concerned_run_None:
  assumes "codec_laws c" "concerns_grants w" "grants_valid w" "pg_run db c e w s = (None, s')"
    and "rows_hold db c (db_data s) gs"
  shows "rows_hold db c (db_data s') (grants_after w gs)"
proof -
  consider g where "w = PgWrite (WCreateGrant g)" | new where "w = PgCreateGrants new" | k i where "w = PgWrite (WDeleteGrantsForOwner k i)"
    using assms(2) by (cases w rule: concerns_grants.cases) auto
  then show ?thesis
  proof cases
    case (1 g)
    then obtain spec where spec: "spec_document c g = Inr spec"
      and "pg_write db ''insert permission grant'' (grant_accepted g spec)
        (sql_insert_grant (pg_skip db (db_calls s)) (row_of_grant db g spec)) s = (None, s')"
      using assms(4) by (auto simp: postgres_ops_def pg_CreateGrant_def split: option.splits sum.splits)
    then obtain n where "sql_insert_grant (pg_skip db (db_calls s)) (row_of_grant db g spec) (db_data s) = Inr (n, db_data s')"
      by (blast dest: pg_write_None)
    from rows_hold_insert [OF assms(1) _ spec this assms(5)] 1 assms(3) show ?thesis by simp
  next
    case (2 new)
    show ?thesis
    proof (cases "new = []")
      case False
      with 2 assms(4) obtain n where
        "tx_steps db n (map (batch_insert db c (pg_skip db (db_calls s))) new @
           [Run ''close permission grant batch'' True (\<lambda>t. Inr (0, t))]) (db_data s) = Inr (db_data s')"
        by (auto simp: pg_CreateGrants_def dest!: pg_transaction_None tx_steps_locals)
      from rows_hold_batch [OF this assms(1) _ assms(5)] 2 assms(3) show ?thesis by simp
    qed (use 2 assms(4,5) in \<open>simp add: pg_CreateGrants_def\<close>)
  next
    case (3 k i)
    with assms(4) obtain n where "sql_delete_grants k i (db_data s) = Inr (n, db_data s')"
      by (auto simp: postgres_ops_def pg_DeleteGrantsForOwner_def dest: pg_write_None split: if_splits)
    from rows_hold_delete [OF this assms(5)] 3 show ?thesis by simp
  qed
qed

text \<open>A failing call that changed the table did what it does on a server without failures.\<close>

lemma concerned_run_changed:
  assumes "concerns_grants w" "pg_run db c e w s = (r, s')" "db_data s' \<noteq> db_data s"
  obtains s'' where "pg_run (no_faults db) c e w s = (None, s'')" "db_data s' = db_data s''"
proof -
  have "trusting (lookup_fails db s) w = w"
    using assms(1) by (cases w rule: concerns_grants.cases) simp_all
  with run_atomic [of s db c e w] assms(2,3) show thesis
    by (intro that [of "snd (pg_run (no_faults db) c e w s)"]) (auto simp: all_or_nothing_def prod_eq_iff)
qed

lemma rows_hold_no_faults [simp]: "rows_hold (no_faults db) c t gs = rows_hold db c t gs"
proof -
  have "pg_stored (no_faults db) c = pg_stored db c" by (rule ext) (simp add: pg_stored_def)
  then show ?thesis by (simp add: rows_hold_def)
qed

lemma granted_rows:
  assumes "codec_laws c" "pg_granted db c s gs"
  shows "rows_hold db c (db_data s) gs"
  using assms(2)
proof (induction rule: pg_granted.induct)
  case (start s)
  then show ?case by (simp add: rows_hold_def no_rows_def unnumbered_def stored_grants_def)
next
  case (call s gs w e r s')
  let ?counts = "r = None \<or> tb_grants (db_data s') \<noteq> tb_grants (db_data s)"
  show ?case
  proof (cases "concerns_grants w \<and> ?counts")
    case False
    moreover have "tb_grants (db_data s') = tb_grants (db_data s)" if "\<not> concerns_grants w"
      using unconcerned_run [OF that, of db c e s] call.hyps(3) by simp
    ultimately have same: "tb_grants (db_data s') = tb_grants (db_data s)" by blast
    have list: "(if ?counts then grants_after w gs else gs) = gs"
      using False unconcerned_effect [of w gs] by (cases "concerns_grants w") auto
    show ?thesis unfolding list rows_hold_cong [OF same] by (rule call.IH)
  next
    case True
    then have w: "concerns_grants w" by simp
    have "rows_hold db c (db_data s') (grants_after w gs)"
    proof (cases r)
      case None
      show ?thesis by (rule concerned_run_None [OF assms(1) w call.hyps(2) call.hyps(3) [unfolded None] call.IH])
    next
      case (Some err)
      with True have "db_data s' \<noteq> db_data s" by auto
      then obtain s'' where s'': "pg_run (no_faults db) c e w s = (None, s'')" "db_data s' = db_data s''"
        by (rule concerned_run_changed [OF w call.hyps(3)])
      have "rows_hold (no_faults db) c (db_data s) gs" using call.IH by simp
      from concerned_run_None [OF assms(1) w call.hyps(2) s''(1) this] s''(2) show ?thesis by simp
    qed
    moreover have "(if ?counts then grants_after w gs else gs) = grants_after w gs" using True by (intro if_P) simp
    ultimately show ?thesis by (simp only:)
  qed
qed

text \<open>A read joins the owners with the rows that pass the filter.\<close>

definition pg_passes :: "time \<Rightarrow> request \<Rightarrow> grant \<Rightarrow> bool" where
  "pg_passes now req h \<longleftrightarrow> \<not> IsExpiredAt h now \<and> perm_filter req h \<and> pg_scope_filter req h"

definition pg_joined :: "time \<Rightarrow> principal_ref list \<Rightarrow> request \<Rightarrow> grant list \<Rightarrow> grant list" where
  "pg_joined now owners req hs =
     concat (map (\<lambda>h. replicate (count_list owners (grant_owner h)) h) (filter (pg_passes now req) hs))"

lemma length_refs:
  "length (filter (\<lambda>r. r = (k, i)) (map (\<lambda>p. (pr_Kind p, pr_ID p)) owners)) = count_list owners \<lparr>pr_Kind = k, pr_ID = i\<rparr>"
  by (induction owners) (auto simp: principal_ref_eq_iff)

lemma collect_map: "collect f xs = Inr ys \<Longrightarrow> ys = map (\<lambda>x. projr (f x)) xs"
  by (induction xs arbitrary: ys) (auto split: sum.splits)

lemma read_joined:
  assumes "\<forall>row \<in> set (tb_grants (db_data s)). \<exists>g. scan_grant c row = Inr g"
    and "pg_GrantsForOwners db c now s owners req = Inr answer"
  shows "unnumbered answer = pg_joined now owners req (unnumbered (stored_grants c (db_data s)))"
proof (cases "owners = []")
  case False
  let ?refs = "map (\<lambda>p. (pr_Kind p, pr_ID p)) owners"
  let ?U = "\<lambda>row. (projr (scan_grant c row))\<lparr>gr_ID := 0\<rparr>"
  let ?pass = "sql_grant_passes now (rq_Perm req) (team_parameter req) (rq_Object req)"
  have "collect (scan_grant c) (sql_grants_for_owners now ?refs (rq_Perm req) (team_parameter req) (rq_Object req) (db_data s)) = Inr answer"
    using False assms(2) by (auto simp: pg_GrantsForOwners_def pg_ListGrantsForOwners_def dest!: owner_refs pg_query_Inr pg_rows_Inr)
  from collect_map [OF this] have "unnumbered answer = map ?U (sql_grants_for_owners now ?refs (rq_Perm req) (team_parameter req) (rq_Object req) (db_data s))"
    by (simp add: unnumbered_def comp_def)
  also have "\<dots> = concat (map (\<lambda>row. replicate (length (filter (\<lambda>r. r = (gw_owner_kind row, gw_owner_id row)) ?refs)) (?U row))
      (filter ?pass (tb_grants (db_data s))))"
    by (simp add: sql_grants_for_owners_def map_concat comp_def map_replicate_const del: filter_map)
  also have "\<dots> = pg_joined now owners req (map ?U (tb_grants (db_data s)))"
  proof -
    have row: "pg_passes now req (?U row) \<longleftrightarrow> ?pass row"
      "grant_owner (?U row) = \<lparr>pr_Kind = gw_owner_kind row, pr_ID = gw_owner_id row\<rparr>" if in_table: "row \<in> set (tb_grants (db_data s))" for row
    proof -
      obtain g where g: "scan_grant c row = Inr g" using assms(1) in_table by blast
      show "pg_passes now req (?U row) \<longleftrightarrow> ?pass row"
        unfolding scopes_pass_iff [OF g]
        by (simp add: g pg_passes_def IsExpiredAt_def IsActiveAt_def perm_filter_def pg_scope_filter_def)
      show "grant_owner (?U row) = \<lparr>pr_Kind = gw_owner_kind row, pr_ID = gw_owner_id row\<rparr>"
        using scan_grant_fields(2,3) [OF g] by (simp add: g grant_owner_def)
    qed
    have "filter (pg_passes now req) (map ?U (tb_grants (db_data s))) = map ?U (filter ?pass (tb_grants (db_data s)))"
      by (rule filter_map_cong) (rule row(1))
    then show ?thesis
      unfolding pg_joined_def length_refs
      by (auto simp: row(2) comp_def intro!: arg_cong [where f = concat])
  qed
  finally show ?thesis by (simp add: unnumbered_def stored_grants_def comp_def)
next
  case True
  then have "answer = []" using assms(2) by (simp add: pg_GrantsForOwners_def pg_ListGrantsForOwners_def)
  then show ?thesis by (simp add: True pg_joined_def unnumbered_def)
qed

text \<open>C20. After any calls, failed and lost ones included, an answer of \<open>GrantsForOwners\<close> consists, up to
  the numbers and the order, of the stored forms of exactly those grants of a plain list beside the
  calls that the owners asked for, that have not expired and that pass the filter: each comes once
  for every time that its owner is asked for, so once if no owner is asked for twice. The filter passes
  every grant that passes the one of the default store, so none that matches the request is missed.
  The calls create grants whose variables JSON can hold: texts in UTF-8 and 64-bit integers.\<close>

theorem postgres_reads_grants:
  assumes "codec_laws c" "pg_granted db c s gs" "pg_GrantsForOwners db c now s owners req = Inr answer"
  shows "mset (unnumbered answer) = mset (concat (map (\<lambda>h. replicate (count_list owners (grant_owner h)) h)
      (filter (\<lambda>h. \<not> IsExpiredAt h now \<and> perm_filter req h \<and> pg_scope_filter req h) (map (pg_stored db c) gs)))) \<and>
    (\<forall>h \<in> pg_stored db c ` set gs. grant_owner h \<in> set owners \<and> \<not> IsExpiredAt h now \<and> perm_filter req h \<and> scope_filter req h
       \<longrightarrow> h \<in> set (unnumbered answer))"
proof -
  have "unnumbered answer = pg_joined now owners req (map (pg_stored db c) gs)"
    using read_joined [OF _ assms(3)] granted_rows [OF assms(1,2)] by (simp add: rows_hold_def)
  then have answer: "unnumbered answer = concat (map (\<lambda>h. replicate (count_list owners (grant_owner h)) h)
      (filter (\<lambda>h. \<not> IsExpiredAt h now \<and> perm_filter req h \<and> pg_scope_filter req h) (map (pg_stored db c) gs)))"
    by (simp add: pg_joined_def pg_passes_def [abs_def])
  have asked: "0 < count_list owners x \<longleftrightarrow> x \<in> set owners" for x
    by (simp add: count_list_0_iff flip: neq0_conv)
  show ?thesis
    unfolding answer using scope_filter_passes by (auto simp: asked)
qed

text \<open>The instance creates the same grant three times on a server that loses the answer to the third
  call: that call reports an error, and the grant is stored all the same.\<close>

definition demo_created :: "nat \<Rightarrow> pg_store" where
  "demo_created n = ((\<lambda>s. snd (pg_CreateGrant flaky_server demo_codec s demo_grant)) ^^ n) demo_database"

lemma demo_created_step:
  assumes "pg_granted flaky_server demo_codec (demo_created n) gs"
    and "fst (pg_CreateGrant flaky_server demo_codec (demo_created n) demo_grant) = None \<or>
      tb_grants (db_data (demo_created (Suc n))) \<noteq> tb_grants (db_data (demo_created n))"
  shows "pg_granted flaky_server demo_codec (demo_created (Suc n)) (gs @ [demo_grant])"
proof -
  have "pg_run flaky_server demo_codec True (PgWrite (WCreateGrant demo_grant)) (demo_created n) =
      (fst (pg_CreateGrant flaky_server demo_codec (demo_created n) demo_grant), demo_created (Suc n))"
    by (simp add: postgres_ops_def demo_created_def prod_eq_iff)
  from pg_granted.call [OF assms(1) _ this] assms(2) show ?thesis
    by (simp add: grant_spec_def demo_grant_def valid_bindings_def valid_keys_def)
qed

lemma demo_created_run: "pg_granted flaky_server demo_codec (demo_created 3) [demo_grant, demo_grant, demo_grant]"
proof -
  have "pg_granted flaky_server demo_codec (demo_created 0) []"
    by (simp add: demo_created_def demo_database_def pg_granted.start)
  moreover have "fst (pg_CreateGrant flaky_server demo_codec (demo_created 0) demo_grant) = None"
    "fst (pg_CreateGrant flaky_server demo_codec (demo_created 1) demo_grant) = None" by code_simp+
  moreover have "length (tb_grants (db_data (demo_created 3))) \<noteq> length (tb_grants (db_data (demo_created 2)))" by code_simp
  then have "tb_grants (db_data (demo_created 3)) \<noteq> tb_grants (db_data (demo_created 2))" by auto
  ultimately show ?thesis
    using demo_created_step [of 0 "[]"] demo_created_step [of 1 "[demo_grant]"] demo_created_step [of 2 "[demo_grant, demo_grant]"]
    by (simp add: eval_nat_numeral)
qed

theorem postgres_reads_grants_witness:
  "\<exists>answer. pg_GrantsForOwners flaky_server demo_codec 0 (demo_created 3) [grant_owner demo_grant] zero_request = Inr answer \<and>
     mset (unnumbered answer) = mset (replicate 3 (pg_stored flaky_server demo_codec demo_grant)) \<and>
     fst (pg_CreateGrant flaky_server demo_codec (demo_created 2) demo_grant) \<noteq> None"
proof -
  have "case pg_GrantsForOwners flaky_server demo_codec 0 (demo_created 3) [grant_owner demo_grant] zero_request of Inl e \<Rightarrow> False | Inr a \<Rightarrow> True"
    by code_simp
  then obtain answer where answer:
    "pg_GrantsForOwners flaky_server demo_codec 0 (demo_created 3) [grant_owner demo_grant] zero_request = Inr answer"
    by (auto split: sum.splits)
  let ?h = "pg_stored flaky_server demo_codec demo_grant"
  have h: "grant_owner ?h = grant_owner demo_grant" "\<not> IsExpiredAt ?h 0" "perm_filter zero_request ?h" "pg_scope_filter zero_request ?h"
    by (simp_all add: pg_stored_def demo_grant_def grant_owner_def IsExpiredAt_def IsActiveAt_def perm_filter_def
        pg_scope_filter_def zero_request_def)
  have "fst (pg_CreateGrant flaky_server demo_codec (demo_created 2) demo_grant) \<noteq> None" by code_simp
  with postgres_reads_grants [OF demo_codec_laws demo_created_run answer] answer h show ?thesis
    by (simp add: eval_nat_numeral)
qed

section \<open>Pages\<close>

text \<open>
  The client's loop over \<open>NextCursor\<close>. The cursor is the number of the last grant read, so a page is
  found again whatever was inserted or deleted before it.
\<close>

fun pg_walk :: "pg_server \<Rightarrow> json_codec \<Rightarrow> pg_store \<Rightarrow> nat \<Rightarrow> grant_query \<Rightarrow> grant list option" where
  "pg_walk db c s 0 q = None"
| "pg_walk db c s (Suc fuel) q =
     (case pg_ListGrants db c s q of
        Inl e \<Rightarrow> None
      | Inr r \<Rightarrow> if qr_NextCursor r = '''' then Some (qr_Grants r)
                else map_option (\<lambda>rest. qr_Grants r @ rest) (pg_walk db c s fuel (q\<lparr>gq_Cursor := qr_NextCursor r\<rparr>)))"

definition after_cursor :: "int option \<Rightarrow> grant_row \<Rightarrow> bool" where
  "after_cursor after g \<longleftrightarrow> (case after of None \<Rightarrow> True | Some i \<Rightarrow> i < gw_id g)"

lemma sort_key_sorted_wrt:
  assumes "sorted_wrt (\<lambda>x y. f x < (f y :: int)) xs"
  shows "sort_key f xs = xs"
proof -
  have "sorted (map f xs)"
    unfolding sorted_wrt_map by (rule sorted_wrt_mono_rel [OF _ assms]) simp
  then show ?thesis by (intro properties_for_sort_key) simp_all
qed

lemma scanned: "\<forall>row \<in> set rows. \<exists>g. scan_grant c row = Inr g \<Longrightarrow>
    collect (scan_grant c) rows = Inr (map (\<lambda>row. projr (scan_grant c row)) rows)"
  by (induction rows) auto

lemma rest_after_page:
  assumes "sorted_wrt (\<lambda>x y. gw_id x < gw_id y) rows" "n \<noteq> 0" "n \<le> length rows"
  shows "filter (\<lambda>g. gw_id (rows ! (n - 1)) < gw_id g) rows = drop n rows"
proof -
  have split: "rows = take n rows @ drop n rows" by simp
  have "\<not> gw_id (rows ! (n - 1)) < gw_id g" if "g \<in> set (take n rows)" for g
  proof -
    obtain i where i: "i < n" "g = rows ! i" using \<open>g \<in> set (take n rows)\<close> assms(3) by (auto simp: in_set_conv_nth)
    consider "i = n - 1" | "i < n - 1" "n - 1 < length rows" using i(1) assms(2,3) by linarith
    then show ?thesis
      using sorted_wrt_nth_less [OF assms(1), of i "n - 1"] i(2) by cases simp_all
  qed
  moreover have "gw_id (rows ! (n - 1)) < gw_id g" if "g \<in> set (drop n rows)" for g
  proof -
    obtain i where "i < length rows - n" "g = rows ! (n + i)"
      using \<open>g \<in> set (drop n rows)\<close> by (auto simp: in_set_conv_nth)
    then have "n + i < length rows" "g = rows ! (n + i)" by simp_all
    then show ?thesis using sorted_wrt_nth_less [OF assms(1), of "n - 1" "n + i"] assms(2) by auto
  qed
  ultimately have "filter (\<lambda>g. gw_id (rows ! (n - 1)) < gw_id g) (take n rows) = []"
    "filter (\<lambda>g. gw_id (rows ! (n - 1)) < gw_id g) (drop n rows) = drop n rows"
    by (simp_all add: filter_empty_conv filter_id_conv)
  then show ?thesis by (metis append_Nil filter_append split)
qed

text \<open>What one page is.\<close>

lemma ListGrants_page:
  assumes "pg_constraints db c (db_data s)" "query_accepted q" "parse_cursor (gq_Cursor q) = Inr after"
    and rows: "rows = filter (\<lambda>g. sql_query_matches q g \<and> after_cursor after g) (tb_grants (db_data s))"
    and n: "n = nat (list_limit (gq_Limit q))"
  shows "\<exists>total. pg_ListGrants (no_faults db) c s q = Inr \<lparr>qr_Grants = map (\<lambda>row. projr (scan_grant c row)) (take n rows),
      qr_NextCursor = (if n \<le> length rows then Itoa (gw_id (rows ! (n - 1))) else ''''), qr_TotalCount = total\<rparr>"
proof -
  have "sorted_wrt (\<lambda>x y. gw_id x < gw_id y) rows" using assms(1) by (simp add: rows pg_constraints_def)
  then have page: "sql_list_grants q after (list_limit (gq_Limit q)) (db_data s) = take n rows"
    by (simp add: sql_list_grants_def after_cursor_def [symmetric] rows [symmetric] n [symmetric] sort_key_sorted_wrt)
  have ok: "\<forall>row \<in> set rows. \<exists>g. scan_grant c row = Inr g"
    using assms(1) by (auto simp: rows pg_constraints_def grant_row_ok_def readable_def scan_grant_def wrapped_def)
  then have scan: "collect (scan_grant c) (take n rows) = Inr (map (\<lambda>row. projr (scan_grant c row)) (take n rows))"
    by (intro scanned) (auto dest: in_set_takeD)
  have limit: "int n = list_limit (gq_Limit q)" "n \<noteq> 0" using list_limit_bounds(1) [of "gq_Limit q"] by (simp_all add: n)
  have last: "gr_ID (last (map (\<lambda>row. projr (scan_grant c row)) (take n rows))) = gw_id (rows ! (n - 1))" if "n \<le> length rows"
  proof -
    have "rows ! (n - 1) \<in> set rows" using that limit(2) by simp
    then obtain g where "scan_grant c (rows ! (n - 1)) = Inr g" using ok by blast
    moreover have "take n rows \<noteq> []" using that limit(2) by auto
    moreover from this have "last (take n rows) = rows ! (n - 1)" using that limit(2) by (simp add: last_conv_nth min_def)
    ultimately show ?thesis by (simp add: last_map scan_grant_fields(1))
  qed
  show ?thesis
    using assms(2,3) last limit(1)
    by (auto simp: pg_ListGrants_def page scan Let_def min_def)
qed

lemma pg_walk_from:
  assumes "pg_constraints db c (db_data s)" "query_accepted q" "parse_cursor (gq_Cursor q) = Inr after"
    and "length (filter (\<lambda>g. sql_query_matches q g \<and> after_cursor after g) (tb_grants (db_data s))) < fuel"
  shows "pg_walk (no_faults db) c s fuel q =
    Some (map (\<lambda>row. projr (scan_grant c row)) (filter (\<lambda>g. sql_query_matches q g \<and> after_cursor after g) (tb_grants (db_data s))))"
  using assms
proof (induction fuel arbitrary: q after)
  case (Suc fuel)
  define rows where "rows = filter (\<lambda>g. sql_query_matches q g \<and> after_cursor after g) (tb_grants (db_data s))"
  define n where "n = nat (list_limit (gq_Limit q))"
  have n: "n \<noteq> 0" using list_limit_bounds(1) [of "gq_Limit q"] by (simp add: n_def)
  obtain total where page: "pg_ListGrants (no_faults db) c s q = Inr \<lparr>qr_Grants = map (\<lambda>row. projr (scan_grant c row)) (take n rows),
      qr_NextCursor = (if n \<le> length rows then Itoa (gw_id (rows ! (n - 1))) else ''''), qr_TotalCount = total\<rparr>"
    using ListGrants_page [OF Suc.prems(1-3) rows_def n_def] by blast
  show ?case
  proof (cases "n \<le> length rows")
    case True
    define i where "i = gw_id (rows ! (n - 1))"
    let ?q = "q\<lparr>gq_Cursor := Itoa i\<rparr>"
    have sorted: "sorted_wrt (\<lambda>x y. gw_id x < gw_id y) rows" using Suc.prems(1) by (simp add: rows_def pg_constraints_def)
    have row: "rows ! (n - 1) \<in> set rows" using True n by simp
    then have in_table: "rows ! (n - 1) \<in> set (tb_grants (db_data s))" "after_cursor after (rows ! (n - 1))" by (auto simp: rows_def)
    then have "in_int64 i" using Suc.prems(1) by (auto simp: i_def pg_constraints_def max_bigint_def in_int64_def)
    then have cursor: "parse_cursor (gq_Cursor ?q) = Inr (Some i)" by (simp add: parse_cursor_def Itoa_nonempty Atoi_Itoa)
    have "sql_query_matches ?q = sql_query_matches q" "query_accepted ?q = query_accepted q"
      by (simp_all add: fun_eq_iff sql_query_matches_def query_accepted_def split: option.split)
    moreover have "after_cursor (Some i) g \<longleftrightarrow> after_cursor after g \<and> i < gw_id g" for g
      using in_table(2) by (auto simp: after_cursor_def i_def split: option.splits)
    then have "filter (\<lambda>g. sql_query_matches q g \<and> after_cursor (Some i) g) (tb_grants (db_data s)) = filter (\<lambda>g. i < gw_id g) rows"
      by (auto simp: rows_def intro: filter_cong)
    then have "filter (\<lambda>g. sql_query_matches q g \<and> after_cursor (Some i) g) (tb_grants (db_data s)) = drop n rows"
      using rest_after_page [OF sorted n True] by (simp add: i_def)
    moreover have "length (drop n rows) < fuel" using Suc.prems(4) n True by (simp add: rows_def)
    ultimately have "pg_walk (no_faults db) c s fuel ?q = Some (map (\<lambda>row. projr (scan_grant c row)) (drop n rows))"
      using Suc.IH [OF Suc.prems(1) _ cursor] Suc.prems(2) by simp
    then show ?thesis
      using page True by (simp add: Itoa_nonempty i_def rows_def [symmetric] map_append [symmetric] del: map_append)
  next
    case False
    then show ?thesis using page by (simp add: rows_def [symmetric])
  qed
qed simp

text \<open>C22. Following the cursors of the PostgreSQL store from an empty one lists every matching grant
  once, in the order of the numbers, and ends after at most one page more than there are matching
  grants; unlike in the other stores no text crashes it.\<close>

theorem postgres_paging:
  assumes "codec_laws c" "pg_reachable db c s" "query_accepted q" "gq_Cursor q = ''''"
    and "matching = filter (sql_query_matches q) (tb_grants (db_data s))"
  shows "pg_walk (no_faults db) c s (Suc (length matching)) q = Some (map (\<lambda>row. projr (scan_grant c row)) matching) \<and>
    sorted_wrt (<) (map gw_id matching) \<and>
    (\<forall>cursor msg. pg_ListGrants db c s (q\<lparr>gq_Cursor := cursor\<rparr>) \<noteq> Inl (GoPanic msg))"
proof (intro conjI allI)
  have constraints: "pg_constraints db c (db_data s)" by (rule pg_reachable_constraints [OF assms(1,2)])
  have "parse_cursor (gq_Cursor q) = Inr None" using assms(4) by (simp add: parse_cursor_def)
  from pg_walk_from [OF constraints assms(3) this, of "Suc (length matching)"]
  show "pg_walk (no_faults db) c s (Suc (length matching)) q = Some (map (\<lambda>row. projr (scan_grant c row)) matching)"
    using assms(5) by (simp add: after_cursor_def del: pg_walk.simps)
  show "sorted_wrt (<) (map gw_id matching)" using constraints by (simp add: assms(5) pg_constraints_def sorted_wrt_map)
  have scan: "collect (scan_grant c) rows \<noteq> Inl (GoPanic msg)" for rows msg
    by (induction rows) (auto simp: attempt_eq_Inl scan_grant_def wrapped_def wrap_def split: sum.splits)
  show "pg_ListGrants db c s (q\<lparr>gq_Cursor := cursor\<rparr>) \<noteq> Inl (GoPanic msg)" for cursor msg
    using scan by (auto simp: pg_ListGrants_def attempt_eq_Inl pg_query_def pg_rows_def parse_cursor_def Let_def wrap_def
        split: if_splits option.splits)
qed

definition two_grants :: pg_store where
  "two_grants = snd (pg_CreateGrants demo_server demo_codec demo_database [demo_grant, demo_grant])"

definition every_grant :: grant_query where
  "every_grant = \<lparr>gq_Principals = [], gq_TeamScopes = [], gq_ObjectScopes = [], gq_Permissions = [],
     gq_PermissionPrefix = '''', gq_IncludeEffective = False, gq_Limit = 1, gq_Cursor = ''''\<rparr>"

theorem postgres_paging_witness:
  "\<exists>gs. pg_walk (no_faults demo_server) demo_codec two_grants 3 every_grant = Some gs \<and> map gr_ID gs = [1, 2]"
proof -
  have reached: "pg_reachable demo_server demo_codec two_grants"
    using pg_reachable.step [OF demo_database_reachable, of "PgCreateGrants [demo_grant, demo_grant]" demo_server demo_codec True]
    by (simp add: two_grants_def grant_ranged_def demo_grant_def)
  have accepted: "query_accepted every_grant" "gq_Cursor every_grant = ''''"
    by (simp_all add: query_accepted_def every_grant_def pg_text_def)
  define matching where "matching = filter (sql_query_matches every_grant) (tb_grants (db_data two_grants))"
  have "map (\<lambda>row. gr_ID (projr (scan_grant demo_codec row))) (filter (sql_query_matches every_grant) (tb_grants (db_data two_grants))) = [1, 2]"
    by code_simp
  then have ids: "map gr_ID (map (\<lambda>row. projr (scan_grant demo_codec row)) matching) = [1, 2]" by (simp add: matching_def comp_def)
  then have "length (map gr_ID (map (\<lambda>row. projr (scan_grant demo_codec row)) matching)) = length [1, 2 :: int]" by (simp only:)
  then have "Suc (length matching) = 3" by simp
  with postgres_paging [OF demo_codec_laws reached accepted matching_def] ids show ?thesis by (simp del: pg_walk.simps)
qed

end
