(* ===== verification/Store_Agreement.thy ===== *)
theory Store_Agreement
  imports Json_Recovery Demo_Service Postgres_Grants
begin

text \<open>
  The three stores that the repository implements itself, side by side: what every caller of
  \<open>PermissionStore\<close> may rely on whichever store is used, and where the stores differ.
\<close>

section \<open>Grants\<close>

text \<open>Grants that the filter of the JSON store treats as the others do: no variable scopes, which it
  compares as plain text, and no empty object scope, which it matches with a request without an
  object.\<close>

definition plain_scopes :: "grant \<Rightarrow> bool" where
  "plain_scopes g \<longleftrightarrow> \<not> HasPrefix (gr_TeamScope g) ''?'' \<and>
     (case gr_ObjectScope g of None \<Rightarrow> True | Some os \<Rightarrow> os \<noteq> '''' \<and> \<not> HasPrefix os ''?'')"

fun plain_call :: "grant_call \<Rightarrow> bool" where
  "plain_call (CreateCall g) \<longleftrightarrow> plain_scopes g"
| "plain_call (DeleteCall k i) \<longleftrightarrow> True"

lemma json_request_plain:
  "plain_scopes g \<Longrightarrow> json_request_matches now req g \<longleftrightarrow> \<not> IsExpiredAt g now \<and> perm_filter req g \<and> scope_filter req g"
  by (auto simp: plain_scopes_def json_request_matches_def IsExpiredAt_def perm_filter_def scope_filter_def
      scopeMatches_def split: option.splits)

text \<open>The JSON store keeps copies, in which a missing variable map has become an empty one.\<close>

lemma json_run_calls:
  "json_grants s = map json_cloneGrant gs \<Longrightarrow>
   json_grants (run_calls (json_ops c os) calls s) = map json_cloneGrant (spec_run calls gs)"
proof (induction calls arbitrary: s gs)
  case (Cons x calls)
  have "json_grants (apply_call (json_ops c os) x s) = map json_cloneGrant (spec_call x gs)"
  proof (cases x)
    case (CreateCall g)
    obtain e s' where "json_CreateGrant c os s g = (e, s')" by fastforce
    then show ?thesis using json_grants_writes(1) [of c os s g e s'] CreateCall Cons.prems by (simp add: json_ops_def)
  next
    case (DeleteCall k i)
    obtain e s' where "json_DeleteGrantsForOwner c os s k i = (e, s')" by fastforce
    then show ?thesis
      using json_grants_writes(2) [of c os s k i e s'] DeleteCall Cons.prems
      by (simp add: json_ops_def filter_map comp_def)
  qed
  with Cons.IH show ?case by (simp add: run_calls_def spec_run_def)
qed (simp add: run_calls_def spec_run_def)

lemma plain_spec_run: "\<forall>x \<in> set calls. plain_call x \<Longrightarrow> \<forall>g \<in> set gs. plain_scopes g \<Longrightarrow> \<forall>g \<in> set (spec_run calls gs). plain_scopes g"
proof (induction calls arbitrary: gs)
  case (Cons x calls)
  then have "\<forall>g \<in> set (spec_call x gs). plain_scopes g" by (cases x) auto
  with Cons show ?case by (simp add: spec_run_def)
qed (simp add: spec_run_def)

text \<open>What a store should answer after a sequence of calls.\<close>

definition expected_grants :: "grant_call list \<Rightarrow> time \<Rightarrow> principal_ref list \<Rightarrow> request \<Rightarrow> grant list" where
  "expected_grants calls now owners req =
     filter (\<lambda>g. owned_by owners g \<and> \<not> IsExpiredAt g now \<and> perm_filter req g \<and> scope_filter req g) (spec_run calls [])"

lemma json_expected:
  assumes "\<forall>x \<in> set calls. plain_call x" "jd_Grants (js_data s) = []"
  shows "json_GrantsForOwners now (run_calls (json_ops c os) calls s) owners req =
    Inr (map json_cloneGrant (expected_grants calls now owners req))"
proof -
  have grants: "json_grants (run_calls (json_ops c os) calls s) = map json_cloneGrant (spec_run calls [])"
    using json_run_calls [of s "[]" c os calls] assms(2) by (simp add: json_grants_def)
  have clone: "json_request_matches now req (json_cloneGrant g) = json_request_matches now req g"
    "owned_by owners (json_cloneGrant g) = owned_by owners g" for g
    by (simp_all add: json_request_matches_def owned_by_def grant_owner_def)
  have "filter (\<lambda>g. json_request_matches now req g \<and> owned_by owners g) (spec_run calls []) =
      expected_grants calls now owners req"
    unfolding expected_grants_def using plain_spec_run [OF assms(1), of "[]"]
    by (intro filter_cong) (auto simp: json_request_plain)
  then show ?thesis by (simp add: json_GrantsForOwners_iff grants filter_map comp_def clone)
qed

text \<open>C34. Whatever grants with an owner, a permission and a team scope are created and deleted (the
  default store refuses others), the default store and the in-memory store answer a read for valid
  owners with exactly the grants, in order, that the same calls leave in a plain list: those of the
  owners that are not expired and pass the permission and scope filters. The JSON store answers with
  the copies that it makes of the same grants (\<open>json_cloneGrant\<close>: a nil variable map comes back as an
  empty one), as long as no created grant has a variable scope or an empty object scope.\<close>

theorem stores_follow_grant_list:
  assumes "\<forall>x \<in> set calls. wf_call x" "valid_owners owners"
  shows "bootstrap_GrantsForOwners now (run_calls bootstrap_ops calls newBootstrapStore) owners req =
      Inr (expected_grants calls now owners req) \<and>
    inmemory_GrantsForOwners now (run_calls inmemory_ops calls inmemory_NewStore) owners req =
      Inr (expected_grants calls now owners req) \<and>
    ((\<forall>x \<in> set calls. plain_call x) \<longrightarrow>
      json_GrantsForOwners now (run_calls (json_ops c os) calls \<lparr>js_path = path, js_data = emptyData, js_files = f\<rparr>) owners req =
        Inr (map json_cloneGrant (expected_grants calls now owners req)))"
proof (intro conjI impI)
  have "bs_grants newBootstrapStore = []" "im_grants inmemory_NewStore = []"
    by (simp_all add: newBootstrapStore_def inmemory_NewStore_def)
  with bootstrap.run_grant_calls [OF wf_newBootstrapStore assms(1)] inmemory.run_grant_calls [OF TrueI assms(1)]
  have boot: "wf_bootstrap (run_calls bootstrap_ops calls newBootstrapStore)"
      "bs_grants (run_calls bootstrap_ops calls newBootstrapStore) = spec_run calls []"
    and mem: "im_grants (run_calls inmemory_ops calls inmemory_NewStore) = spec_run calls []"
    by simp_all
  show "bootstrap_GrantsForOwners now (run_calls bootstrap_ops calls newBootstrapStore) owners req =
      Inr (expected_grants calls now owners req)"
    using bootstrap_GrantsForOwners_Inr [OF boot(1)] assms(2) by (simp add: boot(2) expected_grants_def)
  show "inmemory_GrantsForOwners now (run_calls inmemory_ops calls inmemory_NewStore) owners req =
      Inr (expected_grants calls now owners req)"
    unfolding inmemory_GrantsForOwners_def Let_def mem expected_grants_def
    by (intro arg_cong [where f = Inr] filter_cong)
      (auto simp: owned_by_def grant_owner_def IsExpiredAt_def perm_filter_def scope_filter_def split: option.splits)
  show "json_GrantsForOwners now (run_calls (json_ops c os) calls \<lparr>js_path = path, js_data = emptyData, js_files = f\<rparr>) owners req =
        Inr (map json_cloneGrant (expected_grants calls now owners req))" if "\<forall>x \<in> set calls. plain_call x"
    by (rule json_expected [OF that]) (simp add: emptyData_def)
qed

theorem stores_follow_grant_list_witness:
  "bootstrap_GrantsForOwners 0 (run_calls bootstrap_ops [CreateCall demo_grant] newBootstrapStore)
     [grant_owner demo_grant] zero_request = Inr [demo_grant] \<and>
   json_GrantsForOwners 0 (run_calls (json_ops demo_codec full_os) [CreateCall demo_grant]
     \<lparr>js_path = ''store.json'', js_data = emptyData, js_files = []\<rparr>) [grant_owner demo_grant] zero_request =
     Inr [demo_grant\<lparr>gr_VariableSpec := Some []\<rparr>]"
proof -
  let ?calls = "[CreateCall demo_grant]"
  have calls: "\<forall>x \<in> set ?calls. wf_call x" "\<forall>x \<in> set ?calls. plain_call x" "valid_owners [grant_owner demo_grant]"
    by (simp_all add: demo_grant_def wf_grant_def plain_scopes_def HasPrefix_def valid_owners_def
        PrincipalRef_Validate_None valid_kinds_def)
  have copy: "json_cloneGrant demo_grant = demo_grant\<lparr>gr_VariableSpec := Some []\<rparr>"
    by (simp add: json_cloneGrant_def demo_grant_def copy_map_def)
  have "expected_grants ?calls 0 [grant_owner demo_grant] zero_request = [demo_grant]"
    by (simp add: expected_grants_def spec_run_def owned_by_def IsExpiredAt_def IsActiveAt_def
        demo_grant_def perm_filter_def scope_filter_def scopeMatches_def zero_request_def)
  with stores_follow_grant_list [OF calls(1,3), of 0 zero_request demo_codec full_os "''store.json''" "[]"] calls(2)
  show ?thesis by (simp add: copy)
qed

section \<open>Roles\<close>

text \<open>C35. The three stores agree on inheritance: after the same additions of edges every one of them
  expands roles to the same set, which is what the proper edges reach from them. An addition that
  the JSON store fails to save counts as well.\<close>

theorem stores_expand_alike:
  assumes "\<forall>r \<in> set ids. clean r \<and> r \<noteq> ''''"
  shows "\<exists>bs ms js.
    bootstrap_ExpandRoles (inherit_all bootstrap_ops edges newBootstrapStore) ids = Inr bs \<and>
    inmemory_ExpandRoles (inherit_all inmemory_ops edges inmemory_NewStore) ids = Inr ms \<and>
    json_ExpandRoles (inherit_all (json_ops c os) edges \<lparr>js_path = path, js_data = emptyData, js_files = f\<rparr>) ids = Inr js \<and>
    distinct bs \<and> distinct ms \<and> distinct js \<and>
    set bs = (proper_edges edges)\<^sup>* `` set ids \<and> set ms = set bs \<and> set js = set bs"
proof -
  have blank: "inh_edges [] = {}" by (simp add: inh_edges_def)
  have "closure_ok (bootstrap_graph newBootstrapStore)" "inh_edges (bs_roleInheritance newBootstrapStore) = {}"
    by (simp_all add: bootstrap_graph_def newBootstrapStore_def blank)
  from bootstrap_roles.inherit_all_expand [OF this assms, of edges] obtain bs where
    "bootstrap_ExpandRoles (inherit_all bootstrap_ops edges newBootstrapStore) ids = Inr bs" "distinct bs"
    "set bs = (proper_edges edges)\<^sup>* `` set ids" by auto
  moreover have "inh_edges (im_roleInheritance inmemory_NewStore) = {}" by (simp add: inmemory_NewStore_def blank)
  from inmemory_roles.inherit_all_expand [OF inmemory_roles_ok_New this assms, of edges] obtain ms where
    "inmemory_ExpandRoles (inherit_all inmemory_ops edges inmemory_NewStore) ids = Inr ms" "distinct ms"
    "set ms = (proper_edges edges)\<^sup>* `` set ids" by (auto simp: inmemory_ops_def)
  moreover have "json_edges \<lparr>js_path = path, js_data = emptyData, js_files = f\<rparr> = {}"
    by (simp add: json_edges_def emptyData_def blank)
  from json_roles.inherit_all_expand [OF TrueI this assms, of c os edges] obtain js where
    "json_ExpandRoles (inherit_all (json_ops c os) edges \<lparr>js_path = path, js_data = emptyData, js_files = f\<rparr>) ids = Inr js"
    "distinct js" "set js = (proper_edges edges)\<^sup>* `` set ids" by (auto simp: json_ops_def)
  ultimately show ?thesis by metis
qed

theorem stores_expand_alike_witness:
  "\<exists>bs js. bootstrap_ExpandRoles (inherit_all bootstrap_ops [(''a'', ''b''), (''b'', ''c'')] newBootstrapStore) [''a''] = Inr bs \<and>
    json_ExpandRoles (inherit_all (json_ops demo_codec full_os) [(''a'', ''b''), (''b'', ''c'')]
      \<lparr>js_path = ''store.json'', js_data = emptyData, js_files = []\<rparr>) [''a''] = Inr js \<and> set js = set bs \<and> ''c'' \<in> set bs"
proof -
  have "TrimSpace ''a'' = ''a''" by code_simp
  then have clean: "\<forall>r \<in> set [''a'']. clean r \<and> r \<noteq> ''''" using clean_TrimSpace [of "''a''"] by simp
  have "(''a'', ''c'') \<in> (proper_edges [(''a'', ''b''), (''b'', ''c'')])\<^sup>*"
    by (rule rtrancl_trans [of _ "''b''"]; rule r_into_rtrancl) (simp_all add: proper_edges_def)
  with stores_expand_alike [OF clean, of "[(''a'', ''b''), (''b'', ''c'')]" demo_codec full_os "''store.json''" "[]"]
  show ?thesis by auto
qed

section \<open>Ensuring a grant\<close>

text \<open>
  A store whose answer for an owner never contains a grant equivalent to a \<open>lost\<close> one, because its
  filter drops it or its copy differs. On such a store the service cannot see that it has stored
  the grant before.
\<close>

locale forgetful_store =
  fixes ops :: "'s store_ops"
    and grants_of :: "'s \<Rightarrow> grant list"
    and stored :: "grant \<Rightarrow> grant"
    and lost :: "grant \<Rightarrow> bool"
  assumes lost_unseen: "lost g \<Longrightarrow> \<exists>gs. op_GrantsForPrincipal ops now st (grant_owner g) = Inr gs \<and>
      \<not> list_ex (\<lambda>h. grantsEquivalent h g) gs"
    and create_adds: "op_CreateGrant ops st g = (e, st') \<Longrightarrow> grants_of st' = grants_of st @ [stored g]"
begin

lemma ensure_adds:
  assumes "sv_ops s = ops" "lost g" "gr_PermissionName g \<noteq> ''''" "gr_TeamScope g \<noteq> ''''"
    and "PrincipalRef_Validate (grant_owner g) = None"
  shows "grants_of (sv_store (snd (EnsureGrantForOwner now s g))) = grants_of (sv_store s) @ [stored g]"
proof -
  obtain gs where gs: "op_GrantsForPrincipal ops now (sv_store s) (grant_owner g) = Inr gs"
    "\<not> list_ex (\<lambda>h. grantsEquivalent h g) gs" using lost_unseen [OF assms(2)] by blast
  then have "\<not> list_ex (\<lambda>h. \<not> IsExpiredAt h now \<and> grantsEquivalent h g) gs" by (auto simp: list_ex_iff)
  moreover have "gr_OwnerID g \<noteq> ''''" using assms(5) by (simp add: PrincipalRef_Validate_None)
  ultimately have "grant_exists now s g = Inr False" using assms gs(1) by (simp add: grant_exists_def)
  moreover obtain e st where "op_CreateGrant ops (sv_store s) g = (e, st)" by fastforce
  moreover from this have "grants_of st = grants_of (sv_store s) @ [stored g]" by (rule create_adds)
  ultimately show ?thesis using assms(1) by (simp add: EnsureGrantForOwner_def)
qed

end

interpretation inmemory_forgets: forgetful_store inmemory_ops im_grants "\<lambda>g. g" "\<lambda>g. gr_TeamScope g \<noteq> ''*''"
proof (unfold_locales, goal_cases)
  case (1 g now st)
  have "\<not> grantsEquivalent h g" if "h \<in> set (projr (inmemory_GrantsForPrincipal now st (grant_owner g)))" for h
    using that 1 inmemory_GrantsForOwners_iff [of h now st "[grant_owner g]" zero_request]
    by (auto simp: inmemory_GrantsForPrincipal_def scope_filter_def scopeMatches_def zero_request_def grantsEquivalent_def
        split: if_splits)
  moreover have "\<exists>gs. inmemory_GrantsForPrincipal now st (grant_owner g) = Inr gs"
    by (simp add: inmemory_GrantsForPrincipal_def inmemory_GrantsForOwners_def Let_def)
  ultimately show ?case by (auto simp: inmemory_ops_def list_ex_iff)
next
  case (2 st g e st')
  then show ?case by (auto simp: inmemory_ops_def inmemory_CreateGrant_def AddGrants_def)
qed

interpretation json_forgets: forgetful_store "json_ops c os" json_grants json_cloneGrant
    "\<lambda>g. gr_TeamScope g \<noteq> ''*'' \<or> gr_VariableSpec g = None" for c :: json_codec and os :: "'f go_os"
proof (unfold_locales, goal_cases)
  case (1 g now st)
  define gs where "gs = filter (\<lambda>g'. json_request_matches now zero_request g' \<and> owned_by [grant_owner g] g') (json_grants st)"
  have gs: "json_GrantsForPrincipal now st (grant_owner g) = Inr gs"
    using json_GrantsForOwners_iff [of now st "[grant_owner g]" zero_request gs]
    by (simp add: json_GrantsForPrincipal_def json_GrantsForOwners_def gs_def)
  have "\<not> grantsEquivalent h g" if "h \<in> set gs" for h
  proof -
    have "gr_TeamScope h = ''*''" "gr_VariableSpec h \<noteq> None"
      using that by (auto simp: gs_def json_request_matches_def zero_request_def json_grants_def json_cloneGrant_def)
    with 1 show ?thesis by (auto simp: grantsEquivalent_def deep_equal_spec_def split: option.splits)
  qed
  with gs show ?case by (auto simp: json_ops_def list_ex_iff)
next
  case (2 st g e st')
  then show ?case using json_grants_writes(1) [of c os st g e st'] by (simp add: json_ops_def)
qed

lemma bootstrap_ensure_once:
  assumes "sv_ops s = bootstrap_ops" "wf_grant g" "\<not> IsExpiredAt g now" "EnsureGrantForOwner now s g = (None, s1)"
  shows "EnsureGrantForOwner now s1 g = (None, s1)"
proof (cases "grant_exists now s g")
  case (Inr b)
  show ?thesis
  proof (cases b)
    case True
    with assms(4) Inr show ?thesis by (auto simp: EnsureGrantForOwner_def)
  next
    case False
    then obtain st where st: "bootstrap_CreateGrant (sv_store s) g = (None, st)" "s1 = s\<lparr>sv_store := st\<rparr>"
      using assms(1,4) Inr by (cases "bootstrap_CreateGrant (sv_store s) g") (auto simp: EnsureGrantForOwner_def)
    then have "g \<in> set (bs_grants st)" using assms(2) by (auto simp: bootstrap_CreateGrant_def split: option.splits)
    moreover have valid: "PrincipalRef_Validate (grant_owner g) = None" "gr_OwnerID g \<noteq> ''''" "gr_PermissionName g \<noteq> ''''"
      "gr_TeamScope g \<noteq> ''''"
      using Inr by (auto simp: grant_exists_def split: if_splits option.splits)
    ultimately have "grant_exists now s1 g = Inr True"
      using assms(1-3) st(2)
      by (force simp: grant_exists_def bootstrap_GrantsForPrincipal_def list_ex_iff)
    then show ?thesis by (simp add: EnsureGrantForOwner_def)
  qed
qed (use assms(4) in \<open>simp add: EnsureGrantForOwner_def\<close>)

lemma postgres_ensure_adds:
  assumes "sv_ops p = postgres_ops db c e" "EnsureGrantForOwner now p g = (None, p')"
    and lost: "gr_VariableSpec g = None \<or> (gr_TeamScope g \<noteq> ''*'' \<and> \<not> HasPrefix (gr_TeamScope g) ''?'')"
  shows "length (tb_grants (db_data (sv_store p'))) = Suc (length (tb_grants (db_data (sv_store p))))"
proof -
  obtain b where exists: "grant_exists now p g = Inr b"
    using assms(2) by (cases "grant_exists now p g") (simp_all add: EnsureGrantForOwner_def)
  then obtain gs where gs: "pg_GrantsForPrincipal db c now (sv_store p) (grant_owner g) = Inr gs"
    and b: "b \<longleftrightarrow> list_ex (\<lambda>h. \<not> IsExpiredAt h now \<and> grantsEquivalent h g) gs"
    using assms(1) by (auto simp: grant_exists_def postgres_ops_def split: if_splits option.splits)
  have "\<not> grantsEquivalent h g" if "h \<in> set gs" for h
  proof -
    from gs have "pg_GrantsForOwners db c now (sv_store p) [grant_owner g] zero_request = Inr gs"
      by (simp add: pg_GrantsForPrincipal_def pg_GrantsForOwners_def)
    from GrantsForOwners_Inr [OF this, of h] that obtain row
      where "scan_grant c row = Inr h" "pg_scope_filter zero_request h" by blast
    then have "gr_VariableSpec h \<noteq> None" "gr_TeamScope h = ''*'' \<or> HasPrefix (gr_TeamScope h) ''?''"
      by (auto simp: scan_grant_fields(9) pg_scope_filter_def zero_request_def)
    with lost show ?thesis by (auto simp: grantsEquivalent_def deep_equal_spec_def split: option.splits)
  qed
  then have "\<not> b" by (auto simp: b list_ex_iff)
  with exists assms(1,2) obtain st where "pg_CreateGrant db c (sv_store p) g = (None, st)" "sv_store p' = st"
    by (cases "pg_CreateGrant db c (sv_store p) g") (auto simp: EnsureGrantForOwner_def on_store_def postgres_ops_def)
  then show ?thesis using CreateGrant_length by blast
qed

text \<open>C36. On the default store \<open>EnsureGrantForOwner\<close> stores a grant once. The other stores answer the
  service's question with the grants of no particular team only, so there every call for a grant
  with a team scope stores it again; the JSON and the PostgreSQL store do so also for any grant
  without variables, which they give back with an empty map instead of nil.\<close>

theorem ensure_is_idempotent_on_default_store_only:
  assumes "wf_grant g" "\<not> IsExpiredAt g now" "gr_PermissionName g \<noteq> ''''" "gr_TeamScope g \<noteq> ''''"
    and "PrincipalRef_Validate (grant_owner g) = None" "sv_ops b = bootstrap_ops" "EnsureGrantForOwner now b g = (None, b')"
    and "sv_ops m = inmemory_ops" "gr_TeamScope g \<noteq> ''*''" "sv_ops j = json_ops c os"
    and "sv_ops p = postgres_ops db c e" "EnsureGrantForOwner now p g = (None, p')"
    and "gr_VariableSpec g = None \<or> \<not> HasPrefix (gr_TeamScope g) ''?''"
  shows "EnsureGrantForOwner now b' g = (None, b') \<and>
    im_grants (sv_store (snd (EnsureGrantForOwner now m g))) = im_grants (sv_store m) @ [g] \<and>
    json_grants (sv_store (snd (EnsureGrantForOwner now j g))) = json_grants (sv_store j) @ [json_cloneGrant g] \<and>
    length (tb_grants (db_data (sv_store p'))) = Suc (length (tb_grants (db_data (sv_store p))))"
proof (intro conjI)
  show "EnsureGrantForOwner now b' g = (None, b')" by (rule bootstrap_ensure_once [OF assms(6,1,2,7)])
  show "im_grants (sv_store (snd (EnsureGrantForOwner now m g))) = im_grants (sv_store m) @ [g]"
    by (rule inmemory_forgets.ensure_adds [OF assms(8,9,3,4,5)])
  show "json_grants (sv_store (snd (EnsureGrantForOwner now j g))) = json_grants (sv_store j) @ [json_cloneGrant g]"
    by (rule json_forgets.ensure_adds [OF assms(10) disjI1 [OF assms(9)] assms(3,4,5)])
  show "length (tb_grants (db_data (sv_store p'))) = Suc (length (tb_grants (db_data (sv_store p))))"
    using assms(9,13) by (intro postgres_ensure_adds [OF assms(11,12)]) simp
qed

definition demo_scoped_grant :: grant where
  "demo_scoped_grant = demo_grant\<lparr>gr_TeamScope := ''red''\<rparr>"

lemma NewService_fields: "sv_ops (NewService ops st ip) = ops" "sv_store (NewService ops st ip) = st"
  by (simp_all add: NewService_def)

theorem ensure_is_idempotent_on_default_store_only_witness:
  "\<exists>b' p'. EnsureGrantForOwner 0 demo demo_scoped_grant = (None, b') \<and> EnsureGrantForOwner 0 b' demo_scoped_grant = (None, b') \<and>
    im_grants (sv_store (snd (EnsureGrantForOwner 0 (NewService inmemory_ops
      (inmemory_NewStore\<lparr>im_grants := [demo_scoped_grant]\<rparr>) None) demo_scoped_grant))) = [demo_scoped_grant, demo_scoped_grant] \<and>
    EnsureGrantForOwner 0 (NewService (postgres_ops demo_server demo_codec True) demo_database None) demo_scoped_grant = (None, p') \<and>
    length (tb_grants (db_data (sv_store p'))) = 1"
proof -
  let ?p = "NewService (postgres_ops demo_server demo_codec True) demo_database None"
  have "fst (EnsureGrantForOwner 0 demo demo_scoped_grant) = None"
    unfolding demo_eq New_eq demo_store_def by code_simp
  then obtain b' where b': "EnsureGrantForOwner 0 demo demo_scoped_grant = (None, b')" by (metis prod.collapse)
  have "fst (EnsureGrantForOwner 0 ?p demo_scoped_grant) = None" by code_simp
  then obtain p' where p': "EnsureGrantForOwner 0 ?p demo_scoped_grant = (None, p')" by (metis prod.collapse)
  have grant: "wf_grant demo_scoped_grant" "\<not> IsExpiredAt demo_scoped_grant 0" "gr_PermissionName demo_scoped_grant \<noteq> ''''"
    "gr_TeamScope demo_scoped_grant \<noteq> ''''" "PrincipalRef_Validate (grant_owner demo_scoped_grant) = None"
    "gr_TeamScope demo_scoped_grant \<noteq> ''*''" "gr_VariableSpec demo_scoped_grant = None"
    by (simp_all add: demo_scoped_grant_def demo_grant_def wf_grant_def IsExpiredAt_def IsActiveAt_def
        PrincipalRef_Validate_None valid_kinds_def)
  have "tb_grants (db_data demo_database) = []" by (simp add: demo_database_def no_rows_def)
  with ensure_is_idempotent_on_default_store_only [OF grant(1-5) demo_wf(2) b', of
      "NewService inmemory_ops (inmemory_NewStore\<lparr>im_grants := [demo_scoped_grant]\<rparr>) None"
      "NewService (json_ops demo_codec disk_os) demo_json None" demo_codec disk_os ?p demo_server True p'] grant(6,7) b' p'
  show ?thesis by (simp add: NewService_fields)
qed

end
