(* ===== verification/Role_Assignment_Manager.thy ===== *)
theory Role_Assignment_Manager
  imports Demo_Service
begin

text \<open>
  The role assignment manager (\<open>role_assignment_manager.go\<close>): a service together with a team and an
  object scope and a list of rules that every change of a principal's roles has to pass, and the
  rules the package provides. A rule is an interface with one method, so it is a function; the
  built-in rules are definitions that take the fields of their structs.

  The errors of a bulk operation are collected with \<open>go-multierror\<close>, a library that is not part of
  the repository: its two functions are the parameter \<open>multierror\<close>. Sets of role IDs are lists
  without duplicates, standing for any order in which Go may visit a map.
\<close>

section \<open>State and scopes\<close>

text \<open>
  \<open>rm_teamText\<close> and \<open>rm_objectText\<close> are what \<open>%v\<close> prints for the two pointers: a proposed
  assignment carries the pointers themselves as binding values.
\<close>

record ram_base =
  rm_managedRoles :: "string list"
  rm_objectScope :: "string option"
  rm_teamScope :: "string option"
  rm_objectText :: string
  rm_teamText :: string

type_synonym 's assignment_rule =
  "'s service \<Rightarrow> role_assignment list \<Rightarrow> role_assignment list \<Rightarrow> principal_ref \<Rightarrow> principal_ref option
   \<Rightarrow> ram_base \<Rightarrow> goerror option"

type_synonym 's removal_rule = "'s service \<Rightarrow> string list \<Rightarrow> string list \<Rightarrow> ram_base \<Rightarrow> goerror option"

record 's ram =
  ram_base :: ram_base
  ram_assignmentRules :: "'s assignment_rule list"
  ram_removeRules :: "'s removal_rule list"

record multierror =
  me_Append :: "goerror option \<Rightarrow> goerror option list \<Rightarrow> goerror option"
  me_ErrorOrNil :: "goerror option \<Rightarrow> goerror option"

definition NewRoleAssignmentManager ::
  "string list \<Rightarrow> string option \<Rightarrow> string option \<Rightarrow> string \<Rightarrow> string \<Rightarrow> 's ram" where
  "NewRoleAssignmentManager roles obj team objText teamText =
     \<lparr>ram_base = \<lparr>rm_managedRoles = roles, rm_objectScope = obj, rm_teamScope = team,
        rm_objectText = objText, rm_teamText = teamText\<rparr>,
      ram_assignmentRules = [], ram_removeRules = []\<rparr>"

definition AddAssignmentRule :: "'s ram \<Rightarrow> 's assignment_rule \<Rightarrow> 's ram" where
  "AddAssignmentRule m rule = m\<lparr>ram_assignmentRules := ram_assignmentRules m @ [rule]\<rparr>"

definition AddRemovalRule :: "'s ram \<Rightarrow> 's removal_rule \<Rightarrow> 's ram" where
  "AddRemovalRule m rule = m\<lparr>ram_removeRules := ram_removeRules m @ [rule]\<rparr>"

text \<open>\<open>*scope != value\<close> compares a string with a value of any type.\<close>

definition binding_in_scope :: "string option \<Rightarrow> string \<Rightarrow> bindings \<Rightarrow> bool" where
  "binding_in_scope scope key b =
     (case scope of
        None \<Rightarrow> True
      | Some v \<Rightarrow> if v = ''*'' then True
                  else case map_of b key of None \<Rightarrow> False | Some bv \<Rightarrow> bv = GString v)"

definition filterAssignmentsByScope ::
  "role_assignment list \<Rightarrow> string option \<Rightarrow> string option \<Rightarrow> role_assignment list" where
  "filterAssignmentsByScope as teamScope objScope =
     filter (\<lambda>a. binding_in_scope teamScope ''team'' (ra_BindingValues a) \<and>
       binding_in_scope objScope ''id'' (ra_BindingValues a)) as"

definition filterAssignmentHitsByScope ::
  "role_assignment_hit list \<Rightarrow> string option \<Rightarrow> string option \<Rightarrow> role_assignment_hit list" where
  "filterAssignmentHitsByScope hits teamScope objScope =
     filter (\<lambda>h. binding_in_scope teamScope ''team'' (rh_BindingValues h) \<and>
       binding_in_scope objScope ''id'' (rh_BindingValues h)) hits"

definition ram_contains :: "string list \<Rightarrow> string \<Rightarrow> bool" where
  "ram_contains xs target = list_ex (\<lambda>v. v = target) xs"

section \<open>Changes\<close>

definition scoped_assignments :: "'s ram \<Rightarrow> 's service \<Rightarrow> principal_ref \<Rightarrow> role_assignment list result" where
  "scoped_assignments m s who =
     attempt (service_RoleAssignmentsForPrincipal s who) (\<lambda>current.
     Inr (filterAssignmentsByScope current (rm_teamScope (ram_base m)) (rm_objectScope (ram_base m))))"

definition computeProposed ::
  "'s ram \<Rightarrow> 's service \<Rightarrow> principal_ref \<Rightarrow> string list \<Rightarrow> (string list \<times> string list) result" where
  "computeProposed m s who desired =
     attempt (scoped_assignments m s who) (\<lambda>filtered.
     let currentSet = fresh {} (map ra_RoleID filtered); desiredSet = fresh {} desired in
     Inr (filter (\<lambda>d. d \<notin> set currentSet) desiredSet, filter (\<lambda>c. c \<notin> set desiredSet) currentSet))"

fun first_error :: "('a \<Rightarrow> goerror option) \<Rightarrow> 'a list \<Rightarrow> goerror option" where
  "first_error f [] = None"
| "first_error f (x # xs) = (case f x of Some e \<Rightarrow> Some e | None \<Rightarrow> first_error f xs)"

definition pointer_bindings :: "ram_base \<Rightarrow> bindings" where
  "pointer_bindings b =
     (case rm_teamScope b of None \<Rightarrow> [] | Some _ \<Rightarrow> [(''team'', GOther ''*string'' (rm_teamText b))]) @
     (case rm_objectScope b of None \<Rightarrow> [] | Some _ \<Rightarrow> [(''id'', GOther ''*string'' (rm_objectText b))])"

definition canMakeAssignmentChange ::
  "'s ram \<Rightarrow> 's service \<Rightarrow> principal_ref \<Rightarrow> principal_ref option \<Rightarrow> string list \<Rightarrow> goerror option" where
  "canMakeAssignmentChange m s assignee assigner desired =
     (case attempt (scoped_assignments m s assignee) (\<lambda>filtered.
           attempt (computeProposed m s assignee desired) (\<lambda>(add, remove).
           Inr (filtered, add, remove))) of
        Inl e \<Rightarrow> Some e
      | Inr (filtered, add, remove) \<Rightarrow>
          (let proposed = filter (\<lambda>c. \<not> ram_contains remove (ra_RoleID c)) filtered @
                 map (\<lambda>a. \<lparr>ra_RoleID = a, ra_BindingValues = pointer_bindings (ram_base m)\<rparr>) add
           in first_error (\<lambda>rule. rule s filtered proposed assignee assigner (ram_base m))
                (ram_assignmentRules m)))"

definition CanAddRoles ::
  "'s ram \<Rightarrow> 's service \<Rightarrow> principal_ref \<Rightarrow> principal_ref option \<Rightarrow> string list \<Rightarrow> goerror option" where
  "CanAddRoles m s assignee assigner add =
     (case scoped_assignments m s assignee of
        Inl e \<Rightarrow> Some e
      | Inr filtered \<Rightarrow> canMakeAssignmentChange m s assignee assigner (map ra_RoleID filtered @ add))"

definition CanRemoveRoles ::
  "'s ram \<Rightarrow> 's service \<Rightarrow> principal_ref \<Rightarrow> principal_ref option \<Rightarrow> string list \<Rightarrow> goerror option" where
  "CanRemoveRoles m s assignee assigner remove =
     (case scoped_assignments m s assignee of
        Inl e \<Rightarrow> Some e
      | Inr filtered \<Rightarrow> canMakeAssignmentChange m s assignee assigner
          (filter (\<lambda>r. \<not> ram_contains remove r) (map ra_RoleID filtered)))"

definition scope_bindings :: "ram_base \<Rightarrow> bindings" where
  "scope_bindings b =
     (case rm_teamScope b of None \<Rightarrow> [] | Some t \<Rightarrow> [(''team'', GString t)]) @
     (case rm_objectScope b of None \<Rightarrow> [] | Some i \<Rightarrow> [(''id'', GString i)])"

definition ram_assignRole :: "'s ram \<Rightarrow> 's service \<Rightarrow> principal_ref \<Rightarrow> string \<Rightarrow> 's service update" where
  "ram_assignRole m s who roleID = service_AssignRole s who roleID (scope_bindings (ram_base m))"

definition ram_unassignRole :: "'s ram \<Rightarrow> 's service \<Rightarrow> principal_ref \<Rightarrow> string \<Rightarrow> 's service update" where
  "ram_unassignRole m s who roleID = service_UnassignRole s who roleID (scope_bindings (ram_base m))"

text \<open>\<open>for _, roleID := range roles { if err := ...; err != nil { return err } }\<close>\<close>

fun each_role :: "('s service \<Rightarrow> string \<Rightarrow> 's service update) \<Rightarrow> string list \<Rightarrow> 's service \<Rightarrow> 's service update" where
  "each_role f [] s = (None, s)"
| "each_role f (r # rs) s =
     (case f s r of (Some e, s') \<Rightarrow> (Some e, s') | (None, s') \<Rightarrow> each_role f rs s')"

definition AddRoles ::
  "'s ram \<Rightarrow> 's service \<Rightarrow> principal_ref \<Rightarrow> string list \<Rightarrow> principal_ref option \<Rightarrow> 's service update" where
  "AddRoles m s assignee roles assigner =
     (case CanAddRoles m s assignee assigner roles of
        Some e \<Rightarrow> (Some e, s)
      | None \<Rightarrow> each_role (\<lambda>s r. ram_assignRole m s assignee r) roles s)"

definition RemoveRoles ::
  "'s ram \<Rightarrow> 's service \<Rightarrow> principal_ref \<Rightarrow> string list \<Rightarrow> principal_ref option \<Rightarrow> 's service update" where
  "RemoveRoles m s assignee roles assigner =
     (case CanRemoveRoles m s assignee assigner roles of
        Some e \<Rightarrow> (Some e, s)
      | None \<Rightarrow> each_role (\<lambda>s r. ram_unassignRole m s assignee r) roles s)"

section \<open>Bulk removal and cleanup\<close>

definition CanRemoveBulkUsers :: "'s ram \<Rightarrow> 's service \<Rightarrow> string list \<Rightarrow> string list \<Rightarrow> goerror option" where
  "CanRemoveBulkUsers m s users groups =
     first_error (\<lambda>rule. rule s users groups (ram_base m)) (ram_removeRules m)"

text \<open>The loop over principals; the left result is the early return. On an error the source appends
  the collected errors to themselves.\<close>

fun remove_each ::
  "multierror \<Rightarrow> 's ram \<Rightarrow> principal_ref option \<Rightarrow> principal_ref list \<Rightarrow> goerror option \<Rightarrow> 's service
   \<Rightarrow> (goerror + goerror option) \<times> 's service" where
  "remove_each me m assigner [] merr s = (Inr merr, s)"
| "remove_each me m assigner (p # ps) merr s =
     (case scoped_assignments m s p of
        Inl e \<Rightarrow> (Inl e, s)
      | Inr filtered \<Rightarrow>
          (case RemoveRoles m s p (map ra_RoleID filtered) assigner of
             (Some e, s') \<Rightarrow> remove_each me m assigner ps (me_Append me merr [merr, Some e]) s'
           | (None, s') \<Rightarrow> remove_each me m assigner ps merr s'))"

definition RemoveBulkUsers ::
  "multierror \<Rightarrow> 's ram \<Rightarrow> 's service \<Rightarrow> string list \<Rightarrow> string list \<Rightarrow> principal_ref option \<Rightarrow> 's service update" where
  "RemoveBulkUsers me m s users groups assigner =
     (case CanRemoveBulkUsers m s users groups of
        Some e \<Rightarrow> (Some e, s)
      | None \<Rightarrow>
          (case remove_each me m assigner
                 (map (\<lambda>u. \<lparr>pr_Kind = PrincipalUser, pr_ID = u\<rparr>) users @
                  map (\<lambda>g. \<lparr>pr_Kind = PrincipalGroup, pr_ID = g\<rparr>) groups) None s of
             (Inl e, s') \<Rightarrow> (Some e, s')
           | (Inr merr, s') \<Rightarrow> (me_ErrorOrNil me merr, s')))"

fun cleanup_hits ::
  "multierror \<Rightarrow> 's ram \<Rightarrow> string \<Rightarrow> role_assignment_hit list \<Rightarrow> goerror option \<Rightarrow> 's service
   \<Rightarrow> goerror option \<times> 's service" where
  "cleanup_hits me m roleID [] merr s = (merr, s)"
| "cleanup_hits me m roleID (h # hs) merr s =
     (case ram_unassignRole m s (rh_Principal h) roleID of
        (Some e, s') \<Rightarrow> cleanup_hits me m roleID hs (me_Append me merr [Some e]) s'
      | (None, s') \<Rightarrow> cleanup_hits me m roleID hs merr s')"

fun cleanup_roles ::
  "multierror \<Rightarrow> 's ram \<Rightarrow> string list \<Rightarrow> goerror option \<Rightarrow> 's service \<Rightarrow> goerror option \<times> 's service" where
  "cleanup_roles me m [] merr s = (merr, s)"
| "cleanup_roles me m (roleID # rest) merr s =
     (case service_RoleAssignmentsForRoleID s roleID of
        Inl e \<Rightarrow> cleanup_roles me m rest (me_Append me merr [Some e]) s
      | Inr assignments \<Rightarrow>
          (let (merr', s') = cleanup_hits me m roleID
                 (filterAssignmentHitsByScope assignments (rm_teamScope (ram_base m)) (rm_objectScope (ram_base m)))
                 merr s
           in cleanup_roles me m rest merr' s'))"

definition CleanupAllRoleAssignments :: "multierror \<Rightarrow> 's ram \<Rightarrow> 's service \<Rightarrow> 's service update" where
  "CleanupAllRoleAssignments me m s =
     (let (merr, s') = cleanup_roles me m (rm_managedRoles (ram_base m)) None s in (me_ErrorOrNil me merr, s'))"

fun cleanup_team ::
  "multierror \<Rightarrow> 's ram \<Rightarrow> principal_ref \<Rightarrow> role_assignment list \<Rightarrow> goerror option \<Rightarrow> 's service
   \<Rightarrow> goerror option \<times> 's service" where
  "cleanup_team me m team [] merr s = (merr, s)"
| "cleanup_team me m team (a # as) merr s =
     (if \<not> ram_contains (rm_managedRoles (ram_base m)) (ra_RoleID a) then cleanup_team me m team as merr s
      else case service_UnassignRole s team (ra_RoleID a) (ra_BindingValues a) of
             (Some e, s') \<Rightarrow> cleanup_team me m team as (me_Append me merr [Some e]) s'
           | (None, s') \<Rightarrow> cleanup_team me m team as merr s')"

definition CleanupTeamRoleAssignments :: "multierror \<Rightarrow> 's ram \<Rightarrow> 's service \<Rightarrow> string \<Rightarrow> 's service update" where
  "CleanupTeamRoleAssignments me m s teamID =
     (let team = \<lparr>pr_Kind = PrincipalTeam, pr_ID = teamID\<rparr> in
      case PrincipalRef_Validate team of
        Some e \<Rightarrow> (Some e, s)
      | None \<Rightarrow>
          (case service_RoleAssignmentsForPrincipal s team of
             Inl e \<Rightarrow> (Some e, s)
           | Inr assignments \<Rightarrow>
               (let (merr, s') = cleanup_team me m team assignments None s in (me_ErrorOrNil me merr, s'))))"

section \<open>The built-in rules\<close>

text \<open>The loops of the two self rules report the first offending role.\<close>

definition same_principal :: "principal_ref option \<Rightarrow> principal_ref \<Rightarrow> bool" where
  "same_principal assigner assignee \<longleftrightarrow>
     (case assigner of None \<Rightarrow> False | Some a \<Rightarrow> pr_ID a = pr_ID assignee \<and> pr_Kind a = pr_Kind assignee)"

definition CannotAddSelfRule :: "string list \<Rightarrow> 's assignment_rule" where
  "CannotAddSelfRule roleIDs s current proposed assignee assigner ram =
     (case assigner of
        None \<Rightarrow> None
      | Some a \<Rightarrow>
          (let currentSet = ra_RoleID ` set current in
           first_error (\<lambda>p.
             if ra_RoleID p \<in> currentSet then None
             else if pr_ID a \<noteq> pr_ID assignee \<or> pr_Kind a \<noteq> pr_Kind assignee then None
             else if roleIDs = []
               then Some (Errorf ''principal %s cannot add roles to themselves'' [pr_ID assignee])
             else if ra_RoleID p \<in> set roleIDs
               then Some (Errorf ''principal %s cannot self-assign role %s'' [pr_ID assignee, ra_RoleID p])
             else None) proposed))"

definition CannotRemoveSelfRule :: "string list \<Rightarrow> 's assignment_rule" where
  "CannotRemoveSelfRule roleIDs s current proposed assignee assigner ram =
     (case assigner of
        None \<Rightarrow> None
      | Some a \<Rightarrow>
          if pr_ID a \<noteq> pr_ID assignee \<or> pr_Kind a \<noteq> pr_Kind assignee then None
          else
            (let proposedSet = ra_RoleID ` set proposed in
             first_error (\<lambda>c.
               if ra_RoleID c \<in> proposedSet then None
               else if roleIDs = []
                 then Some (Errorf ''principal %s cannot remove roles from themselves'' [pr_ID assignee])
               else if ra_RoleID c \<in> set roleIDs
                 then Some (Errorf ''principal %s cannot self-remove role %s'' [pr_ID assignee, ra_RoleID c])
               else None) current))"

definition CannotCombineRolesRule :: "string \<Rightarrow> string \<Rightarrow> 's assignment_rule" where
  "CannotCombineRolesRule roleA roleB s current proposed assignee assigner ram =
     (let hasA = list_ex (\<lambda>a. ra_RoleID a = roleA) proposed;
          hasB = list_ex (\<lambda>a. ra_RoleID a = roleB) proposed
      in if hasA \<and> hasB then Some (Errorf ''cannot combine roles %s and %s'' [roleA, roleB]) else None)"

text \<open>The in-scope hits of a role, read again by the rules that count.\<close>

definition scoped_hits :: "'s service \<Rightarrow> string \<Rightarrow> ram_base \<Rightarrow> role_assignment_hit list result" where
  "scoped_hits s roleID ram =
     attempt (service_RoleAssignmentsForRoleID s roleID) (\<lambda>assignments.
     Inr (filterAssignmentHitsByScope assignments (rm_teamScope ram) (rm_objectScope ram)))"

definition count_kind :: "principal_kind \<Rightarrow> role_assignment_hit list \<Rightarrow> int" where
  "count_kind kind hits = int (length (filter (\<lambda>h. pr_Kind (rh_Principal h) = kind) hits))"

text \<open>The check of one bound pair; the noun is the one of the message.\<close>

definition check_bounds :: "string \<Rightarrow> string \<Rightarrow> int \<Rightarrow> int \<Rightarrow> int \<Rightarrow> goerror option" where
  "check_bounds noun roleID lo hi n =
     (if n < lo
      then Some (Errorf (''role %s requires at least %d '' @ noun @ '', but only %d would remain'')
             [roleID, Itoa lo, Itoa n])
      else if 0 < hi \<and> hi < n
      then Some (Errorf (''role %s allows at most %d '' @ noun @ '', but %d would exist'')
             [roleID, Itoa hi, Itoa n])
      else None)"

definition MinMaxInstancesRule ::
  "string \<Rightarrow> int \<Rightarrow> int \<Rightarrow> principal_kind option \<Rightarrow> 's assignment_rule" where
  "MinMaxInstancesRule roleID lo hi kind s current proposed assignee assigner ram =
     (case scoped_hits s roleID ram of
        Inl e \<Rightarrow> Some e
      | Inr filtered \<Rightarrow>
          (let proposedSet = (if list_ex (\<lambda>p. ra_RoleID p = roleID) proposed then {pr_ID assignee} else {});
               counted = filter (\<lambda>h. pr_ID (rh_Principal h) \<in> proposedSet) filtered;
               userCount = count_kind PrincipalUser counted;
               groupCount = count_kind PrincipalGroup counted;
               teamCount = count_kind PrincipalTeam counted
           in case kind of
                Some k \<Rightarrow>
                  if k = PrincipalUser then check_bounds ''users'' roleID lo hi userCount
                  else if k = PrincipalGroup then check_bounds ''groups'' roleID lo hi groupCount
                  else if k = PrincipalTeam then check_bounds ''teams'' roleID lo hi teamCount
                  else None
              | None \<Rightarrow> check_bounds ''principals'' roleID lo hi (userCount + groupCount + teamCount)))"

definition diffRoleAssignments ::
  "role_assignment list \<Rightarrow> role_assignment list \<Rightarrow> string \<Rightarrow> string list \<times> string list" where
  "diffRoleAssignments current proposed roleIDFilter =
     (let considered = (\<lambda>as. fresh {} (map ra_RoleID
            (filter (\<lambda>a. \<not> (roleIDFilter \<noteq> '''' \<and> ra_RoleID a \<noteq> roleIDFilter)) as)));
          currentSet = considered current; proposedSet = considered proposed
      in (filter (\<lambda>i. i \<notin> set currentSet) proposedSet, filter (\<lambda>i. i \<notin> set proposedSet) currentSet))"

text \<open>The final decision that the two methods of \<open>RequireAtLeastRule\<close> share.\<close>

definition require_at_least ::
  "string \<Rightarrow> int \<Rightarrow> principal_kind option \<Rightarrow> int \<times> int \<Rightarrow> int \<times> int \<Rightarrow> int \<times> int \<Rightarrow> goerror option" where
  "require_at_least roleID lo kind users groups teams =
     (let none_left = (\<lambda>(curr, removing). curr = removing);
          message = (\<lambda>noun. Some (Errorf (''must have a least %v '' @ noun @ '' assigned to role: %s'') [Itoa lo, roleID]))
      in case kind of
           Some k \<Rightarrow>
             if k = PrincipalUser \<and> none_left users then message ''user''
             else if k = PrincipalGroup \<and> none_left groups then message ''group''
             else if k = PrincipalTeam \<and> none_left teams then message ''team''
             else None
         | None \<Rightarrow>
             if none_left groups \<and> none_left users \<and> none_left teams
             then message ''user, group, or team'' else None)"

definition RequireAtLeast_ValidateAssignment ::
  "string \<Rightarrow> int \<Rightarrow> principal_kind option \<Rightarrow> 's assignment_rule" where
  "RequireAtLeast_ValidateAssignment roleID lo kind s current proposed assignee assigner ram =
     (case scoped_hits s roleID ram of
        Inl e \<Rightarrow> Some e
      | Inr byScope \<Rightarrow>
          (let (adding, removing) = diffRoleAssignments current proposed roleID;
               count = (\<lambda>k. (count_kind k byScope + (if pr_Kind assignee = k then int (length adding) else 0),
                             if pr_Kind assignee = k then int (length removing) else 0))
           in require_at_least roleID lo kind (count PrincipalUser) (count PrincipalGroup) (count PrincipalTeam)))"

definition RequireAtLeast_ValidateRemoval ::
  "string \<Rightarrow> int \<Rightarrow> principal_kind option \<Rightarrow> 's removal_rule" where
  "RequireAtLeast_ValidateRemoval roleID lo kind s users groups ram =
     (case scoped_hits s roleID ram of
        Inl e \<Rightarrow> Some e
      | Inr byScope \<Rightarrow>
          (let removed = (\<lambda>k ids. count_kind k (filter (\<lambda>h. pr_ID (rh_Principal h) \<in> set ids) byScope)) in
           require_at_least roleID lo kind
             (count_kind PrincipalUser byScope, removed PrincipalUser users)
             (count_kind PrincipalGroup byScope, removed PrincipalGroup groups)
             (count_kind PrincipalTeam byScope, 0)))"

section \<open>What the rules enforce\<close>

lemma first_error_None: "first_error f xs = None \<longleftrightarrow> (\<forall>x \<in> set xs. f x = None)"
  by (induction xs) (auto split: option.splits)

lemma set_fresh: "set (fresh seen xs) = set xs - seen"
  by (induction xs arbitrary: seen) auto

lemma CannotAddSelfRule_None:
  "CannotAddSelfRule roleIDs s current proposed assignee assigner ram = None \<longleftrightarrow>
     \<not> (same_principal assigner assignee \<and>
        (\<exists>p \<in> set proposed. ra_RoleID p \<notin> ra_RoleID ` set current \<and> (roleIDs = [] \<or> ra_RoleID p \<in> set roleIDs)))"
  by (auto simp: CannotAddSelfRule_def first_error_None same_principal_def Let_def split: option.split)

lemma CannotRemoveSelfRule_None:
  "CannotRemoveSelfRule roleIDs s current proposed assignee assigner ram = None \<longleftrightarrow>
     \<not> (same_principal assigner assignee \<and>
        (\<exists>c \<in> set current. ra_RoleID c \<notin> ra_RoleID ` set proposed \<and> (roleIDs = [] \<or> ra_RoleID c \<in> set roleIDs)))"
  by (auto simp: CannotRemoveSelfRule_def first_error_None same_principal_def Let_def split: option.split)

lemma CannotCombineRolesRule_None:
  "CannotCombineRolesRule a b s current proposed assignee assigner ram = None \<longleftrightarrow>
     \<not> (a \<in> ra_RoleID ` set proposed \<and> b \<in> ra_RoleID ` set proposed)"
  by (auto simp: CannotCombineRolesRule_def list_ex_iff Let_def)

text \<open>The minimum of \<open>RequireAtLeastRule\<close> reaches the message only.\<close>

lemma require_at_least_min:
  "(require_at_least r m1 kind users groups teams = None) = (require_at_least r m2 kind users groups teams = None)"
  by (simp add: require_at_least_def Let_def split: option.split)

section \<open>Changes on the default store\<close>

lemma scoped_assignments_boot:
  assumes "wf_stored s" "PrincipalRef_Validate who = None"
  shows "scoped_assignments m s who = Inr (filterAssignmentsByScope (principal_roles (sv_store s) who)
    (rm_teamScope (ram_base m)) (rm_objectScope (ram_base m)))"
  using assms by (simp add: scoped_assignments_def service_RoleAssignmentsForPrincipal_def wf_stored_def
      bootstrap_RoleAssignmentsForPrincipal_eq)

definition held_roles :: "'s ram \<Rightarrow> boot_service \<Rightarrow> principal_ref \<Rightarrow> string set" where
  "held_roles m s who = ra_RoleID ` set (filterAssignmentsByScope (principal_roles (sv_store s) who)
     (rm_teamScope (ram_base m)) (rm_objectScope (ram_base m)))"

text \<open>The proposal that a change shows to the rules holds exactly the desired roles.\<close>

lemma change_rules:
  assumes "wf_stored s" "PrincipalRef_Validate who = None"
    and "canMakeAssignmentChange m s who assigner desired = None" "rule \<in> set (ram_assignmentRules m)"
  shows "\<exists>current proposed. ra_RoleID ` set current = held_roles m s who \<and> ra_RoleID ` set proposed = set desired \<and>
    rule s current proposed who assigner (ram_base m) = None"
proof -
  define held where "held = filterAssignmentsByScope (principal_roles (sv_store s) who)
      (rm_teamScope (ram_base m)) (rm_objectScope (ram_base m))"
  define new where "new = filter (\<lambda>d. d \<notin> ra_RoleID ` set held) (fresh {} desired)"
  define gone where "gone = filter (\<lambda>c. c \<notin> set desired) (fresh {} (map ra_RoleID held))"
  define proposed where "proposed = filter (\<lambda>c. ra_RoleID c \<notin> set gone) held @
      map (\<lambda>a. \<lparr>ra_RoleID = a, ra_BindingValues = pointer_bindings (ram_base m)\<rparr>) new"
  have sa: "scoped_assignments m s who = Inr held"
    using scoped_assignments_boot [OF assms(1,2)] by (simp add: held_def)
  have mem: "list_ex (\<lambda>v. v = x) xs \<longleftrightarrow> x \<in> set xs" for x :: string and xs
    by (auto simp: list_ex_iff)
  have "first_error (\<lambda>rule. rule s held proposed who assigner (ram_base m)) (ram_assignmentRules m) = None"
    using assms(3) by (simp add: canMakeAssignmentChange_def sa computeProposed_def Let_def ram_contains_def mem
        proposed_def new_def gone_def set_fresh)
  then have "rule s held proposed who assigner (ram_base m) = None"
    using assms(4) by (simp add: first_error_None)
  moreover have "ra_RoleID ` set proposed = (ra_RoleID ` set held \<inter> set desired) \<union> (set desired - ra_RoleID ` set held)"
    by (auto simp: proposed_def new_def gone_def set_fresh image_Un image_image)
  then have "ra_RoleID ` set proposed = set desired" by blast
  ultimately show ?thesis unfolding held_roles_def held_def [symmetric] by blast
qed

lemma CanAddRoles_rules:
  assumes "wf_stored s" "PrincipalRef_Validate who = None" "CanAddRoles m s who assigner add = None"
    and "rule \<in> set (ram_assignmentRules m)"
  shows "\<exists>current proposed. ra_RoleID ` set current = held_roles m s who \<and>
    ra_RoleID ` set proposed = held_roles m s who \<union> set add \<and>
    rule s current proposed who assigner (ram_base m) = None"
proof -
  have "canMakeAssignmentChange m s who assigner (map ra_RoleID (filterAssignmentsByScope
      (principal_roles (sv_store s) who) (rm_teamScope (ram_base m)) (rm_objectScope (ram_base m))) @ add) = None"
    using assms(3) by (simp add: CanAddRoles_def scoped_assignments_boot [OF assms(1,2)])
  from change_rules [OF assms(1,2) this assms(4)] show ?thesis by (simp add: held_roles_def)
qed

lemma CanRemoveRoles_rules:
  assumes "wf_stored s" "PrincipalRef_Validate who = None" "CanRemoveRoles m s who assigner remove = None"
    and "rule \<in> set (ram_assignmentRules m)"
  shows "\<exists>current proposed. ra_RoleID ` set current = held_roles m s who \<and>
    ra_RoleID ` set proposed = held_roles m s who - set remove \<and>
    rule s current proposed who assigner (ram_base m) = None"
proof -
  have "canMakeAssignmentChange m s who assigner (filter (\<lambda>r. \<not> ram_contains remove r) (map ra_RoleID
      (filterAssignmentsByScope (principal_roles (sv_store s) who) (rm_teamScope (ram_base m)) (rm_objectScope (ram_base m))))) = None"
    using assms(3) by (simp add: CanRemoveRoles_def scoped_assignments_boot [OF assms(1,2)])
  from change_rules [OF assms(1,2) this assms(4)] show ?thesis
    by (simp add: held_roles_def ram_contains_def list_ex_iff set_diff_eq)
qed

lemma ram_assignRole_held:
  assumes "wf_stored s" "ram_assignRole m s who r = (None, s')"
  shows "wf_stored s'" and "held_roles m s' who \<subseteq> insert r (held_roles m s who)"
proof -
  show "wf_stored s'"
    using assms wf_stored_assignments(1) unfolding ram_assignRole_def by blast
  obtain st where st: "bootstrap_AssignRole (sv_store s) who r (builtIn_Roles (sv_builtIns s))
      (scope_bindings (ram_base m)) = (None, st)" "s' = s\<lparr>sv_store := st\<rparr>"
    using assms by (auto simp: ram_assignRole_def service_AssignRole_def wf_stored_def on_store_eq)
  have "PrincipalRef_Validate who = None" using st(1) by (simp add: bootstrap_AssignRole_None)
  from principal_roles_AssignRole [OF st(1) this] st(2)
  show "held_roles m s' who \<subseteq> insert r (held_roles m s who)"
    by (auto simp: held_roles_def filterAssignmentsByScope_def)
qed

lemma each_assign_held:
  "wf_stored s \<Longrightarrow> each_role (\<lambda>s r. ram_assignRole m s who r) roles s = (None, s') \<Longrightarrow>
     held_roles m s' who \<subseteq> held_roles m s who \<union> set roles"
proof (induction roles arbitrary: s)
  case (Cons r rs)
  then obtain s1 where s1: "ram_assignRole m s who r = (None, s1)"
    "each_role (\<lambda>s r. ram_assignRole m s who r) rs s1 = (None, s')"
    by (auto split: prod.splits option.splits)
  note step = ram_assignRole_held [OF Cons.prems(1) s1(1)]
  from Cons.IH [OF step(1) s1(2)] step(2) show ?case by auto
qed simp

section \<open>Cleaning up a team\<close>

text \<open>
  What the manager relies on of the error library: \<open>Append\<close> collects errors, skipping nil ones and
  flattening other collections, and \<open>ErrorOrNil\<close> is nil exactly for an empty collection.
\<close>

definition no_error :: "goerror option \<Rightarrow> bool" where
  "no_error e \<longleftrightarrow> e = None \<or> e = Some (MultiError [])"

definition collects_errors :: "multierror \<Rightarrow> bool" where
  "collects_errors me \<longleftrightarrow> (\<forall>a. me_ErrorOrNil me a = (if no_error a then None else a)) \<and>
     (\<forall>a es. no_error (me_Append me a es) \<longleftrightarrow> no_error a \<and> (\<forall>e \<in> set es. no_error e))"

lemma collects_errors_nil: "collects_errors me \<Longrightarrow> me_ErrorOrNil me merr = None \<longleftrightarrow> no_error merr"
  by (auto simp: collects_errors_def no_error_def)

lemma bootstrap_UnassignRole_error:
  "bootstrap_UnassignRole st who r bs b = (Some e, st') \<Longrightarrow> \<not> no_error (Some e)"
  by (auto simp: bootstrap_UnassignRole_def Let_def PrincipalRef_Validate_def no_error_def
      split: if_splits option.splits)

lemma service_UnassignRole_error:
  "wf_stored s \<Longrightarrow> service_UnassignRole s who r b = (Some e, s') \<Longrightarrow> \<not> no_error (Some e)"
  by (auto simp: service_UnassignRole_def wf_stored_def on_store_eq dest: bootstrap_UnassignRole_error)

lemma service_UnassignRole_boot:
  assumes "wf_stored s" "service_UnassignRole s who r b = (None, s')" "PrincipalRef_Validate q = None"
  shows "principal_roles (sv_store s') q =
    (if q = who then filter (\<lambda>a. \<not> unassign_matches r b a) (principal_roles (sv_store s) who)
     else principal_roles (sv_store s) q)"
proof -
  obtain st where "bootstrap_UnassignRole (sv_store s) who r (builtIn_Roles (sv_builtIns s)) b = (None, st)"
    "s' = s\<lparr>sv_store := st\<rparr>"
    using assms(1,2) by (auto simp: service_UnassignRole_def wf_stored_def on_store_eq)
  with principal_roles_UnassignRole [OF _ assms(3)] show ?thesis by simp
qed

lemma cleanup_team_effect:
  assumes laws: "collects_errors me" and valid: "PrincipalRef_Validate q = None"
  shows "wf_stored s \<Longrightarrow> cleanup_team me m team as merr s = (merr', s') \<Longrightarrow> no_error merr' \<Longrightarrow>
    no_error merr \<and>
    principal_roles (sv_store s') q =
      (if q = team then filter (\<lambda>x. \<not> (\<exists>a \<in> set as. ra_RoleID a \<in> set (rm_managedRoles (ram_base m)) \<and>
         unassign_matches (ra_RoleID a) (ra_BindingValues a) x)) (principal_roles (sv_store s) team)
       else principal_roles (sv_store s) q)"
proof (induction as arbitrary: merr s)
  case (Cons a as)
  show ?case
  proof (cases "ra_RoleID a \<in> set (rm_managedRoles (ram_base m))")
    case False
    then have "\<not> ram_contains (rm_managedRoles (ram_base m)) (ra_RoleID a)"
      by (auto simp: ram_contains_def list_ex_iff)
    with Cons False show ?thesis by simp
  next
    case True
    then have managed: "ram_contains (rm_managedRoles (ram_base m)) (ra_RoleID a)"
      by (auto simp: ram_contains_def list_ex_iff)
    obtain e s1 where call: "service_UnassignRole s team (ra_RoleID a) (ra_BindingValues a) = (e, s1)" by fastforce
    have wf1: "wf_stored s1" by (rule wf_stored_assignments(2) [OF Cons.prems(1) call])
    show ?thesis
    proof (cases e)
      case (Some err)
      with Cons.prems(2) managed call
      have "cleanup_team me m team as (me_Append me merr [Some err]) s1 = (merr', s')" by simp
      from Cons.IH [OF wf1 this Cons.prems(3)] have "no_error (me_Append me merr [Some err])" by blast
      then have "no_error (Some err)" using laws by (simp add: collects_errors_def)
      with service_UnassignRole_error [OF Cons.prems(1) call [unfolded Some]] show ?thesis by blast
    next
      case None
      with Cons.prems(2) managed call have "cleanup_team me m team as merr s1 = (merr', s')" by simp
      from Cons.IH [OF wf1 this Cons.prems(3)]
        service_UnassignRole_boot [OF Cons.prems(1) call [unfolded None] valid] True
      show ?thesis by (auto intro: filter_cong)
    qed
  qed
qed simp

section \<open>Removing principals in bulk\<close>

lemma scoped_hits_boot:
  assumes "wf_stored s"
  shows "\<exists>hits. scoped_hits s r ram = Inr hits \<and> (\<forall>h. h \<in> set hits \<longleftrightarrow>
    rh_RoleID h = r \<and> PrincipalRef_Validate (rh_Principal h) = None \<and>
    \<lparr>ra_RoleID = r, ra_BindingValues = rh_BindingValues h\<rparr>
      \<in> set (filterAssignmentsByScope (principal_roles (sv_store s) (rh_Principal h))
        (rm_teamScope ram) (rm_objectScope ram)))"
proof -
  have "wf_assignments (bs_assignments (sv_store s))"
    using assms by (simp add: wf_stored_def wf_bootstrap_def)
  with hits_for_role_ok [of "bs_assignments (sv_store s)" r] assms show ?thesis
    by (auto simp: scoped_hits_def service_RoleAssignmentsForRoleID_def wf_stored_def
        bootstrap_RoleAssignmentsForRoleID_def filterAssignmentHitsByScope_def filterAssignmentsByScope_def
        principal_roles_def)
qed

lemma ram_unassignRole_frame:
  assumes "wf_stored s" "ram_unassignRole m s who r = (e, s')" "PrincipalRef_Validate q = None" "q \<noteq> who"
  shows "wf_stored s' \<and> principal_roles (sv_store s') q = principal_roles (sv_store s) q"
proof (cases e)
  case None
  then show ?thesis
    using assms wf_stored_assignments(2) service_UnassignRole_boot unfolding ram_unassignRole_def by metis
next
  case (Some err)
  have "sv_store s' = sv_store s"
    using assms(1,2) unfolding Some ram_unassignRole_def service_UnassignRole_def wf_stored_def
    by (auto simp: on_store_eq bootstrap_UnassignRole_def Let_def split: option.splits if_splits)
  then show ?thesis
    using assms(1,2) wf_stored_assignments(2) unfolding ram_unassignRole_def by metis
qed

lemma each_unassign_frame:
  "wf_stored s \<Longrightarrow> each_role (\<lambda>s r. ram_unassignRole m s who r) roles s = (e, s') \<Longrightarrow>
     PrincipalRef_Validate q = None \<Longrightarrow> q \<noteq> who \<Longrightarrow>
     wf_stored s' \<and> principal_roles (sv_store s') q = principal_roles (sv_store s) q"
proof (induction roles arbitrary: s)
  case (Cons r rs)
  obtain e1 s1 where s1: "ram_unassignRole m s who r = (e1, s1)" by fastforce
  note step = ram_unassignRole_frame [OF Cons.prems(1) s1 Cons.prems(3,4)]
  show ?case
  proof (cases e1)
    case None
    with Cons.prems(2) s1 have "each_role (\<lambda>s r. ram_unassignRole m s who r) rs s1 = (e, s')" by simp
    from Cons.IH [OF _ this Cons.prems(3,4)] step show ?thesis by simp
  next
    case (Some err)
    with Cons.prems(2) s1 step show ?thesis by simp
  qed
qed simp

lemma remove_each_frame:
  "wf_stored s \<Longrightarrow> remove_each me m assigner ps merr s = (res, s') \<Longrightarrow>
     PrincipalRef_Validate q = None \<Longrightarrow> q \<notin> set ps \<Longrightarrow>
     wf_stored s' \<and> principal_roles (sv_store s') q = principal_roles (sv_store s) q"
proof (induction ps arbitrary: s merr)
  case (Cons p ps)
  show ?case
  proof (cases "scoped_assignments m s p")
    case (Inl e)
    with Cons.prems show ?thesis by simp
  next
    case (Inr held)
    obtain e1 s1 where s1: "RemoveRoles m s p (map ra_RoleID held) assigner = (e1, s1)" by fastforce
    have "wf_stored s1 \<and> principal_roles (sv_store s1) q = principal_roles (sv_store s) q"
      using s1 Cons.prems(1,3,4) each_unassign_frame [of s m p "map ra_RoleID held" e1 s1 q]
      by (auto simp: RemoveRoles_def split: option.splits)
    moreover obtain merr1 where "remove_each me m assigner ps merr1 s1 = (res, s')"
      using Cons.prems(2) Inr s1 by (cases e1) auto
    ultimately show ?thesis using Cons.IH [of s1 merr1] Cons.prems(3,4) by simp
  qed
qed simp

text \<open>The removal rule in terms of the holders: somebody of the kind stays.\<close>

lemma length_filter_eq: "length (filter P xs) = length xs \<longleftrightarrow> (\<forall>x \<in> set xs. P x)"
proof (induction xs)
  case (Cons x xs)
  have "length (filter P xs) \<noteq> Suc (length xs)" using length_filter_le [of P xs] by linarith
  with Cons show ?case by simp
qed simp

lemma count_kind_left:
  "count_kind k hits = count_kind k (filter P hits) \<longleftrightarrow> (\<forall>h \<in> set hits. pr_Kind (rh_Principal h) = k \<longrightarrow> P h)"
proof -
  have "filter (\<lambda>h. pr_Kind (rh_Principal h) = k) (filter P hits) =
      filter P (filter (\<lambda>h. pr_Kind (rh_Principal h) = k) hits)"
    by (simp add: conj_commute)
  then show ?thesis
    using length_filter_eq [of P "filter (\<lambda>h. pr_Kind (rh_Principal h) = k) hits"]
    unfolding count_kind_def by (simp del: filter_filter) (auto simp: eq_commute)
qed

lemma RequireAtLeast_user_None:
  assumes "scoped_hits s r ram = Inr hits"
  shows "RequireAtLeast_ValidateRemoval r lo (Some PrincipalUser) s users groups ram = None \<longleftrightarrow>
    (\<exists>h \<in> set hits. pr_Kind (rh_Principal h) = PrincipalUser \<and> pr_ID (rh_Principal h) \<notin> set users)"
  using count_kind_left [of PrincipalUser hits "\<lambda>h. pr_ID (rh_Principal h) \<in> set users"]
  by (auto simp: RequireAtLeast_ValidateRemoval_def assms Let_def require_at_least_def
      PrincipalUser_def PrincipalGroup_def PrincipalTeam_def)

section \<open>What the manager guarantees\<close>

definition demo_manager :: "bootstrap_store ram" where
  "demo_manager = AddRemovalRule (AddAssignmentRule (AddAssignmentRule
     (NewRoleAssignmentManager [''editor'', ''guest''] None None '''' '''')
     (CannotCombineRolesRule ''editor'' ''guest'')) (CannotAddSelfRule [''editor'']))
     (RequireAtLeast_ValidateRemoval ''editor'' 1 (Some PrincipalUser))"

text \<open>C23. Two roles that a rule of the manager forbids to combine are not held together, in its scope,
  by a principal whose roles it has just extended.\<close>

theorem roles_not_combined:
  assumes "wf_stored s" "PrincipalRef_Validate who = None" "AddRoles m s who roles assigner = (None, s')"
    and "CannotCombineRolesRule a b \<in> set (ram_assignmentRules m)"
  shows "\<not> (a \<in> held_roles m s' who \<and> b \<in> held_roles m s' who)"
proof -
  have can: "CanAddRoles m s who assigner roles = None"
    and run: "each_role (\<lambda>s r. ram_assignRole m s who r) roles s = (None, s')"
    using assms(3) by (auto simp: AddRoles_def split: option.splits)
  have "\<not> (a \<in> held_roles m s who \<union> set roles \<and> b \<in> held_roles m s who \<union> set roles)"
    using CanAddRoles_rules [OF assms(1,2) can assms(4)] unfolding CannotCombineRolesRule_None by metis
  with each_assign_held [OF assms(1) run] show ?thesis by blast
qed

lemma demo_manager_rules:
  "CannotCombineRolesRule ''editor'' ''guest'' \<in> set (ram_assignmentRules demo_manager)"
  "CannotAddSelfRule [''editor''] \<in> set (ram_assignmentRules demo_manager)"
  "RequireAtLeast_ValidateRemoval ''editor'' 1 (Some PrincipalUser) \<in> set (ram_removeRules demo_manager)"
  by (simp_all add: demo_manager_def AddAssignmentRule_def AddRemovalRule_def NewRoleAssignmentManager_def)

lemma demo_alice_valid: "PrincipalRef_Validate demo_alice = None"
  by (simp add: demo_alice_def PrincipalRef_Validate_None valid_kinds_def)

lemma demo_adds:
  "\<exists>s'. AddRoles demo_manager demo demo_alice [''viewer''] (Some demo_alice) = (None, s')"
proof -
  have "fst (AddRoles demo_manager demo demo_alice [''viewer''] (Some demo_alice)) = None"
    unfolding demo_eq New_eq demo_store_def by code_simp
  then show ?thesis by (metis prod.collapse)
qed

theorem roles_not_combined_witness:
  "\<exists>s'. AddRoles demo_manager demo demo_alice [''viewer''] (Some demo_alice) = (None, s') \<and>
    \<not> (''editor'' \<in> held_roles demo_manager s' demo_alice \<and> ''guest'' \<in> held_roles demo_manager s' demo_alice)"
  using demo_adds roles_not_combined [OF demo_wf(1) demo_alice_valid _ demo_manager_rules(1)] by blast

text \<open>C24. A principal can neither give itself a role that a self-assignment rule names (or any role, if
  the rule names none), nor take one from itself that a self-removal rule names: an accepted change
  contains only roles that it held already, or held none of.\<close>

theorem self_changes_guarded:
  assumes "wf_stored s" "PrincipalRef_Validate who = None"
  shows "(CannotAddSelfRule ids \<in> set (ram_assignmentRules m) \<and> fst (AddRoles m s who roles (Some who)) = None \<longrightarrow>
      (\<forall>r \<in> set roles. ids = [] \<or> r \<in> set ids \<longrightarrow> r \<in> held_roles m s who)) \<and>
    (CannotRemoveSelfRule ids \<in> set (ram_assignmentRules m) \<and> fst (RemoveRoles m s who roles (Some who)) = None \<longrightarrow>
      (\<forall>r \<in> set roles. ids = [] \<or> r \<in> set ids \<longrightarrow> r \<notin> held_roles m s who))"
proof (intro conjI impI ballI)
  fix r assume add: "CannotAddSelfRule ids \<in> set (ram_assignmentRules m) \<and> fst (AddRoles m s who roles (Some who)) = None"
    and r: "r \<in> set roles" "ids = [] \<or> r \<in> set ids"
  from add have can: "CanAddRoles m s who (Some who) roles = None" by (auto simp: AddRoles_def split: option.splits)
  show "r \<in> held_roles m s who"
    using CanAddRoles_rules [OF assms can conjunct1 [OF add]] r
    by (fastforce simp: CannotAddSelfRule_None same_principal_def)
next
  fix r assume rem: "CannotRemoveSelfRule ids \<in> set (ram_assignmentRules m) \<and> fst (RemoveRoles m s who roles (Some who)) = None"
    and r: "r \<in> set roles" "ids = [] \<or> r \<in> set ids"
  from rem have can: "CanRemoveRoles m s who (Some who) roles = None" by (auto simp: RemoveRoles_def split: option.splits)
  show "r \<notin> held_roles m s who"
    using CanRemoveRoles_rules [OF assms can conjunct1 [OF rem]] r
    by (fastforce simp: CannotRemoveSelfRule_None same_principal_def)
qed

lemma demo_self_add: "fst (AddRoles demo_manager demo demo_alice [''editor''] (Some demo_alice)) = None"
  unfolding demo_eq New_eq demo_store_def by code_simp

theorem self_changes_guarded_witness:
  "fst (AddRoles demo_manager demo demo_alice [''editor''] (Some demo_alice)) = None \<and>
   ''editor'' \<in> held_roles demo_manager demo demo_alice"
  using self_changes_guarded [OF demo_wf(1) demo_alice_valid, of "[''editor'']" demo_manager "[''editor'']"]
    demo_self_add demo_manager_rules(2) by simp

text \<open>C25. If the manager has a rule that keeps a user in a role, a permitted bulk removal leaves, however
  it ends, a user outside the removed ones who holds the role in the manager's scope.\<close>

theorem bulk_removal_keeps_holder:
  assumes "wf_stored s" "RequireAtLeast_ValidateRemoval r lo (Some PrincipalUser) \<in> set (ram_removeRules m)"
    and "CanRemoveBulkUsers m s users groups = None" "RemoveBulkUsers me m s users groups assigner = (e, s')"
  shows "\<exists>u. u \<notin> set users \<and> r \<in> held_roles m s' \<lparr>pr_Kind = PrincipalUser, pr_ID = u\<rparr>"
proof -
  obtain hits where hits: "scoped_hits s r (ram_base m) = Inr hits"
    and in_hits: "\<forall>h. h \<in> set hits \<longleftrightarrow> rh_RoleID h = r \<and> PrincipalRef_Validate (rh_Principal h) = None \<and>
      \<lparr>ra_RoleID = r, ra_BindingValues = rh_BindingValues h\<rparr>
        \<in> set (filterAssignmentsByScope (principal_roles (sv_store s) (rh_Principal h))
          (rm_teamScope (ram_base m)) (rm_objectScope (ram_base m)))"
    using scoped_hits_boot [OF assms(1)] by blast
  have "RequireAtLeast_ValidateRemoval r lo (Some PrincipalUser) s users groups (ram_base m) = None"
    using assms(2,3) by (simp add: CanRemoveBulkUsers_def first_error_None)
  then obtain h where h: "h \<in> set hits" "pr_Kind (rh_Principal h) = PrincipalUser" "pr_ID (rh_Principal h) \<notin> set users"
    using RequireAtLeast_user_None [OF hits] by blast
  define q where "q = rh_Principal h"
  have q: "q = \<lparr>pr_Kind = PrincipalUser, pr_ID = pr_ID q\<rparr>" "PrincipalRef_Validate q = None"
    using h(1,2) in_hits by (simp_all add: q_def)
  have out: "q \<notin> set (map (\<lambda>u. \<lparr>pr_Kind = PrincipalUser, pr_ID = u\<rparr>) users @
      map (\<lambda>g. \<lparr>pr_Kind = PrincipalGroup, pr_ID = g\<rparr>) groups)"
    using h(2,3) by (auto simp: q_def PrincipalUser_def PrincipalGroup_def)
  obtain res where "remove_each me m assigner (map (\<lambda>u. \<lparr>pr_Kind = PrincipalUser, pr_ID = u\<rparr>) users @
      map (\<lambda>g. \<lparr>pr_Kind = PrincipalGroup, pr_ID = g\<rparr>) groups) None s = (res, s')"
    using assms(3,4) by (auto simp: RemoveBulkUsers_def split: prod.splits sum.splits)
  from remove_each_frame [OF assms(1) this q(2) out]
  have "held_roles m s' q = held_roles m s q" by (simp add: held_roles_def)
  moreover have "r \<in> held_roles m s q"
    using h(1) in_hits unfolding held_roles_def q_def by (metis image_eqI role_assignment.select_convs(1))
  ultimately show ?thesis using q(1) h(3) unfolding q_def by metis
qed

text \<open>An instance of the error library that keeps every error it is given.\<close>

definition error_parts :: "goerror option \<Rightarrow> goerror list" where
  "error_parts e = (case e of None \<Rightarrow> [] | Some (MultiError es) \<Rightarrow> es | Some err \<Rightarrow> [err])"

definition me_list :: multierror where
  "me_list = \<lparr>me_Append = \<lambda>a es. Some (MultiError (error_parts a @ concat (map error_parts es))),
     me_ErrorOrNil = \<lambda>a. if no_error a then None else a\<rparr>"

lemma error_parts_Nil: "error_parts e = [] \<longleftrightarrow> no_error e"
  by (auto simp: error_parts_def no_error_def split: option.splits goerror.splits)

lemma me_list_collects: "collects_errors me_list"
  by (auto simp: collects_errors_def me_list_def no_error_def [of "Some (MultiError _)"] error_parts_Nil)

theorem bulk_removal_keeps_holder_witness:
  "\<exists>s'. RemoveBulkUsers me_list demo_manager demo [''bob''] [] None = (None, s') \<and>
    (\<exists>u. u \<noteq> ''bob'' \<and> ''editor'' \<in> held_roles demo_manager s' \<lparr>pr_Kind = PrincipalUser, pr_ID = u\<rparr>)"
proof -
  have can: "CanRemoveBulkUsers demo_manager demo [''bob''] [] = None"
    unfolding demo_eq New_eq demo_store_def by code_simp
  have "fst (RemoveBulkUsers me_list demo_manager demo [''bob''] [] None) = None"
    unfolding demo_eq New_eq demo_store_def by code_simp
  then obtain s' where s': "RemoveBulkUsers me_list demo_manager demo [''bob''] [] None = (None, s')"
    by (metis prod.collapse)
  from bulk_removal_keeps_holder [OF demo_wf(1) demo_manager_rules(3) can s'] s' show ?thesis by auto
qed

text \<open>C26. Cleaning up a team succeeds only with its full effect: the team keeps exactly its assignments
  of roles outside the manager, and no other principal's assignments change.\<close>

theorem team_cleanup_effect:
  assumes "collects_errors me" "wf_stored s" "CleanupTeamRoleAssignments me m s teamID = (None, s')"
    and "PrincipalRef_Validate q = None"
  shows "principal_roles (sv_store s') q =
    (if q = \<lparr>pr_Kind = PrincipalTeam, pr_ID = teamID\<rparr>
     then filter (\<lambda>x. ra_RoleID x \<notin> set (rm_managedRoles (ram_base m))) (principal_roles (sv_store s) q)
     else principal_roles (sv_store s) q)"
proof -
  define team where "team = \<lparr>pr_Kind = PrincipalTeam, pr_ID = teamID\<rparr>"
  have valid: "PrincipalRef_Validate team = None"
    using assms(3) by (simp add: CleanupTeamRoleAssignments_def team_def Let_def split: option.splits)
  define as where "as = principal_roles (sv_store s) team"
  have as: "service_RoleAssignmentsForPrincipal s team = Inr as"
    using assms(2) valid by (simp add: as_def service_RoleAssignmentsForPrincipal_def wf_stored_def
        bootstrap_RoleAssignmentsForPrincipal_eq)
  obtain merr where merr: "cleanup_team me m team as None s = (merr, s')" "no_error merr"
    using assms(3) valid as
    by (auto simp: CleanupTeamRoleAssignments_def team_def [symmetric] Let_def
        collects_errors_nil [OF assms(1)] split: prod.splits)
  have "unassign_matches (ra_RoleID x) (ra_BindingValues x) x" if "x \<in> set as" for x
    using that assms(2) wf_principal_roles [of "sv_store s" x team]
    by (simp add: unassign_matches_def as_def wf_stored_def wf_assignment_def)
  then have "filter (\<lambda>x. \<not> (\<exists>a \<in> set as. ra_RoleID a \<in> set (rm_managedRoles (ram_base m)) \<and>
         unassign_matches (ra_RoleID a) (ra_BindingValues a) x)) as =
      filter (\<lambda>x. ra_RoleID x \<notin> set (rm_managedRoles (ram_base m))) as"
    by (intro filter_cong) (auto simp: unassign_matches_def)
  with cleanup_team_effect [OF assms(1,4,2) merr] show ?thesis
    by (simp add: team_def [symmetric] as_def)
qed

definition demo_team_service :: boot_service where
  "demo_team_service = snd (service_AssignRole (snd (service_AssignRole demo
     \<lparr>pr_Kind = PrincipalTeam, pr_ID = ''red''\<rparr> ''editor'' []))
     \<lparr>pr_Kind = PrincipalTeam, pr_ID = ''red''\<rparr> ''viewer'' [])"

theorem team_cleanup_effect_witness:
  "\<exists>s'. CleanupTeamRoleAssignments me_list demo_manager demo_team_service ''red'' = (None, s') \<and>
    principal_roles (sv_store s') \<lparr>pr_Kind = PrincipalTeam, pr_ID = ''red''\<rparr> =
      [\<lparr>ra_RoleID = ''viewer'', ra_BindingValues = []\<rparr>]"
proof -
  have wf: "wf_stored demo_team_service"
    unfolding demo_team_service_def by (metis demo_wf(1) wf_stored_assignments(1) prod.collapse)
  have run: "fst (CleanupTeamRoleAssignments me_list demo_manager demo_team_service ''red'') = None"
    "principal_roles (sv_store demo_team_service) \<lparr>pr_Kind = PrincipalTeam, pr_ID = ''red''\<rparr> =
       [\<lparr>ra_RoleID = ''editor'', ra_BindingValues = []\<rparr>, \<lparr>ra_RoleID = ''viewer'', ra_BindingValues = []\<rparr>]"
    unfolding demo_team_service_def demo_eq New_eq demo_store_def by code_simp+
  obtain s' where s': "CleanupTeamRoleAssignments me_list demo_manager demo_team_service ''red'' = (None, s')"
    using run(1) by (metis prod.collapse)
  have valid: "PrincipalRef_Validate \<lparr>pr_Kind = PrincipalTeam, pr_ID = ''red''\<rparr> = None"
    by (simp add: PrincipalRef_Validate_None valid_kinds_def)
  have managed: "set (rm_managedRoles (ram_base demo_manager)) = {''editor'', ''guest''}"
    by (simp add: demo_manager_def AddAssignmentRule_def AddRemovalRule_def NewRoleAssignmentManager_def)
  from team_cleanup_effect [OF me_list_collects wf s' valid] s' show ?thesis
    by (simp add: run(2) managed)
qed

text \<open>What the instance bounds count: the in-scope hits under the assignee's own ID, and none when the
  proposed assignments do not name the role.\<close>

definition own_hits :: "string \<Rightarrow> role_assignment list \<Rightarrow> principal_ref \<Rightarrow> role_assignment_hit list \<Rightarrow> role_assignment_hit list" where
  "own_hits roleID proposed assignee hits =
     (if roleID \<in> ra_RoleID ` set proposed then filter (\<lambda>h. pr_ID (rh_Principal h) = pr_ID assignee) hits else [])"

definition in_bounds :: "int \<Rightarrow> int \<Rightarrow> int \<Rightarrow> bool" where
  "in_bounds lo hi n \<longleftrightarrow> lo \<le> n \<and> (0 < hi \<longrightarrow> n \<le> hi)"

lemma check_bounds_None: "check_bounds noun roleID lo hi n = None \<longleftrightarrow> in_bounds lo hi n"
  by (auto simp: check_bounds_def in_bounds_def)

text \<open>C27. The instance bounds hold for the assignee alone: the rule compares them with the number of
  hits under the assignee's own ID - of the configured kind, or of users, groups and teams together
  when none is configured - and never with the number of holders. So to an assignee without an
  instance it grants or refuses everything by its minimum, whatever its maximum and however many others
  hold the role: with a positive minimum it also refuses the change that adds the first instance. For any
  other configured kind, such as roles, it never refuses.\<close>

theorem instance_bounds_see_assignee_only:
  assumes "scoped_hits s roleID ram = Inr hits"
  shows "(MinMaxInstancesRule roleID lo hi kind s current proposed assignee assigner ram = None \<longleftrightarrow>
      (case kind of
         None \<Rightarrow> in_bounds lo hi (count_kind PrincipalUser (own_hits roleID proposed assignee hits) +
           count_kind PrincipalGroup (own_hits roleID proposed assignee hits) +
           count_kind PrincipalTeam (own_hits roleID proposed assignee hits))
       | Some k \<Rightarrow> k \<in> {PrincipalUser, PrincipalGroup, PrincipalTeam} \<longrightarrow>
           in_bounds lo hi (count_kind k (own_hits roleID proposed assignee hits)))) \<and>
    ((\<forall>h \<in> set hits. pr_ID (rh_Principal h) \<noteq> pr_ID assignee) \<longrightarrow>
      (MinMaxInstancesRule roleID lo hi kind s current proposed assignee assigner ram = None \<longleftrightarrow>
         lo \<le> 0 \<or> (\<exists>k. kind = Some k \<and> k \<notin> {PrincipalUser, PrincipalGroup, PrincipalTeam})))"
proof -
  have counted: "filter (\<lambda>h. pr_ID (rh_Principal h) \<in> (if list_ex (\<lambda>p. ra_RoleID p = roleID) proposed then {pr_ID assignee} else {})) hits =
      own_hits roleID proposed assignee hits"
    by (auto simp: own_hits_def list_ex_iff)
  have rule: "MinMaxInstancesRule roleID lo hi kind s current proposed assignee assigner ram = None \<longleftrightarrow>
      (case kind of
         None \<Rightarrow> in_bounds lo hi (count_kind PrincipalUser (own_hits roleID proposed assignee hits) +
           count_kind PrincipalGroup (own_hits roleID proposed assignee hits) +
           count_kind PrincipalTeam (own_hits roleID proposed assignee hits))
       | Some k \<Rightarrow> k \<in> {PrincipalUser, PrincipalGroup, PrincipalTeam} \<longrightarrow>
           in_bounds lo hi (count_kind k (own_hits roleID proposed assignee hits)))"
    unfolding MinMaxInstancesRule_def assms Let_def counted sum.case
    by (auto simp: check_bounds_None split: option.split)
  moreover have "own_hits roleID proposed assignee hits = []" if "\<forall>h \<in> set hits. pr_ID (rh_Principal h) \<noteq> pr_ID assignee"
    using that by (simp add: own_hits_def)
  ultimately show ?thesis by (auto simp: count_kind_def in_bounds_def split: option.splits)
qed

text \<open>Alice holds the role, and the maximum of one does not keep Bob from getting it; a minimum of one
  does.\<close>

theorem instance_bounds_see_assignee_only_witness:
  "\<exists>hits. scoped_hits demo ''editor'' (ram_base demo_manager) = Inr hits \<and> hits \<noteq> [] \<and>
    MinMaxInstancesRule ''editor'' 0 1 (Some PrincipalUser) demo []
      [\<lparr>ra_RoleID = ''editor'', ra_BindingValues = []\<rparr>] \<lparr>pr_Kind = PrincipalUser, pr_ID = ''bob''\<rparr> None
      (ram_base demo_manager) = None \<and>
    MinMaxInstancesRule ''editor'' 1 9 (Some PrincipalUser) demo []
      [\<lparr>ra_RoleID = ''editor'', ra_BindingValues = []\<rparr>] \<lparr>pr_Kind = PrincipalUser, pr_ID = ''bob''\<rparr> None
      (ram_base demo_manager) \<noteq> None"
proof -
  have hits: "scoped_hits demo ''editor'' (ram_base demo_manager) =
      Inr [\<lparr>rh_RoleID = ''editor'', rh_BindingValues = [], rh_Principal = demo_alice\<rparr>]"
    unfolding demo_eq New_eq demo_store_def by code_simp
  have "\<forall>h \<in> set [\<lparr>rh_RoleID = ''editor'', rh_BindingValues = [], rh_Principal = demo_alice\<rparr>].
      pr_ID (rh_Principal h) \<noteq> pr_ID \<lparr>pr_Kind = PrincipalUser, pr_ID = ''bob''\<rparr>"
    by (simp add: demo_alice_def)
  note bounds = instance_bounds_see_assignee_only [OF hits, THEN conjunct2, rule_format, OF this [rule_format]]
  from bounds hits show ?thesis by simp
qed

end
