(* ===== verification/Permission_Objects.thy ===== *)
theory Permission_Objects
  imports Evaluation
begin

text \<open>
  The permission objects of \<open>utilities.go\<close>: system, team and object permissions ask a \<open>Checker\<close> and
  turn every error into a denial. A checker is a method table over its data; the two extensions
  that the code finds by type assertion are optional entries. The lists of teams and objects are
  asked one by one, each answer passing on the checker's data.
\<close>

section \<open>Checkers\<close>

record 's checker =
  ck_HasPermission :: "'s \<Rightarrow> request \<Rightarrow> bool result \<times> 's"
  ck_GetSubjectID :: "('s \<Rightarrow> subject \<Rightarrow> string result) option"
  ck_AllowedTeamsForUser :: "('s \<Rightarrow> string \<Rightarrow> string \<Rightarrow> (bool \<times> string list) result \<times> 's) option"

definition extractSubjectID :: "'s \<Rightarrow> 's checker option \<Rightarrow> subject \<Rightarrow> string result" where
  "extractSubjectID s checker subj =
     (case checker of
        None \<Rightarrow> DefaultSubjectID subj
      | Some ck \<Rightarrow> (case ck_GetSubjectID ck of Some ext \<Rightarrow> ext s subj | None \<Rightarrow> DefaultSubjectID subj))"

text \<open>
  The service as a checker. Its \<open>AllowedTeamsForUser\<close> returns two values, the interface asked for has
  a method with three, so the assertion fails.
\<close>

definition service_checker :: "time \<Rightarrow> 's service checker" where
  "service_checker now = \<lparr>ck_HasPermission = HasPermission now, ck_GetSubjectID = Some GetSubjectID,
     ck_AllowedTeamsForUser = None\<rparr>"

section \<open>Permissions\<close>

record 's permission_meta =
  pm_id :: string
  pm_namespace :: string
  pm_name :: string
  pm_description :: string
  pm_fields :: "string list"
  pm_checker :: "'s checker option"

definition newPermissionMeta :: "string \<Rightarrow> string \<Rightarrow> string \<Rightarrow> string \<Rightarrow> 's permission_meta" where
  "newPermissionMeta i namespace name description = \<lparr>pm_id = i, pm_namespace = namespace, pm_name = name,
     pm_description = description, pm_fields = [], pm_checker = None\<rparr>"

definition withChecker :: "'s permission_meta \<Rightarrow> 's checker option \<Rightarrow> 's permission_meta" where
  "withChecker p checker = p\<lparr>pm_checker := checker\<rparr>"

definition withFields :: "'s permission_meta \<Rightarrow> string list \<Rightarrow> 's permission_meta" where
  "withFields p fs = p\<lparr>pm_fields := fs\<rparr>"

definition ensureChecker :: "'s permission_meta \<Rightarrow> goerror option" where
  "ensureChecker p =
     (if pm_checker p = None then Some (Errorf ''permission %q has no checker configured'' [pm_id p]) else None)"

text \<open>\<open>SystemPermission\<close>, \<open>TeamPermission\<close> and \<open>ObjectPermission\<close> are the same struct with different
  methods; every method ends in one question to the checker.\<close>

definition ask_checker :: "'s permission_meta \<Rightarrow> request \<Rightarrow> 's \<Rightarrow> bool \<times> 's" where
  "ask_checker p req s =
     (if ensureChecker p \<noteq> None then (False, s)
      else case pm_checker p of
             None \<Rightarrow> (False, s)
           | Some ck \<Rightarrow>
               (case ck_HasPermission ck s req of
                  (Inl e, s') \<Rightarrow> (False, s')
                | (Inr answer, s') \<Rightarrow> (answer, s')))"

definition for_subject :: "'s permission_meta \<Rightarrow> 's \<Rightarrow> subject \<Rightarrow> 'a \<Rightarrow> (string \<Rightarrow> 'a \<times> 's) \<Rightarrow> 'a \<times> 's" where
  "for_subject p s subj refused f =
     (case extractSubjectID s (pm_checker p) subj of Inl e \<Rightarrow> (refused, s) | Inr userID \<Rightarrow> f userID)"

text \<open>The three loops, over a question that passes on the data.\<close>

fun any_of :: "('a \<Rightarrow> 's \<Rightarrow> bool \<times> 's) \<Rightarrow> 'a list \<Rightarrow> 's \<Rightarrow> bool \<times> 's" where
  "any_of can [] s = (False, s)"
| "any_of can (x # xs) s = (let (ok, s') = can x s in if ok then (True, s') else any_of can xs s')"

fun all_of :: "('a \<Rightarrow> 's \<Rightarrow> bool \<times> 's) \<Rightarrow> 'a list \<Rightarrow> 's \<Rightarrow> bool \<times> 's" where
  "all_of can [] s = (True, s)"
| "all_of can (x # xs) s = (let (ok, s') = can x s in if \<not> ok then (False, s') else all_of can xs s')"

fun filter_of :: "('a \<Rightarrow> 's \<Rightarrow> bool \<times> 's) \<Rightarrow> 'a list \<Rightarrow> 's \<Rightarrow> 'a list \<times> 's" where
  "filter_of can [] s = ([], s)"
| "filter_of can (x # xs) s =
     (let (ok, s1) = can x s; (allowed, s2) = filter_of can xs s1 in (if ok then x # allowed else allowed, s2))"

section \<open>System permissions\<close>

definition system_CanUserID :: "'s permission_meta \<Rightarrow> 's \<Rightarrow> string \<Rightarrow> bool \<times> 's" where
  "system_CanUserID p s userID = ask_checker p (zero_request\<lparr>rq_UserID := userID, rq_Perm := pm_id p\<rparr>) s"

definition system_Can :: "'s permission_meta \<Rightarrow> 's \<Rightarrow> subject \<Rightarrow> bool \<times> 's" where
  "system_Can p s subj = for_subject p s subj False (system_CanUserID p s)"

section \<open>Team permissions\<close>

definition team_CanUserID :: "'s permission_meta \<Rightarrow> 's \<Rightarrow> string \<Rightarrow> string \<Rightarrow> bool \<times> 's" where
  "team_CanUserID p s userID teamID =
     ask_checker p (zero_request\<lparr>rq_UserID := userID, rq_TeamID := teamID, rq_Perm := pm_id p\<rparr>) s"

definition team_Can :: "'s permission_meta \<Rightarrow> 's \<Rightarrow> subject \<Rightarrow> string \<Rightarrow> bool \<times> 's" where
  "team_Can p s subj teamID = for_subject p s subj False (\<lambda>userID. team_CanUserID p s userID teamID)"

definition team_Any :: "'s permission_meta \<Rightarrow> 's \<Rightarrow> subject \<Rightarrow> string list \<Rightarrow> bool \<times> 's" where
  "team_Any p s subj teamIDs =
     (if teamIDs = [] then (False, s)
      else for_subject p s subj False (\<lambda>userID. any_of (\<lambda>teamID s. team_CanUserID p s userID teamID) teamIDs s))"

definition team_All :: "'s permission_meta \<Rightarrow> 's \<Rightarrow> subject \<Rightarrow> string list \<Rightarrow> bool \<times> 's" where
  "team_All p s subj teamIDs =
     (if teamIDs = [] then (True, s)
      else for_subject p s subj False (\<lambda>userID. all_of (\<lambda>teamID s. team_CanUserID p s userID teamID) teamIDs s))"

definition team_Filter :: "'s permission_meta \<Rightarrow> 's \<Rightarrow> subject \<Rightarrow> string list \<Rightarrow> string list \<times> 's" where
  "team_Filter p s subj teamIDs =
     (if teamIDs = [] then ([], s)
      else for_subject p s subj [] (\<lambda>userID. filter_of (\<lambda>teamID s. team_CanUserID p s userID teamID) teamIDs s))"

definition team_AllowedTeams :: "'s permission_meta \<Rightarrow> 's \<Rightarrow> subject \<Rightarrow> (bool \<times> string list) result \<times> 's" where
  "team_AllowedTeams p s subj =
     (case ensureChecker p of
        Some e \<Rightarrow> (Inl e, s)
      | None \<Rightarrow>
          (case extractSubjectID s (pm_checker p) subj of
             Inl e \<Rightarrow> (Inl e, s)
           | Inr userID \<Rightarrow>
               (case Option.bind (pm_checker p) ck_AllowedTeamsForUser of
                  Some ac \<Rightarrow> ac s userID (pm_id p)
                | None \<Rightarrow> (Inl (Errorf ''underlying checker does not support AllowedTeamsForUser'' []), s))))"

section \<open>Object permissions\<close>

definition object_CanUserID :: "'s permission_meta \<Rightarrow> 's \<Rightarrow> string \<Rightarrow> string \<Rightarrow> string option \<Rightarrow> bool \<times> 's" where
  "object_CanUserID p s userID objectID teamID =
     (if ensureChecker p \<noteq> None then (False, s)
      else if objectID = '''' then (False, s)
      else ask_checker p \<lparr>rq_UserID = userID, rq_TeamID = (case teamID of None \<Rightarrow> '''' | Some t \<Rightarrow> t),
             rq_Object = objectID, rq_Perm = pm_id p\<rparr> s)"

definition object_Can :: "'s permission_meta \<Rightarrow> 's \<Rightarrow> subject \<Rightarrow> string \<Rightarrow> string option \<Rightarrow> bool \<times> 's" where
  "object_Can p s subj objectID teamID = for_subject p s subj False (\<lambda>userID. object_CanUserID p s userID objectID teamID)"

text \<open>The object of a leaf and its ancestors is their path, joined with slashes.\<close>

definition buildHierarchyObject :: "string \<Rightarrow> string list \<Rightarrow> string result" where
  "buildHierarchyObject leafID parentPath =
     (if leafID = '''' then Inl (Errorf ''leaf ID is required'' [])
      else if '''' \<in> set parentPath then Inl (Errorf ''parent path entries must be non-empty'' [])
      else Inr (join_with ''/'' (leafID # parentPath)))"

definition object_CanHierarchicalUserID ::
  "'s permission_meta \<Rightarrow> 's \<Rightarrow> string \<Rightarrow> string option \<Rightarrow> string \<Rightarrow> string list \<Rightarrow> bool \<times> 's" where
  "object_CanHierarchicalUserID p s userID teamID leafID parentPath =
     (case buildHierarchyObject leafID parentPath of
        Inl e \<Rightarrow> (False, s)
      | Inr obj \<Rightarrow> object_CanUserID p s userID obj teamID)"

definition object_CanHierarchical ::
  "'s permission_meta \<Rightarrow> 's \<Rightarrow> subject \<Rightarrow> string option \<Rightarrow> string \<Rightarrow> string list \<Rightarrow> bool \<times> 's" where
  "object_CanHierarchical p s subj teamID leafID parentPath =
     for_subject p s subj False (\<lambda>userID. object_CanHierarchicalUserID p s userID teamID leafID parentPath)"

definition object_Any :: "'s permission_meta \<Rightarrow> 's \<Rightarrow> subject \<Rightarrow> string option \<Rightarrow> string list \<Rightarrow> bool \<times> 's" where
  "object_Any p s subj teamID objectIDs =
     (if objectIDs = [] then (False, s)
      else for_subject p s subj False (\<lambda>userID. any_of (\<lambda>objectID s. object_CanUserID p s userID objectID teamID) objectIDs s))"

definition object_All :: "'s permission_meta \<Rightarrow> 's \<Rightarrow> subject \<Rightarrow> string option \<Rightarrow> string list \<Rightarrow> bool \<times> 's" where
  "object_All p s subj teamID objectIDs =
     (if objectIDs = [] then (True, s)
      else for_subject p s subj False (\<lambda>userID. all_of (\<lambda>objectID s. object_CanUserID p s userID objectID teamID) objectIDs s))"

definition object_Filter :: "'s permission_meta \<Rightarrow> 's \<Rightarrow> subject \<Rightarrow> string option \<Rightarrow> string list \<Rightarrow> string list \<times> 's" where
  "object_Filter p s subj teamID objectIDs =
     (if objectIDs = [] then ([], s)
      else for_subject p s subj [] (\<lambda>userID. filter_of (\<lambda>objectID s. object_CanUserID p s userID objectID teamID) objectIDs s))"

definition HierarchicalFilter ::
  "'s permission_meta \<Rightarrow> 's \<Rightarrow> subject \<Rightarrow> string option \<Rightarrow> string list \<Rightarrow> string list \<Rightarrow> string list \<times> 's" where
  "HierarchicalFilter p s subj teamID leafIDs sharedParentPath =
     (if leafIDs = [] then ([], s)
      else for_subject p s subj []
        (\<lambda>userID. filter_of (\<lambda>leafID s. object_CanHierarchicalUserID p s userID teamID leafID sharedParentPath) leafIDs s))"

section \<open>Checkers that answer alike\<close>

text \<open>
  A checker whose questions leave its answers as they are: what it decides in one state it decides
  in every state with the same view, and every question keeps the view.
\<close>

locale stable_checker =
  fixes ck :: "'s checker"
    and view :: "'s \<Rightarrow> 's \<Rightarrow> bool"
  assumes view_refl: "view s s"
    and view_trans: "view s s' \<Longrightarrow> view s' s'' \<Longrightarrow> view s s''"
    and keeps_view: "view s (snd (ck_HasPermission ck s req))"
    and same_decision: "view s s' \<Longrightarrow> fst (ck_HasPermission ck s' req) = Inr True \<longleftrightarrow> fst (ck_HasPermission ck s req) = Inr True"
begin

lemma ask_stable:
  assumes "pm_checker p = Some ck"
  shows "fst (ask_checker p req s) \<longleftrightarrow> fst (ck_HasPermission ck s req) = Inr True" "view s (snd (ask_checker p req s))"
proof -
  obtain r s' where "ck_HasPermission ck s req = (r, s')" by fastforce
  moreover from this have "view s s'" using keeps_view [of s req] by simp
  ultimately show "fst (ask_checker p req s) \<longleftrightarrow> fst (ck_HasPermission ck s req) = Inr True" "view s (snd (ask_checker p req s))"
    using assms by (cases r; simp add: ask_checker_def ensureChecker_def)+
qed

text \<open>A question is steady if it is decided by the view and keeps it.\<close>

definition steady :: "('a \<Rightarrow> 's \<Rightarrow> bool \<times> 's) \<Rightarrow> bool" where
  "steady can \<longleftrightarrow> (\<forall>x s. view s (snd (can x s)) \<and> (\<forall>s'. view s s' \<longrightarrow> fst (can x s') = fst (can x s)))"

lemma steady_step:
  assumes "steady can" "can x s = (a, s')"
  shows "fst (can y s') = fst (can y s)"
  using assms unfolding steady_def by (metis snd_conv)

lemma any_of_steady: "steady can \<Longrightarrow> fst (any_of can xs s) \<longleftrightarrow> (\<exists>x \<in> set xs. fst (can x s))"
proof (induction xs arbitrary: s)
  case (Cons x xs)
  obtain a s' where "can x s = (a, s')" by fastforce
  with Cons.IH [OF Cons.prems, of s'] steady_step [OF Cons.prems this] show ?case by simp
qed simp

lemma all_of_steady: "steady can \<Longrightarrow> fst (all_of can xs s) \<longleftrightarrow> (\<forall>x \<in> set xs. fst (can x s))"
proof (induction xs arbitrary: s)
  case (Cons x xs)
  obtain a s' where "can x s = (a, s')" by fastforce
  with Cons.IH [OF Cons.prems, of s'] steady_step [OF Cons.prems this] show ?case by simp
qed simp

lemma filter_of_steady: "steady can \<Longrightarrow> fst (filter_of can xs s) = filter (\<lambda>x. fst (can x s)) xs"
proof (induction xs arbitrary: s)
  case (Cons x xs)
  obtain a s' where run: "can x s = (a, s')" by fastforce
  obtain ys s2 where "filter_of can xs s' = (ys, s2)" by fastforce
  with run Cons.IH [OF Cons.prems, of s'] steady_step [OF Cons.prems run] show ?case by simp
qed simp

lemma steady_ask:
  assumes "pm_checker p = Some ck"
  shows "steady (\<lambda>x s. ask_checker p (req x) s)"
  using ask_stable [OF assms] same_decision by (simp add: steady_def)

lemma steady_team: "pm_checker p = Some ck \<Longrightarrow> steady (\<lambda>teamID s. team_CanUserID p s userID teamID)"
  unfolding team_CanUserID_def by (rule steady_ask)

lemma steady_object: "pm_checker p = Some ck \<Longrightarrow> steady (\<lambda>objectID s. object_CanUserID p s userID objectID teamID)"
  using ask_stable [of p] same_decision view_refl by (simp add: steady_def object_CanUserID_def)

lemma steady_hierarchy:
  "pm_checker p = Some ck \<Longrightarrow> steady (\<lambda>leafID s. object_CanHierarchicalUserID p s userID teamID leafID parentPath)"
  using steady_object [of p userID teamID] view_refl
  by (auto simp: steady_def object_CanHierarchicalUserID_def split: sum.splits)

end

text \<open>The service is such a checker: a check keeps the view, and the view decides.\<close>

lemma HasPermission_allowed:
  "fst (HasPermission now s req) = Inr True \<longleftrightarrow>
     rq_Perm req \<noteq> '''' \<and> (\<exists>gs. candidate_grants now s req = Inr gs \<and> decide now req None (set gs))"
proof
  assume "fst (HasPermission now s req) = Inr True"
  then have allowed: "fst (evaluatePermission now s req None) = Inr True" by (simp add: HasPermission_def)
  then obtain gs where "candidate_grants now s req = Inr gs" using evaluatePermission_allowed(2) by blast
  with allowed evaluatePermission_allowed(1) [OF allowed] evaluatePermission_decides [of req now s gs None]
  show "rq_Perm req \<noteq> '''' \<and> (\<exists>gs. candidate_grants now s req = Inr gs \<and> decide now req None (set gs))" by simp
next
  assume "rq_Perm req \<noteq> '''' \<and> (\<exists>gs. candidate_grants now s req = Inr gs \<and> decide now req None (set gs))"
  then show "fst (HasPermission now s req) = Inr True"
    using evaluatePermission_decides by (force simp: HasPermission_def)
qed

interpretation service_checks: stable_checker "service_checker now" "same_view now" for now :: time
proof (unfold_locales, goal_cases)
  case (1 s)
  show ?case by (rule same_view_refl)
next
  case (2 s s' s'')
  then show ?case by (rule same_view_trans)
next
  case (3 s req)
  show ?case by (simp add: service_checker_def HasPermission_def evaluatePermission_same_view)
next
  case (4 s s' req)
  then show ?case by (simp add: service_checker_def HasPermission_allowed candidate_grants_cong)
qed

lemma for_subject_service:
  assumes "pm_checker p = Some (service_checker now)" "GetSubjectID s subj = Inr userID"
  shows "for_subject p s subj refused f = f userID"
  using assms by (simp add: for_subject_def extractSubjectID_def service_checker_def)

lemma service_AllowedTeams_unsupported:
  assumes "pm_checker p = Some (service_checker now)" "GetSubjectID s subj = Inr userID"
  shows "team_AllowedTeams p s subj = (Inl (Errorf ''underlying checker does not support AllowedTeamsForUser'' []), s)"
  using assms by (simp add: team_AllowedTeams_def ensureChecker_def extractSubjectID_def service_checker_def)

section \<open>Hierarchies\<close>

lemma split_on_free: "CHR ''/'' \<notin> set x \<Longrightarrow> split_on CHR ''/'' x = [x]"
  by (induction x) auto

lemma split_on_slash: "CHR ''/'' \<notin> set x \<Longrightarrow> split_on CHR ''/'' (x @ ''/'' @ r) = x # split_on CHR ''/'' r"
  by (induction x) auto

lemma split_join: "xs \<noteq> [] \<Longrightarrow> \<forall>x \<in> set xs. CHR ''/'' \<notin> set x \<Longrightarrow> split_on CHR ''/'' (join_with ''/'' xs) = xs"
proof (induction xs)
  case (Cons x xs)
  show ?case
  proof (cases xs)
    case Nil
    with Cons.prems show ?thesis by (simp add: split_on_free)
  next
    case (Cons y ys)
    have "split_on CHR ''/'' (join_with ''/'' (x # xs)) = x # split_on CHR ''/'' (join_with ''/'' xs)"
      using split_on_slash [of x "join_with ''/'' xs"] Cons.prems Cons by simp
    with Cons.IH Cons.prems Cons show ?thesis by simp
  qed
qed simp

text \<open>IDs without slashes make distinct objects; with slashes two paths can be the same object.\<close>

lemma buildHierarchyObject_inj:
  assumes "buildHierarchyObject x xs = Inr obj" "buildHierarchyObject y ys = Inr obj"
    and "\<forall>i \<in> set (x # xs). CHR ''/'' \<notin> set i" "\<forall>i \<in> set (y # ys). CHR ''/'' \<notin> set i"
  shows "x = y \<and> xs = ys"
proof -
  have "join_with ''/'' (x # xs) = join_with ''/'' (y # ys)"
    using assms(1,2) by (simp add: buildHierarchyObject_def split: if_splits)
  then have "x # xs = y # ys" by (metis split_join assms(3,4) list.discI)
  then show ?thesis by simp
qed

lemma slash_collision: "buildHierarchyObject ''a/b'' [] = buildHierarchyObject ''a'' [''b'']"
  by (simp add: buildHierarchyObject_def)

end
