(* ===== verification/Permission_Registry.thy ===== *)
theory Permission_Registry
  imports Permission_Objects
begin

text \<open>
  The registry of permission definitions (\<open>registry.go\<close>): a map by ID that accepts a valid
  definition once, and lists its definitions by ID. Definitions are values, so the copies that the
  code makes of them do not show.
\<close>

section \<open>Definitions\<close>

definition PermissionScopeSystem :: string where "PermissionScopeSystem = ''system''"
definition PermissionScopeTeam :: string where "PermissionScopeTeam = ''team''"
definition PermissionScopeObject :: string where "PermissionScopeObject = ''object''"

record permission_definition =
  pd_ID :: string
  pd_Scope :: string
  pd_Namespace :: string
  pd_Name :: string
  pd_Description :: string
  pd_Fields :: "string list"

definition PermissionDefinition_Validate :: "permission_definition \<Rightarrow> goerror option" where
  "PermissionDefinition_Validate d =
     (if TrimSpace (pd_ID d) = '''' then Some (Errorf ''permission ID is required'' [])
      else if pd_Scope d \<noteq> PermissionScopeSystem \<and> pd_Scope d \<noteq> PermissionScopeTeam \<and> pd_Scope d \<noteq> PermissionScopeObject
      then Some (Errorf ''permission scope must be one of %q, %q, %q''
        [PermissionScopeSystem, PermissionScopeTeam, PermissionScopeObject])
      else if TrimSpace (pd_Namespace d) = '''' then Some (Errorf ''permission namespace is required'' [])
      else if TrimSpace (pd_Name d) = '''' then Some (Errorf ''permission name is required'' [])
      else None)"

definition permission_definition_of :: "string \<Rightarrow> 's permission_meta \<Rightarrow> permission_definition" where
  "permission_definition_of scope p = \<lparr>pd_ID = pm_id p, pd_Scope = scope, pd_Namespace = pm_namespace p,
     pd_Name = pm_name p, pd_Description = pm_description p, pd_Fields = pm_fields p\<rparr>"

definition system_Definition :: "'s permission_meta \<Rightarrow> permission_definition" where
  "system_Definition p = permission_definition_of PermissionScopeSystem p"

definition team_Definition :: "'s permission_meta \<Rightarrow> permission_definition" where
  "team_Definition p = permission_definition_of PermissionScopeTeam p"

definition object_Definition :: "'s permission_meta \<Rightarrow> permission_definition" where
  "object_Definition p = permission_definition_of PermissionScopeObject p"

section \<open>The registry\<close>

record permission_registry =
  rg_byID :: "(string, permission_definition) gomap"

definition NewPermissionRegistry :: permission_registry where
  "NewPermissionRegistry = \<lparr>rg_byID = []\<rparr>"

definition Register :: "permission_registry \<Rightarrow> permission_definition \<Rightarrow> permission_registry update" where
  "Register r d =
     (case PermissionDefinition_Validate d of
        Some e \<Rightarrow> (Some e, r)
      | None \<Rightarrow>
          if map_of (rg_byID r) (pd_ID d) \<noteq> None
          then (Some (Errorf ''permission %q is already registered'' [pd_ID d]), r)
          else (None, r\<lparr>rg_byID := AList.update (pd_ID d) d (rg_byID r)\<rparr>))"

text \<open>\<open>MustRegister\<close> panics with the error, known here by its format.\<close>

fun panic_with :: "goerror \<Rightarrow> goerror" where
  "panic_with (Errorf f as) = GoPanic f"
| "panic_with e = e"

definition MustRegister :: "permission_registry \<Rightarrow> permission_definition \<Rightarrow> permission_registry update" where
  "MustRegister r d =
     (case Register r d of (Some e, r') \<Rightarrow> (Some (panic_with e), r') | (None, r') \<Rightarrow> (None, r'))"

definition registry_Get :: "permission_registry \<Rightarrow> string \<Rightarrow> permission_definition option" where
  "registry_Get r permissionID = map_of (rg_byID r) permissionID"

definition registry_Exists :: "permission_registry \<Rightarrow> string \<Rightarrow> bool" where
  "registry_Exists r permissionID \<longleftrightarrow> map_of (rg_byID r) permissionID \<noteq> None"

definition registry_List :: "permission_registry \<Rightarrow> permission_definition list" where
  "registry_List r = sort_key pd_ID (map snd (rg_byID r))"

definition ListByNamespace :: "permission_registry \<Rightarrow> string \<Rightarrow> permission_definition list" where
  "ListByNamespace r namespace = sort_key pd_ID (filter (\<lambda>d. pd_Namespace d = namespace) (map snd (rg_byID r)))"

definition registry_Len :: "permission_registry \<Rightarrow> int" where
  "registry_Len r = int (length (rg_byID r))"

section \<open>What it holds\<close>

text \<open>Every definition is stored under its ID and is valid.\<close>

definition registry_ok :: "permission_registry \<Rightarrow> bool" where
  "registry_ok r \<longleftrightarrow> wf_gomap (rg_byID r) \<and>
     (\<forall>(i, d) \<in> set (rg_byID r). pd_ID d = i \<and> PermissionDefinition_Validate d = None)"

lemma registry_ok_New [simp]: "registry_ok NewPermissionRegistry"
  by (simp add: registry_ok_def NewPermissionRegistry_def)

lemma Register_cases:
  assumes "Register r d = (e, r')"
  obtains (rejected) "e \<noteq> None" "r' = r" "PermissionDefinition_Validate d \<noteq> None \<or> registry_Exists r (pd_ID d)"
    | (added) "e = None" "PermissionDefinition_Validate d = None" "\<not> registry_Exists r (pd_ID d)"
        "rg_byID r' = rg_byID r @ [(pd_ID d, d)]"
proof (cases "PermissionDefinition_Validate d = None \<and> \<not> registry_Exists r (pd_ID d)")
  case True
  then have "pd_ID d \<notin> fst ` set (rg_byID r)" by (simp add: registry_Exists_def map_of_eq_None_iff)
  with True assms show ?thesis by (intro added) (auto simp: Register_def registry_Exists_def update_fresh)
next
  case False
  have "fst (Register r d) \<noteq> None \<and> snd (Register r d) = r"
    using False by (cases "PermissionDefinition_Validate d") (simp_all add: Register_def registry_Exists_def)
  with assms False show ?thesis by (intro rejected) auto
qed

lemma registry_ok_Register:
  assumes "registry_ok r" "Register r d = (e, r')"
  shows "registry_ok r'"
  using assms(2)
proof (cases rule: Register_cases)
  case added
  with assms(1) show ?thesis
    by (auto simp: registry_ok_def wf_gomap_def registry_Exists_def map_of_eq_None_iff)
qed (use assms(1) in simp)

definition register_all :: "permission_definition list \<Rightarrow> permission_registry \<Rightarrow> permission_registry" where
  "register_all ds r = fold (\<lambda>d r. snd (Register r d)) ds r"

lemma registry_ok_register_all: "registry_ok r \<Longrightarrow> registry_ok (register_all ds r)"
proof (induction ds arbitrary: r)
  case (Cons d ds)
  have "registry_ok (snd (Register r d))" using registry_ok_Register [OF Cons.prems] by (metis prod.collapse)
  with Cons.IH show ?case by (simp add: register_all_def)
qed (simp add: register_all_def)

text \<open>A lookup finds the first valid definition with the ID that was offered.\<close>

lemma registry_Get_register_all:
  "registry_Get (register_all ds r) i =
     (case registry_Get r i of Some d \<Rightarrow> Some d | None \<Rightarrow> find (\<lambda>d. PermissionDefinition_Validate d = None \<and> pd_ID d = i) ds)"
proof (induction ds arbitrary: r)
  case (Cons d ds)
  obtain e r1 where reg: "Register r d = (e, r1)" by fastforce
  then have all: "register_all (d # ds) r = register_all ds r1" by (simp add: register_all_def)
  from reg show ?case
  proof (cases rule: Register_cases)
    case rejected
    then have "registry_Get r i = None \<Longrightarrow> \<not> (PermissionDefinition_Validate d = None \<and> pd_ID d = i)"
      by (auto simp: registry_Get_def registry_Exists_def)
    with rejected show ?thesis by (auto simp: all Cons.IH split: option.splits)
  next
    case added
    then have "registry_Get r1 i = (if pd_ID d = i then Some d else registry_Get r i)"
      by (auto simp: registry_Get_def registry_Exists_def map_add_def split: option.splits)
    moreover have "registry_Get r (pd_ID d) = None" using added(3) by (simp add: registry_Exists_def registry_Get_def)
    ultimately show ?thesis using added(2) by (auto simp: all Cons.IH split: option.splits)
  qed
qed (simp add: register_all_def split: option.split)

text \<open>The list has every registered definition once, in the order of the IDs.\<close>

lemma registry_List_correct:
  assumes "registry_ok r"
  shows "sorted (map pd_ID (registry_List r))" "distinct (map pd_ID (registry_List r))"
    "d \<in> set (registry_List r) \<longleftrightarrow> registry_Get r (pd_ID d) = Some d" "int (length (registry_List r)) = registry_Len r"
proof -
  have ids: "map pd_ID (map snd (rg_byID r)) = map fst (rg_byID r)"
    using assms by (auto simp: registry_ok_def)
  show "sorted (map pd_ID (registry_List r))" by (simp add: registry_List_def)
  have "mset (map pd_ID (registry_List r)) = mset (map fst (rg_byID r))"
    unfolding ids [symmetric] by (simp only: registry_List_def mset_map mset_sort)
  then show "distinct (map pd_ID (registry_List r))"
    using assms by (metis mset_eq_imp_distinct_iff registry_ok_def wf_gomap_def)
  show "d \<in> set (registry_List r) \<longleftrightarrow> registry_Get r (pd_ID d) = Some d"
    using assms by (force simp: registry_List_def registry_Get_def registry_ok_def wf_gomap_in_iff [symmetric] image_iff split_beta)
  show "int (length (registry_List r)) = registry_Len r" by (simp add: registry_List_def registry_Len_def)
qed

text \<open>New valid definitions with different IDs are all accepted.\<close>

lemma register_all_new:
  assumes "\<forall>d \<in> set ds. PermissionDefinition_Validate d = None \<and> \<not> registry_Exists r (pd_ID d)" "distinct (map pd_ID ds)"
  shows "rg_byID (register_all ds r) = rg_byID r @ map (\<lambda>d. (pd_ID d, d)) ds"
  using assms
proof (induction ds arbitrary: r)
  case (Cons d ds)
  obtain e r1 where reg: "Register r d = (e, r1)" by fastforce
  then have byID: "rg_byID r1 = rg_byID r @ [(pd_ID d, d)]"
    using Cons.prems(1) by (cases rule: Register_cases) auto
  have "pd_ID d' \<noteq> pd_ID d" if "d' \<in> set ds" for d'
    using Cons.prems(2) that by (metis distinct.simps(2) imageI list.set_map list.simps(9))
  then have "\<forall>d' \<in> set ds. PermissionDefinition_Validate d' = None \<and> \<not> registry_Exists r1 (pd_ID d')"
    using Cons.prems(1) byID by (auto simp: registry_Exists_def map_add_def split: option.splits)
  then show ?case using Cons.IH [of r1] Cons.prems(2) reg byID by (simp add: register_all_def)
qed (simp add: register_all_def)

end
