(* ===== verification/Crud_Permissions.thy ===== *)
theory Crud_Permissions
  imports Permission_Registry Go_Json
begin

text \<open>
  The sets of create, read, update, delete and grant permissions of a resource
  (\<open>crud_permissions.go\<close>), with the names made up from the resource's ID. The case of letters
  outside ASCII comes from the tables of package \<open>unicode\<close> and is a parameter: \<open>case_tables\<close> maps the
  encoding of a rune to that of its upper and lower case.
\<close>

section \<open>Strings\<close>

record case_tables =
  ct_upper :: "string \<Rightarrow> string"
  ct_lower :: "string \<Rightarrow> string"

definition ascii_upper :: "char \<Rightarrow> char" where
  "ascii_upper c = (if 97 \<le> byte c \<and> byte c \<le> 122 then char_of (byte c - 32) else c)"

definition ascii_lower :: "char \<Rightarrow> char" where
  "ascii_lower c = (if 65 \<le> byte c \<and> byte c \<le> 90 then char_of (byte c + 32) else c)"

text \<open>\<open>strings.Map\<close>: rune by rune; an invalid byte becomes U+FFFD.\<close>

function map_runes :: "(char \<Rightarrow> char) \<Rightarrow> (string \<Rightarrow> string) \<Rightarrow> string \<Rightarrow> string" where
  "map_runes ascii table [] = []"
| "map_runes ascii table (c # cs) =
     (let n = rune_len (c # cs) in
      if byte c < 0x80 then ascii c # map_runes ascii table cs
      else if n = 0 then map char_of [0xEF, 0xBF, 0xBD :: nat] @ map_runes ascii table cs
      else table (take n (c # cs)) @ map_runes ascii table (drop n (c # cs)))"
  by pat_completeness auto
termination
  by (relation "measure (\<lambda>(ascii, table, s). length s)") auto

definition ToUpper :: "case_tables \<Rightarrow> string \<Rightarrow> string" where
  "ToUpper ct s = map_runes ascii_upper (ct_upper ct) s"

definition ToLower :: "case_tables \<Rightarrow> string \<Rightarrow> string" where
  "ToLower ct s = map_runes ascii_lower (ct_lower ct) s"

text \<open>\<open>strings.Fields\<close>: the words between white space; \<open>word\<close> is what was read of the present one.\<close>

function fields_from :: "string \<Rightarrow> string \<Rightarrow> string list" where
  "fields_from word [] = (if word = [] then [] else [word])"
| "fields_from word (c # cs) =
     (case find (\<lambda>w. prefix w (c # cs)) white_space of
        Some w \<Rightarrow> (if word = [] then [] else [word]) @ fields_from [] (drop (length w) (c # cs))
      | None \<Rightarrow> fields_from (word @ [c]) cs)"
  by pat_completeness auto
termination
proof (relation "measure (\<lambda>(word, s). length s)", goal_cases)
  case (3 word c cs w)
  then have "w \<in> set white_space" by (auto simp: find_Some_iff)
  then have "w \<noteq> []" by (rule white_space_nonempty)
  then show ?case by simp
qed auto

definition Fields :: "string \<Rightarrow> string list" where
  "Fields s = fields_from [] s"

text \<open>\<open>strings.Trim(s, " .")\<close>.\<close>

definition trim_dots :: "string \<Rightarrow> string" where
  "trim_dots s = (let cut = (\<lambda>c. c = CHR '' '' \<or> c = CHR ''.'') in rev (dropWhile cut (rev (dropWhile cut s))))"

section \<open>Names\<close>

definition capitalize :: "case_tables \<Rightarrow> string \<Rightarrow> string" where
  "capitalize ct word =
     (if word = '''' then word
      else let first = ToUpper ct (take 1 word); rest = (if 1 < length word then ToLower ct (drop 1 word) else '''') in first @ rest)"

definition humanizePermissionToken :: "case_tables \<Rightarrow> string \<Rightarrow> string" where
  "humanizePermissionToken ct value =
     (if value = '''' then ''Resource''
      else
        let spaced = map (\<lambda>c. if c \<in> {CHR ''.'', CHR ''_'', CHR ''-'', CHR ''/''} then CHR '' '' else c) value;
            words = Fields spaced in
        if words = [] then ''Resource'' else join_with '' '' (map (capitalize ct) words))"

definition PermissionSuffixCreate :: string where "PermissionSuffixCreate = ''create''"
definition PermissionSuffixRead :: string where "PermissionSuffixRead = ''read''"
definition PermissionSuffixUpdate :: string where "PermissionSuffixUpdate = ''update''"
definition PermissionSuffixDelete :: string where "PermissionSuffixDelete = ''delete''"
definition PermissionSuffixGrant :: string where "PermissionSuffixGrant = ''grant''"

lemmas suffix_defs = PermissionSuffixCreate_def PermissionSuffixRead_def PermissionSuffixUpdate_def
  PermissionSuffixDelete_def PermissionSuffixGrant_def

definition defaultCRUDNameBuilder :: "case_tables \<Rightarrow> string \<Rightarrow> string \<Rightarrow> string" where
  "defaultCRUDNameBuilder ct action resourceName = humanizePermissionToken ct action @ '' '' @ resourceName"

definition defaultCRUDDescriptionBuilder :: "case_tables \<Rightarrow> string \<Rightarrow> string \<Rightarrow> string" where
  "defaultCRUDDescriptionBuilder ct action resourceName =
     (let verb =
        (if action = PermissionSuffixCreate then ''creating''
         else if action = PermissionSuffixRead then ''reading''
         else if action = PermissionSuffixUpdate then ''updating''
         else if action = PermissionSuffixDelete then ''deleting''
         else if action = PermissionSuffixGrant then ''granting''
         else ''using'')
      in ''Allows '' @ verb @ '' '' @ ToLower ct resourceName @ ''.'')"

text \<open>Root ID, namespace and resource name; the lower-case name that the source also returns is not used.\<close>

definition crudPermissionParts :: "case_tables \<Rightarrow> string \<Rightarrow> string \<times> string \<times> string" where
  "crudPermissionParts ct rootPermissionID =
     (let trimmed = trim_dots rootPermissionID;
          normalizedRoot = (if trimmed = '''' then ''resource'' else trimmed);
          segments = split_on CHR ''.'' normalizedRoot
      in (normalizedRoot, humanizePermissionToken ct (hd segments), humanizePermissionToken ct (join_with '' '' segments)))"

record crud_options =
  co_Namespace :: string
  co_ResourceName :: string
  co_NameBuilder :: "(string \<Rightarrow> string \<Rightarrow> string) option"
  co_DescriptionBuilder :: "(string \<Rightarrow> string \<Rightarrow> string) option"

definition no_options :: crud_options where
  "no_options = \<lparr>co_Namespace = '''', co_ResourceName = '''', co_NameBuilder = None, co_DescriptionBuilder = None\<rparr>"

record crud_parts =
  cp_rootID :: string
  cp_namespace :: string
  cp_resourceName :: string
  cp_nameBuilder :: "string \<Rightarrow> string \<Rightarrow> string"
  cp_descriptionBuilder :: "string \<Rightarrow> string \<Rightarrow> string"

definition buildCRUDParts :: "case_tables \<Rightarrow> string \<Rightarrow> crud_options \<Rightarrow> crud_parts" where
  "buildCRUDParts ct rootPermissionID options =
     (let (rootID, derivedNamespace, derivedResourceName) = crudPermissionParts ct rootPermissionID;
          namespace = TrimSpace (co_Namespace options); resourceName = TrimSpace (co_ResourceName options)
      in \<lparr>cp_rootID = rootID,
          cp_namespace = (if namespace = '''' then derivedNamespace else namespace),
          cp_resourceName = (if resourceName = '''' then derivedResourceName else resourceName),
          cp_nameBuilder = (case co_NameBuilder options of None \<Rightarrow> defaultCRUDNameBuilder ct | Some f \<Rightarrow> f),
          cp_descriptionBuilder = (case co_DescriptionBuilder options of None \<Rightarrow> defaultCRUDDescriptionBuilder ct | Some f \<Rightarrow> f)\<rparr>)"

section \<open>The sets\<close>

record 's crud_permissions =
  crud_Create :: "'s permission_meta"
  crud_Read :: "'s permission_meta"
  crud_Update :: "'s permission_meta"
  crud_Delete :: "'s permission_meta"
  crud_Grant :: "'s permission_meta"

definition crud_permission :: "crud_parts \<Rightarrow> string \<Rightarrow> 's permission_meta" where
  "crud_permission parts action = newPermissionMeta (cp_rootID parts @ ''.'' @ action) (cp_namespace parts)
     (cp_nameBuilder parts action (cp_resourceName parts)) (cp_descriptionBuilder parts action (cp_resourceName parts))"

definition crud_set :: "crud_parts \<Rightarrow> 's crud_permissions" where
  "crud_set parts = \<lparr>crud_Create = crud_permission parts PermissionSuffixCreate,
     crud_Read = crud_permission parts PermissionSuffixRead,
     crud_Update = crud_permission parts PermissionSuffixUpdate,
     crud_Delete = crud_permission parts PermissionSuffixDelete,
     crud_Grant = crud_permission parts PermissionSuffixGrant\<rparr>"

definition NewSystemCRUDPermissionsWithOptions :: "case_tables \<Rightarrow> string \<Rightarrow> crud_options \<Rightarrow> 's crud_permissions" where
  "NewSystemCRUDPermissionsWithOptions ct rootPermissionID options = crud_set (buildCRUDParts ct rootPermissionID options)"

definition NewSystemCRUDPermissions :: "case_tables \<Rightarrow> string \<Rightarrow> 's crud_permissions" where
  "NewSystemCRUDPermissions ct rootPermissionID = NewSystemCRUDPermissionsWithOptions ct rootPermissionID no_options"

definition NewTeamCRUDPermissionsWithOptions :: "case_tables \<Rightarrow> string \<Rightarrow> crud_options \<Rightarrow> 's crud_permissions" where
  "NewTeamCRUDPermissionsWithOptions ct rootPermissionID options = crud_set (buildCRUDParts ct rootPermissionID options)"

definition NewTeamCRUDPermissions :: "case_tables \<Rightarrow> string \<Rightarrow> 's crud_permissions" where
  "NewTeamCRUDPermissions ct rootPermissionID = NewTeamCRUDPermissionsWithOptions ct rootPermissionID no_options"

definition crud_list :: "'s crud_permissions \<Rightarrow> 's permission_meta list" where
  "crud_list c = [crud_Create c, crud_Read c, crud_Update c, crud_Delete c, crud_Grant c]"

section \<open>The names are never blank\<close>

text \<open>What is stripped begins with white space, so a text with another first byte is not blank.\<close>

lemma strip_to_Nil: "strip_upto n ws s = [] \<Longrightarrow> s = [] \<or> (\<exists>us. s = concat us \<and> us \<noteq> [] \<and> set us \<subseteq> set ws)"
proof (induction n arbitrary: s)
  case (Suc n)
  show ?case
  proof (cases "strip_one ws s")
    case (Some s')
    then obtain w where w: "w \<in> set ws" "s = w @ s'"
      by (auto simp: strip_one_def find_Some_iff prefix_def split: option.splits dest: nth_mem)
    from Suc Some have "s' = [] \<or> (\<exists>us. s' = concat us \<and> us \<noteq> [] \<and> set us \<subseteq> set ws)" by simp
    then obtain us where "s' = concat us" "set us \<subseteq> set ws" by (metis concat.simps(1) empty_subsetI list.set(1))
    with w have "s = concat (w # us) \<and> w # us \<noteq> [] \<and> set (w # us) \<subseteq> set ws" by simp
    then show ?thesis by blast
  qed (use Suc.prems in simp)
qed simp

definition white_heads :: "char set" where
  "white_heads = hd ` set white_space"

lemma prefix_white_head: "w \<in> set white_space \<Longrightarrow> prefix w s \<Longrightarrow> hd s \<in> white_heads"
  using white_space_nonempty [of w] by (force simp: prefix_def white_heads_def)

lemma not_blank:
  assumes "s \<noteq> []" "hd s \<notin> white_heads"
  shows "TrimSpace s \<noteq> []"
proof
  assume blank: "TrimSpace s = []"
  have "strip_one white_space s = None"
    using prefix_white_head [of _ s] assms(2) by (auto simp: strip_one_None_iff)
  then have "trim_left s = s" by (simp add: trim_left_def strip_upto_None)
  with blank have "strip_upto (length s) (map rev white_space) (rev s) = []" by (simp add: TrimSpace_def trim_right_def)
  from strip_to_Nil [OF this] assms(1) obtain us where us: "rev s = concat us" "us \<noteq> []" "set us \<subseteq> rev ` set white_space"
    by auto
  define w where "w = rev (last us)"
  have "last us \<in> set us" using us(2) by simp
  then have w: "w \<in> set white_space" using us(3) by (auto simp: w_def)
  have "rev s = concat (butlast us) @ rev w"
    using us(1,2) by (metis append_butlast_last_id concat.simps concat_append append_Nil2 rev_rev_ident w_def)
  then have "s = w @ rev (concat (butlast us))" by (metis rev_append rev_rev_ident)
  then show False using prefix_white_head [OF w, of s] assms(2) by (simp add: prefix_def)
qed

lemma not_white_head:
  "printable c \<Longrightarrow> c \<notin> white_heads" "char_of (0xEF :: nat) \<notin> white_heads"
proof -
  show "printable c \<Longrightarrow> c \<notin> white_heads" using white_space_outer by (auto simp: white_heads_def)
  have "\<forall>w \<in> set white_space. hd w \<noteq> char_of (0xEF :: nat)" by code_simp
  then show "char_of (0xEF :: nat) \<notin> white_heads" by (auto simp: white_heads_def)
qed

text \<open>A word does not begin with white space of one byte.\<close>

definition good_start :: "string \<Rightarrow> bool" where
  "good_start word \<longleftrightarrow> word \<noteq> [] \<and> [hd word] \<notin> set white_space"

lemma fields_good:
  "word = [] \<or> good_start word \<Longrightarrow> \<forall>f \<in> set (fields_from word s). good_start f"
proof (induction word s rule: fields_from.induct)
  case (2 word c cs)
  show ?case
  proof (cases "find (\<lambda>w. prefix w (c # cs)) white_space")
    case None
    then have "[c] \<notin> set white_space" by (auto simp: find_None_iff)
    then have "good_start (word @ [c])" using 2(3) by (auto simp: good_start_def hd_append)
    with 2(1) [OF None] None show ?thesis by simp
  next
    case (Some w)
    with 2(2) [OF Some] 2(3) show ?thesis by auto
  qed
qed auto

lemma ascii_white: "byte c < 0x80 \<Longrightarrow> c \<in> white_heads \<Longrightarrow> [c] \<in> set white_space"
proof -
  have "\<forall>w \<in> set white_space. byte (hd w) < (0x80 :: nat) \<longrightarrow> w = [hd w]" by code_simp
  then show "byte c < 0x80 \<Longrightarrow> c \<in> white_heads \<Longrightarrow> [c] \<in> set white_space" by (auto simp: white_heads_def)
qed

lemma ascii_upper_printable: "ascii_upper c \<noteq> c \<Longrightarrow> printable (ascii_upper c)"
  by (auto simp: ascii_upper_def printable_def split: if_splits)

lemma capitalize_start:
  assumes "good_start word"
  shows "capitalize ct word \<noteq> []" "hd (capitalize ct word) \<notin> white_heads"
proof -
  obtain c cs where word: "word = c # cs" using assms by (cases word) (auto simp: good_start_def)
  have "ToUpper ct [c] = (if byte c < 0x80 then [ascii_upper c] else map char_of [0xEF, 0xBF, 0xBD :: nat])"
    by (auto simp: ToUpper_def rune_len_def Let_def lead_len_def)
  moreover have "ascii_upper c \<notin> white_heads" if "byte c < 0x80"
  proof (cases "ascii_upper c = c")
    case True
    with ascii_white [OF that] assms word show ?thesis by (auto simp: good_start_def)
  next
    case False
    with ascii_upper_printable not_white_head(1) show ?thesis by blast
  qed
  ultimately show "capitalize ct word \<noteq> []" "hd (capitalize ct word) \<notin> white_heads"
    using not_white_head(2) by (auto simp: capitalize_def word)
qed

lemma humanize_start: "humanizePermissionToken ct v \<noteq> [] \<and> hd (humanizePermissionToken ct v) \<notin> white_heads"
proof -
  have resource: "hd ''Resource'' \<notin> white_heads" by (rule not_white_head(1)) (simp add: printable_def)
  define words where "words = Fields (map (\<lambda>c. if c \<in> {CHR ''.'', CHR ''_'', CHR ''-'', CHR ''/''} then CHR '' '' else c) v)"
  show ?thesis
  proof (cases words)
    case (Cons word rest)
    then have "word \<in> set words" by simp
    then have "good_start word" using fields_good [of "[]"] unfolding words_def Fields_def by blast
    from capitalize_start [OF this, of ct]
    have "capitalize ct word \<noteq> []" "hd (capitalize ct word) \<notin> white_heads" by blast+
    moreover have "hd (join_with '' '' (map (capitalize ct) (word # rest))) = hd (capitalize ct word)
        \<and> join_with '' '' (map (capitalize ct) (word # rest)) \<noteq> []"
      using calculation(1) by (cases rest) auto
    moreover have "humanizePermissionToken ct v =
        (if v = '''' then ''Resource'' else join_with '' '' (map (capitalize ct) (word # rest)))"
      using Cons by (simp add: humanizePermissionToken_def Let_def words_def)
    ultimately show ?thesis using resource by (simp del: join_with.simps)
  next
    case Nil
    then have "humanizePermissionToken ct v = ''Resource''" by (simp add: humanizePermissionToken_def Let_def words_def)
    with resource show ?thesis by simp
  qed
qed

lemma humanize_not_blank: "TrimSpace (humanizePermissionToken ct v) \<noteq> []" "TrimSpace (humanizePermissionToken ct v @ t) \<noteq> []"
  using humanize_start [of ct v] not_blank by (simp_all add: hd_append)

text \<open>So the five permissions of a set are valid and have different IDs.\<close>

lemma TrimSpace_ends_printable:
  assumes "printable c"
  shows "TrimSpace (s @ [c]) \<noteq> []"
proof
  assume blank: "TrimSpace (s @ [c]) = []"
  have "strip_upto (length (s @ [c])) white_space (s @ [c]) \<noteq> []"
  proof
    assume "strip_upto (length (s @ [c])) white_space (s @ [c]) = []"
    from strip_to_Nil [OF this] obtain us where us: "s @ [c] = concat us" "us \<noteq> []" "set us \<subseteq> set white_space" by auto
    have "last us \<in> set white_space" using us(2,3) by auto
    moreover have "concat us = concat (butlast us) @ last us"
      using us(2) by (metis append_butlast_last_id concat.simps concat_append append_Nil2)
    ultimately have "last (last us) = c" "last us \<in> set white_space" using us(1) white_space_nonempty
      by (metis last_appendR last_snoc)+
    then show False using white_space_outer assms by blast
  qed
  then obtain t where t: "trim_left (s @ [c]) = t @ [c]"
    using strip_upto_suffix [of "length (s @ [c])" white_space "s @ [c]"]
    by (auto simp: trim_left_def suffix_def) (metis append_butlast_last_id last_appendR last_snoc)
  have "\<not> suffix w (t @ [c])" if "w \<in> set white_space" for w
    using that white_space_outer [OF that] white_space_nonempty [OF that] assms
    by (auto simp: suffix_def) (metis last_appendR last_snoc)
  then have "strip_one (map rev white_space) (rev (t @ [c])) = None"
    by (auto simp: strip_one_None_iff suffix_to_prefix simp del: rev_append)
  then have "trim_right (t @ [c]) = t @ [c]" by (simp only: trim_right_def strip_upto_None rev_rev_ident)
  with blank t show False by (simp add: TrimSpace_def)
qed

definition crud_root :: "string \<Rightarrow> string" where
  "crud_root rootPermissionID = (let trimmed = trim_dots rootPermissionID in if trimmed = '''' then ''resource'' else trimmed)"

definition crud_suffixes :: "string list" where
  "crud_suffixes = [PermissionSuffixCreate, PermissionSuffixRead, PermissionSuffixUpdate, PermissionSuffixDelete,
     PermissionSuffixGrant]"

lemma crud_list_of:
  "crud_list (crud_set (buildCRUDParts ct root no_options)) =
     map (\<lambda>a. newPermissionMeta (crud_root root @ ''.'' @ a)
       (humanizePermissionToken ct (hd (split_on CHR ''.'' (crud_root root))))
       (defaultCRUDNameBuilder ct a (humanizePermissionToken ct (join_with '' '' (split_on CHR ''.'' (crud_root root)))))
       (defaultCRUDDescriptionBuilder ct a (humanizePermissionToken ct (join_with '' '' (split_on CHR ''.'' (crud_root root))))))
     crud_suffixes"
  by (simp add: crud_list_def crud_set_def crud_permission_def buildCRUDParts_def crudPermissionParts_def no_options_def
      crud_suffixes_def crud_root_def Let_def)

lemma crud_id_not_blank: "a \<in> set crud_suffixes \<Longrightarrow> TrimSpace (root @ ''.'' @ a) \<noteq> []"
proof -
  assume "a \<in> set crud_suffixes"
  then have "a \<noteq> [] \<and> printable (last a)" by (auto simp: crud_suffixes_def suffix_defs printable_def)
  then show ?thesis using TrimSpace_ends_printable [of "last a" "root @ ''.'' @ butlast a"] by simp
qed

text \<open>Whatever the root ID is, the five permissions of a default set are called after it and can
  be registered: their IDs differ, and none of ID, namespace and name is blank. Registering them in
  a registry that has none of the IDs adds exactly these five.\<close>

lemma crud_permissions_register:
  assumes "ds = map system_Definition (crud_list (NewSystemCRUDPermissions ct root :: 's crud_permissions)) \<or>
      ds = map team_Definition (crud_list (NewTeamCRUDPermissions ct root :: 's crud_permissions))"
    and "\<forall>d \<in> set ds. \<not> registry_Exists r (pd_ID d)"
  shows "map pd_ID ds = map (\<lambda>a. crud_root root @ ''.'' @ a) [''create'', ''read'', ''update'', ''delete'', ''grant''] \<and>
    rg_byID (register_all ds r) = rg_byID r @ map (\<lambda>d. (pd_ID d, d)) ds"
proof -
  let ?list = "crud_list (crud_set (buildCRUDParts ct root no_options) :: 's crud_permissions)"
  obtain scope where scope: "scope \<in> {PermissionScopeSystem, PermissionScopeTeam}"
    and ds: "ds = map (permission_definition_of scope) ?list"
  proof -
    have "ds = map (permission_definition_of PermissionScopeSystem) ?list \<or> ds = map (permission_definition_of PermissionScopeTeam) ?list"
      using assms(1) by (simp add: NewSystemCRUDPermissions_def NewSystemCRUDPermissionsWithOptions_def
          NewTeamCRUDPermissions_def NewTeamCRUDPermissionsWithOptions_def system_Definition_def team_Definition_def cong: map_cong)
    then show thesis using that by blast
  qed
  have ids: "map pd_ID ds = map (\<lambda>a. crud_root root @ ''.'' @ a) crud_suffixes"
    by (simp add: ds crud_list_of permission_definition_of_def newPermissionMeta_def comp_def)
  have "PermissionDefinition_Validate d = None" if "d \<in> set ds" for d
  proof -
    from that obtain a where a: "a \<in> set crud_suffixes" and d: "pd_ID d = crud_root root @ ''.'' @ a" "pd_Scope d = scope"
      "TrimSpace (pd_Namespace d) \<noteq> []" "TrimSpace (pd_Name d) \<noteq> []"
      by (auto simp: ds crud_list_of permission_definition_of_def newPermissionMeta_def defaultCRUDNameBuilder_def humanize_not_blank)
    then show ?thesis
      using crud_id_not_blank [OF a, of "crud_root root"] scope
      by (auto simp: PermissionDefinition_Validate_def)
  qed
  moreover have "distinct (map pd_ID ds)"
    unfolding ids by (simp add: crud_suffixes_def suffix_defs)
  ultimately have "rg_byID (register_all ds r) = rg_byID r @ map (\<lambda>d. (pd_ID d, d)) ds"
    using assms(2) by (intro register_all_new) auto
  then show ?thesis using ids by (simp add: crud_suffixes_def suffix_defs)
qed

definition plain_tables :: case_tables where
  "plain_tables = \<lparr>ct_upper = (\<lambda>s. s), ct_lower = (\<lambda>s. s)\<rparr>"

text \<open>A word is cut after its first byte: a first letter of two bytes becomes two replacement characters.\<close>

lemma capitalize_breaks_runes:
  "capitalize plain_tables (map char_of [0xC3, 0xA9 :: nat] @ ''cole'') =
     map char_of [0xEF, 0xBF, 0xBD, 0xEF, 0xBF, 0xBD :: nat] @ ''cole''"
  by code_simp

end
