(* ===== verification/Postgres_Graph.thy ===== *)
theory Postgres_Graph
  imports Postgres_Properties
begin

text \<open>
  Role inheritance in the PostgreSQL store: what the closure table holds after any calls, and what
  deleting a role leaves behind.
\<close>

section \<open>The closure table as a relation\<close>

definition row_pair :: "string \<times> string \<times> int \<Rightarrow> string \<times> string" where
  "row_pair x = (fst x, fst (snd x))"

definition closure_pairs :: "pg_tables \<Rightarrow> (string \<times> string) set" where
  "closure_pairs t = row_pair ` set (tb_closure t)"

lemma pairs_add_pair: "row_pair ` set (add_pair x rows) = insert (row_pair x) (row_pair ` set rows)"
proof (cases "\<exists>y \<in> set rows. row_pair y = row_pair x")
  case True
  then have "row_pair x \<in> row_pair ` set rows" by (metis imageI)
  moreover have "add_pair x rows = rows" using True by (auto simp: add_pair_def list_ex_iff row_pair_def)
  ultimately show ?thesis by (simp add: insert_absorb)
next
  case False
  then have "add_pair x rows = rows @ [x]" by (auto simp: add_pair_def list_ex_iff row_pair_def)
  then show ?thesis by simp
qed

lemma pairs_fold_add_pair: "row_pair ` set (fold add_pair xs rows) = row_pair ` set xs \<union> row_pair ` set rows"
  by (induction xs arbitrary: rows) (simp_all add: pairs_add_pair)

lemma pairs_extension:
  "row_pair ` set (closure_extension p q rows) = {(a, d). (a, p) \<in> row_pair ` set rows \<and> (q, d) \<in> row_pair ` set rows}"
proof (intro set_eqI iffI)
  fix z assume "z \<in> row_pair ` set (closure_extension p q rows)"
  then show "z \<in> {(a, d). (a, p) \<in> row_pair ` set rows \<and> (q, d) \<in> row_pair ` set rows}"
    by (force simp: closure_extension_def row_pair_def image_iff split_beta)
next
  fix z assume "z \<in> {(a, d). (a, p) \<in> row_pair ` set rows \<and> (q, d) \<in> row_pair ` set rows}"
  then obtain a d n m where "z = (a, d)" "(a, p, n) \<in> set rows" "(q, d, m) \<in> set rows"
    by (auto simp: row_pair_def)
  moreover from this have "(a, d, n + m + 1) \<in> set (closure_extension p q rows)"
    by (force simp: closure_extension_def)
  ultimately show "z \<in> row_pair ` set (closure_extension p q rows)" by (force simp: row_pair_def)
qed

lemma pairs_extend_closure:
  assumes "sql_extend_closure p q t = Inr (n, t')"
  shows "closure_pairs t' = closure_pairs t \<union> {(a, d). (a, p) \<in> closure_pairs t \<and> (q, d) \<in> closure_pairs t}"
proof -
  have "tb_closure t' = fold add_pair (closure_extension p q (tb_closure t)) (tb_closure t)"
    using assms by (auto simp: sql_extend_closure_def Let_def)
  then show ?thesis by (simp add: closure_pairs_def pairs_fold_add_pair pairs_extension Un_commute)
qed

lemma pairs_self_closure:
  assumes "sql_insert_self_closure r t = Inr (n, t')"
  shows "closure_pairs t' = insert (r, r) (closure_pairs t)"
proof -
  have "tb_closure t' = add_pair (r, r, 0) (tb_closure t)"
    using assms by (auto simp: sql_insert_self_closure_def Let_def)
  then show ?thesis by (simp add: closure_pairs_def pairs_add_pair) (simp add: row_pair_def)
qed

lemma expanded_pairs: "set (sql_expanded_roles ids t) = closure_pairs t `` set ids"
  by (force simp: sql_expanded_roles_def closure_pairs_def row_pair_def)

section \<open>What successful transactions do\<close>

lemma transaction_None:
  assumes "pg_transaction db b steps c s = (None, s')"
  shows "\<exists>n. tx_steps db n steps (db_data s) = Inr (db_data s')"
  using assms by (auto simp: pg_transaction_def Let_def split: option.splits sum.splits outcome.splits)

lemma two_steps:
  assumes "tx_steps db n [Run l ok stmt, Run l' ok' stmt'] t = Inr t'"
  obtains m m' t1 where "stmt t = Inr (m, t1)" "stmt' t1 = Inr (m', t')"
  using assms by (auto split: if_splits option.splits sum.splits)

lemma CreateRole_None:
  assumes "pg_CreateRole db s role = (None, s')"
  shows "ro_ID role \<noteq> ''''" "closure_pairs (db_data s') = insert (ro_ID role, ro_ID role) (closure_pairs (db_data s))"
    "tb_assignments (db_data s') = tb_assignments (db_data s)" "tb_inheritance (db_data s') = tb_inheritance (db_data s)"
    "tb_grants (db_data s') = tb_grants (db_data s)" "tb_roles (db_data s') = tb_roles (db_data s) @ [row_of_role role]"
proof -
  obtain b c l ok l' ok' where tx: "ro_ID role \<noteq> ''''" "pg_transaction db b [Run l ok (sql_insert_role (row_of_role role)),
      Run l' ok' (sql_insert_self_closure (ro_ID role))] c s = (None, s')"
    using assms by (auto simp: pg_CreateRole_def split: if_splits sum.splits bool.splits)
  obtain n m m' t1 where ins: "sql_insert_role (row_of_role role) (db_data s) = Inr (m, t1)"
    and self: "sql_insert_self_closure (ro_ID role) t1 = Inr (m', db_data s')"
    using transaction_None [OF tx(2)] by (blast elim: two_steps)
  have t1: "closure_pairs t1 = closure_pairs (db_data s)" "tb_assignments t1 = tb_assignments (db_data s)"
    "tb_inheritance t1 = tb_inheritance (db_data s)" "tb_grants t1 = tb_grants (db_data s)"
    "tb_roles t1 = tb_roles (db_data s) @ [row_of_role role]"
    using ins by (auto simp: sql_insert_role_def closure_pairs_def split: if_splits)
  moreover have "db_data s' = t1\<lparr>tb_closure := add_pair (ro_ID role, ro_ID role, 0) (tb_closure t1)\<rparr>"
    using self by (simp add: sql_insert_self_closure_def Let_def)
  ultimately show "ro_ID role \<noteq> ''''" "closure_pairs (db_data s') = insert (ro_ID role, ro_ID role) (closure_pairs (db_data s))"
    "tb_assignments (db_data s') = tb_assignments (db_data s)" "tb_inheritance (db_data s') = tb_inheritance (db_data s)"
    "tb_grants (db_data s') = tb_grants (db_data s)" "tb_roles (db_data s') = tb_roles (db_data s) @ [row_of_role role]"
    using tx(1) pairs_self_closure [OF self] by simp_all
qed

lemma AddRoleInheritance_None:
  assumes "pg_AddRoleInheritance db s p q = (None, s')"
  shows "closure_pairs (db_data s') = closure_pairs (db_data s) \<union>
    {(a, d). (a, p) \<in> closure_pairs (db_data s) \<and> (q, d) \<in> closure_pairs (db_data s)}"
proof -
  obtain b c l ok l' ok' where tx: "pg_transaction db b [Run l ok (sql_insert_edge p q), Run l' ok' (sql_extend_closure p q)] c s = (None, s')"
    using assms by (auto simp: pg_AddRoleInheritance_def split: if_splits)
  obtain m m' t1 where edge: "sql_insert_edge p q (db_data s) = Inr (m, t1)"
    and ext: "sql_extend_closure p q t1 = Inr (m', db_data s')"
    using transaction_None [OF tx] by (blast elim: two_steps)
  have "closure_pairs t1 = closure_pairs (db_data s)"
    using edge by (auto simp: sql_insert_edge_def closure_pairs_def split: if_splits)
  with pairs_extend_closure [OF ext] show ?thesis by simp
qed

section \<open>Calls that leave the closure alone\<close>

fun graph_call :: "pg_call \<Rightarrow> bool" where
  "graph_call (PgWrite (WCreateRole r)) \<longleftrightarrow> True"
| "graph_call (PgWrite (WAddRoleInheritance p q)) \<longleftrightarrow> True"
| "graph_call w \<longleftrightarrow> False"

lemmas closure_kept =
  pg_write_keeps [where P = "\<lambda>t. tb_closure t = C" for C]
  pg_affect_keeps [where P = "\<lambda>t. tb_closure t = C" for C]
  pg_transaction_keeps [where P = "\<lambda>t. tb_closure t = C" for C]

lemma closure_statements:
  "keeps (\<lambda>t. tb_closure t = C) (sql_update_role b row)" "keeps (\<lambda>t. tb_closure t = C) (sql_delete_role r)"
  "keeps (\<lambda>t. tb_closure t = C) (sql_insert_assignment db a)" "keeps (\<lambda>t. tb_closure t = C) (sql_delete_assignments db k i r j)"
  "keeps (\<lambda>t. tb_closure t = C) (sql_insert_grant n g)" "keeps (\<lambda>t. tb_closure t = C) (sql_delete_grants k i)"
  "keeps (\<lambda>t. tb_closure t = C) (sql_disable r)" "keeps (\<lambda>t. tb_closure t = C) (sql_enable r)"
  "keeps (\<lambda>t. tb_closure t = C) (\<lambda>t. Inr (0, t))"
  by (intro keepsI; auto simp: sql_update_role_def sql_delete_role_def sql_insert_assignment_def sql_delete_assignments_def
      sql_insert_grant_def sql_delete_grants_def sql_disable_def sql_enable_def Let_def split: if_splits)+

lemma batch_closure: "step_keeps (\<lambda>t. tb_closure t = C) (batch_insert db c k g)"
  by (simp add: batch_insert_def closure_statements split: sum.split)

lemma other_calls_closure:
  assumes "\<not> graph_call w"
  shows "tb_closure (db_data (snd (pg_run db c e w s))) = tb_closure (db_data s)"
proof (cases w)
  case (PgWrite v)
  with assms show ?thesis
    by (cases v) (simp_all add: postgres_ops_def pg_CreateGrant_def pg_AssignRole_def pg_UnassignRole_def pg_UpdateRole_def
        pg_DeleteRole_def pg_DeleteGrantsForOwner_def pg_DisableBuiltInRole_def pg_EnableBuiltInRole_def closure_kept
        closure_statements split: option.split sum.split)
next
  case (PgCreateGrants gs)
  have "tb_closure (db_data (snd (pg_CreateGrants db c s gs))) = tb_closure (db_data s)"
    unfolding pg_CreateGrants_def by (auto intro!: closure_kept(3) simp: batch_closure closure_statements)
  with PgCreateGrants show ?thesis by simp
next
  case (PgUnassignAll p r bs)
  then show ?thesis
    by (simp add: pg_UnassignRole_def closure_kept closure_statements split: option.split sum.split)
qed

section \<open>Runs\<close>

text \<open>
  The graph that calls build: the roles created so far, and the edges added between roles that had
  been created by then. Other calls, deletions of roles among them, and calls without effect
  leave it as it is.
\<close>

inductive pg_inherits :: "pg_server \<Rightarrow> json_codec \<Rightarrow> pg_store \<Rightarrow> string set \<Rightarrow> (string \<times> string) set \<Rightarrow> bool" for db c where
  start: "db_data s = no_rows \<Longrightarrow> pg_inherits db c s {} {}"
| create: "pg_inherits db c s K E \<Longrightarrow> pg_CreateRole db s role = (None, s') \<Longrightarrow> pg_inherits db c s' (insert (ro_ID role) K) E"
| edge: "pg_inherits db c s K E \<Longrightarrow> pg_AddRoleInheritance db s p q = (None, s') \<Longrightarrow>
    pg_inherits db c s' K (if p \<in> K \<and> q \<in> K then insert (p, q) E else E)"
| other: "pg_inherits db c s K E \<Longrightarrow> \<not> graph_call w \<Longrightarrow> pg_inherits db c (snd (pg_run db c e w s)) K E"
| no_effect: "pg_inherits db c s K E \<Longrightarrow> pg_run db c e w s = (Some err, s') \<Longrightarrow> db_data s' = db_data s \<Longrightarrow>
    pg_inherits db c s' K E"

lemma rtrancl_inside:
  assumes "E \<subseteq> K \<times> K" "(a, d) \<in> E\<^sup>*"
  shows "a \<in> K \<longleftrightarrow> d \<in> K"
  using assms(2,1) by (induction rule: rtrancl_induct) auto

lemma reach_insert: "(insert (p, q) E)\<^sup>* = E\<^sup>* \<union> {(a, d). (a, p) \<in> E\<^sup>* \<and> (q, d) \<in> E\<^sup>*}"
  by (rule rtrancl_insert)

lemma inherits_closure:
  assumes "pg_inherits db c s K E"
  shows "E \<subseteq> K \<times> K \<and> closure_pairs (db_data s) = {(a, d). a \<in> K \<and> (a, d) \<in> E\<^sup>*}"
  using assms
proof (induction rule: pg_inherits.induct)
  case (start s)
  then show ?case by (simp add: closure_pairs_def no_rows_def)
next
  case (create s K E role s')
  have "(ro_ID role, d) \<in> E\<^sup>* \<longleftrightarrow> ro_ID role = d" if "ro_ID role \<notin> K" for d
    using that create.IH by (auto elim: converse_rtranclE)
  with create.IH CreateRole_None(2) [OF create.hyps(2)] show ?case
    by (cases "ro_ID role \<in> K") (auto simp: insert_absorb)
next
  case (edge s K E p q s')
  show ?case
  proof (cases "p \<in> K \<and> q \<in> K")
    case True
    have "(a, p) \<in> E\<^sup>* \<Longrightarrow> a \<in> K" for a using True rtrancl_inside [of E K a p] edge.IH by blast
    with True edge.IH AddRoleInheritance_None [OF edge.hyps(2)] show ?thesis by (auto simp: reach_insert)
  next
    case False
    have "\<not> ((a, p) \<in> closure_pairs (db_data s) \<and> (q, d) \<in> closure_pairs (db_data s))" for a d
      using False rtrancl_inside [of E K a p] edge.IH by auto
    with False edge.IH AddRoleInheritance_None [OF edge.hyps(2)] show ?thesis by auto
  qed
next
  case (other s K E w e)
  then show ?case using other_calls_closure [OF other.hyps(2)] by (simp add: closure_pairs_def)
qed simp

text \<open>C40. What roles expand to in the PostgreSQL store: for every answer, exactly the roles that the
  created ones among the given roles reach by edges between roles which had been created when
  the edge was added, each once. So a role that was never created expands to nothing, an edge to
  a role that is created later never counts, and deleting a role changes no expansion.\<close>

theorem postgres_expansion:
  assumes "pg_inherits db c s K E" "pg_ExpandRoles db s ids = Inr rs"
  shows "distinct rs \<and> set rs = E\<^sup>* `` (set ids \<inter> K)"
proof (cases "ids = []")
  case False
  with assms(2) have "rs = sql_expanded_roles ids (db_data s)"
    by (auto simp: pg_ExpandRoles_def pg_ListExpandedRoleIDs_def collect_Inr_iff list_all2_eq [symmetric] list.rel_eq
        dest!: pg_query_Inr pg_rows_Inr)
  with inherits_closure [OF assms(1)] show ?thesis
    using expanded_pairs [of ids "db_data s"] by (auto simp: sql_expanded_roles_def)
qed (use assms(2) in \<open>simp add: pg_ExpandRoles_def pg_ListExpandedRoleIDs_def\<close>)

definition demo_role :: "string \<Rightarrow> role" where
  "demo_role i = zero_role\<lparr>ro_ID := i, ro_Name := i\<rparr>"

definition demo_late :: pg_store where
  "demo_late = snd (pg_CreateRole demo_server (snd (pg_AddRoleInheritance demo_server
     (snd (pg_CreateRole demo_server demo_database (demo_role ''a''))) ''a'' ''b'')) (demo_role ''b''))"

theorem postgres_expansion_witness:
  "\<exists>rs. pg_ExpandRoles demo_server demo_late [''a''] = Inr rs \<and> set rs = {''a''}"
proof -
  let ?s1 = "snd (pg_CreateRole demo_server demo_database (demo_role ''a''))"
  let ?s2 = "snd (pg_AddRoleInheritance demo_server ?s1 ''a'' ''b'')"
  have run: "fst (pg_CreateRole demo_server demo_database (demo_role ''a'')) = None"
    "fst (pg_AddRoleInheritance demo_server ?s1 ''a'' ''b'') = None"
    "fst (pg_CreateRole demo_server ?s2 (demo_role ''b'')) = None" by code_simp+
  have "pg_inherits demo_server demo_codec ?s1 {''a''} {}"
    using pg_inherits.create [OF pg_inherits.start, of demo_database demo_server "demo_role ''a''" ?s1] run(1)
    by (simp add: demo_database_def demo_role_def prod_eq_iff)
  from pg_inherits.edge [OF this, of "''a''" "''b''" ?s2] run(2)
  have "pg_inherits demo_server demo_codec ?s2 {''a''} {}" by (simp add: prod_eq_iff)
  from pg_inherits.create [OF this, of "demo_role ''b''" demo_late] run(3)
  have late: "pg_inherits demo_server demo_codec demo_late {''b'', ''a''} {}"
    by (simp add: demo_late_def demo_role_def prod_eq_iff)
  have "pg_ExpandRoles demo_server demo_late [''a''] = Inr [''a'']" by code_simp
  with postgres_expansion [OF late this] show ?thesis by auto
qed

section \<open>Deleting a role\<close>

lemma DeleteRole_None:
  assumes "pg_DeleteRole db s r = (None, s')"
  shows "db_data s' = (db_data s)\<lparr>tb_roles := filter (\<lambda>x. rr_id x \<noteq> r) (tb_roles (db_data s))\<rparr>"
  using assms by (auto simp: pg_DeleteRole_def pg_affect_def pg_exec_def sql_delete_role_def split: if_splits outcome.splits)

text \<open>C30. Deleting a role from the PostgreSQL store removes its definition only. Every principal keeps
  its assignments, the role keeps its grants and its place in the inheritance, and all of it is in
  effect again for a role that is created later under the same ID.\<close>

theorem postgres_deleted_role_comes_back:
  assumes "pg_DeleteRole db s r = (None, s1)" "pg_CreateRole db s2 role = (None, s3)" "ro_ID role = r"
    and "db_data s2 = db_data s1"
  shows "(\<forall>st \<in> {s1, s3}. tb_assignments (db_data st) = tb_assignments (db_data s) \<and> tb_grants (db_data st) = tb_grants (db_data s) \<and>
      tb_inheritance (db_data st) = tb_inheritance (db_data s)) \<and>
    closure_pairs (db_data s1) = closure_pairs (db_data s) \<and> closure_pairs (db_data s3) = insert (r, r) (closure_pairs (db_data s)) \<and>
    role_stored r (db_data s3) \<and> \<not> role_stored r (db_data s1)"
  using DeleteRole_None [OF assms(1)] CreateRole_None [OF assms(2)] assms(3,4)
  by (auto simp: closure_pairs_def role_stored_def list_ex_iff row_of_role_def)

definition demo_held_role :: pg_store where
  "demo_held_role = snd (pg_AssignRole demo_server demo_codec (snd (pg_CreateRole demo_server demo_database (demo_role ''a'')))
     \<lparr>pr_Kind = PrincipalUser, pr_ID = ''bob''\<rparr> ''a'' [] [])"

theorem postgres_deleted_role_comes_back_witness:
  "\<exists>s1 s3. pg_DeleteRole demo_server demo_held_role ''a'' = (None, s1) \<and> pg_CreateRole demo_server s1 (demo_role ''a'') = (None, s3) \<and>
     tb_assignments (db_data s3) = tb_assignments (db_data demo_held_role)"
proof -
  let ?s1 = "snd (pg_DeleteRole demo_server demo_held_role ''a'')"
  have "fst (pg_DeleteRole demo_server demo_held_role ''a'') = None" "fst (pg_CreateRole demo_server ?s1 (demo_role ''a'')) = None"
    by code_simp+
  then have run: "pg_DeleteRole demo_server demo_held_role ''a'' = (None, ?s1)"
    "pg_CreateRole demo_server ?s1 (demo_role ''a'') = (None, snd (pg_CreateRole demo_server ?s1 (demo_role ''a'')))"
    by (simp_all add: prod_eq_iff)
  from postgres_deleted_role_comes_back [OF run] run show ?thesis by (auto simp: demo_role_def)
qed

end
