(* ===== verification/Effective_Listing.thy ===== *)
theory Effective_Listing
  imports Service_Queries Demo_Service
begin

text \<open>
  What \<open>EffectivePermissions\<close> and \<open>AllowedTeamsForUser\<close> list: the grants that they look at, which of
  them have an entry, and which grants never reach the list.
\<close>

section \<open>The grants that are looked at\<close>

text \<open>Unlike the check, the listing skips grants whose variables have no binding.\<close>

definition resolved_grants :: "time \<Rightarrow> string \<Rightarrow> string set \<Rightarrow> (string, bindings) gomap \<Rightarrow> grant set \<Rightarrow> grant set" where
  "resolved_grants now teamID roleIDSet bindingMap G =
     {g'. \<exists>g \<in> G. (gr_OwnerKind g = PrincipalRole \<longrightarrow> gr_OwnerID g \<in> roleIDSet) \<and> \<not> IsExpiredAt g now \<and>
        resolveGrantBindings g bindingMap = Inr g' \<and> (teamID = ''*'' \<or> matchesTeamScope g' teamID)}"

definition listed_role_grants :: "time \<Rightarrow> 's service \<Rightarrow> request \<Rightarrow> string \<Rightarrow> role_assignment \<Rightarrow> grant set result" where
  "listed_role_grants now s req teamID a =
     attempt (expand_view now s (ra_RoleID a)) (\<lambda>roleIDs.
     attempt (fetchRoleGrants now s roleIDs req) (\<lambda>roleGrants.
     Inr (resolved_grants now teamID (set roleIDs) [(ra_RoleID a, ra_BindingValues a)] (set roleGrants))))"

definition listed_grants :: "time \<Rightarrow> 's service \<Rightarrow> request \<Rightarrow> grant set result" where
  "listed_grants now s req =
     attempt (held_assignments s (rq_UserID req)) (\<lambda>roleAssignments.
     attempt (own_grants now s req) (\<lambda>direct.
     attempt (collect (listed_role_grants now s req (rq_TeamID req)) roleAssignments) (\<lambda>perAssignment.
     Inr ({g \<in> set direct. \<not> IsExpiredAt g now} \<union> \<Union> (set perAssignment)))))"

section \<open>The accumulator\<close>

definition shown_as :: "grant \<Rightarrow> effective_permission \<Rightarrow> bool" where
  "shown_as g e \<longleftrightarrow> ep_TeamScope e = gr_TeamScope g \<and> ep_ObjectScope e = gr_ObjectScope g \<and>
     ep_PermissionName e = gr_PermissionName g \<and> ep_Effect e = gr_Effect g \<and>
     ep_RestrictedFields e = gr_RestrictedFields g \<and> es_Principal (ep_Source e) = grant_owner g"

definition denied_keys :: "grant set \<Rightarrow> string set" where
  "denied_keys G = permissionKey ` {g \<in> G. gr_Effect g = EffectDeny}"

definition allowed_keys :: "grant set \<Rightarrow> string set" where
  "allowed_keys G = permissionKey ` {g \<in> G. gr_Effect g \<noteq> EffectDeny}"

text \<open>The entries are those of the allowed keys without a deny, one each, made from a grant of the key.\<close>

definition acc_ok :: "grant set \<Rightarrow> effective_acc \<Rightarrow> bool" where
  "acc_ok G acc \<longleftrightarrow> fst acc = denied_keys G \<and> wf_gomap (snd acc) \<and>
     dom (map_of (snd acc)) = allowed_keys G - denied_keys G \<and>
     (\<forall>k e. map_of (snd acc) k = Some e \<longrightarrow> (\<exists>g \<in> G. gr_Effect g \<noteq> EffectDeny \<and> permissionKey g = k \<and> shown_as g e))"

lemma acc_ok_empty [simp]: "acc_ok {} ({}, [])"
  by (simp add: acc_ok_def denied_keys_def allowed_keys_def wf_gomap_def)

lemma keys_insert:
  "denied_keys (insert g G) = (if gr_Effect g = EffectDeny then insert (permissionKey g) (denied_keys G) else denied_keys G)"
  "allowed_keys (insert g G) = (if gr_Effect g = EffectDeny then allowed_keys G else insert (permissionKey g) (allowed_keys G))"
  by (auto simp: denied_keys_def allowed_keys_def)

lemma accumulateGrant_new:
  assumes "gr_Effect g \<noteq> EffectDeny" "permissionKey g \<notin> denied" "map_of allowed (permissionKey g) = None"
  shows "\<exists>e. shown_as g e \<and> fst (accumulateGrant now g (denied, allowed) s) = (denied, AList.update (permissionKey g) e allowed)"
  using assms
  by (simp add: accumulateGrant_def Let_def split_beta)
    (intro conjI impI; (rule exI, rule conjI [rotated], rule refl, simp add: shown_as_def grant_owner_def))

lemma accumulateGrant_old:
  "gr_Effect g = EffectDeny \<Longrightarrow> fst (accumulateGrant now g (denied, allowed) s) =
     (insert (permissionKey g) denied, AList.delete (permissionKey g) allowed)"
  "gr_Effect g \<noteq> EffectDeny \<Longrightarrow> permissionKey g \<in> denied \<or> map_of allowed (permissionKey g) \<noteq> None \<Longrightarrow>
     fst (accumulateGrant now g (denied, allowed) s) = (denied, allowed)"
  by (auto simp: accumulateGrant_def Let_def)

lemma accumulateGrant_ok:
  assumes "acc_ok G (denied, allowed)"
  shows "acc_ok (insert g G) (fst (accumulateGrant now g (denied, allowed) s))"
proof -
  let ?k = "permissionKey g"
  have inv: "denied = denied_keys G" "wf_gomap allowed" "dom (map_of allowed) = allowed_keys G - denied_keys G"
    "map_of allowed k = Some e \<Longrightarrow> \<exists>g \<in> G. gr_Effect g \<noteq> EffectDeny \<and> permissionKey g = k \<and> shown_as g e" for k e
    using assms by (auto simp: acc_ok_def)
  consider (deny) "gr_Effect g = EffectDeny"
    | (known) "gr_Effect g \<noteq> EffectDeny" "?k \<in> denied \<or> map_of allowed ?k \<noteq> None"
    | (new) "gr_Effect g \<noteq> EffectDeny" "?k \<notin> denied" "map_of allowed ?k = None" by blast
  then show ?thesis
  proof cases
    case deny
    then show ?thesis using inv by (auto simp: acc_ok_def keys_insert accumulateGrant_old split: if_splits)
  next
    case known
    then have "?k \<in> denied_keys G \<or> ?k \<in> allowed_keys G" using inv by auto
    then have "allowed_keys (insert g G) - denied_keys (insert g G) = allowed_keys G - denied_keys G"
      using known(1) by (auto simp: keys_insert)
    with known inv show ?thesis by (auto simp: acc_ok_def accumulateGrant_old keys_insert)
  next
    case new
    obtain e where e: "shown_as g e" "fst (accumulateGrant now g (denied, allowed) s) = (denied, AList.update ?k e allowed)"
      using accumulateGrant_new [OF new] by blast
    have "dom (map_of (AList.update ?k e allowed)) = allowed_keys (insert g G) - denied_keys (insert g G)"
      using new inv by (auto simp: keys_insert)
    with new inv e show ?thesis by (auto simp: acc_ok_def keys_insert)
  qed
qed

section \<open>The loops\<close>

lemma accumulate_step:
  assumes "acc_ok G acc" "accumulateGrant now g acc s = (acc', s')"
  shows "acc_ok (insert g G) acc'" "same_view now s s'"
  using accumulateGrant_ok [of G "fst acc" "snd acc" g now s] accumulateGrant_view [of now s g acc] assms by simp_all

lemma accumulate_direct_ok:
  "acc_ok G acc \<Longrightarrow> accumulate_direct now gs acc s = (acc', s') \<Longrightarrow>
     acc_ok (G \<union> {g \<in> set gs. \<not> IsExpiredAt g now}) acc' \<and> same_view now s s'"
proof (induction gs arbitrary: G acc s)
  case (Cons g gs)
  show ?case
  proof (cases "IsExpiredAt g now")
    case False
    obtain acc1 s1 where run: "accumulateGrant now g acc s = (acc1, s1)" by fastforce
    note step = accumulate_step [OF Cons.prems(1) run]
    have "G \<union> {h \<in> set (g # gs). \<not> IsExpiredAt h now} = insert g G \<union> {h \<in> set gs. \<not> IsExpiredAt h now}"
      using False by auto
    then show ?thesis using Cons.IH [OF step(1), of s1] Cons.prems(2) False run same_view_trans [OF step(2)] by simp
  next
    case True
    then have "{h \<in> set (g # gs). \<not> IsExpiredAt h now} = {h \<in> set gs. \<not> IsExpiredAt h now}" by auto
    then show ?thesis using True Cons.IH [OF Cons.prems(1), of s] Cons.prems(2) by simp
  qed
qed simp

lemma resolved_grants_insert:
  "resolved_grants now t ids bm (insert g G) = resolved_grants now t ids bm {g} \<union> resolved_grants now t ids bm G"
  by (auto simp: resolved_grants_def)

lemma accumulate_role_grants_ok:
  "acc_ok G acc \<Longrightarrow> accumulate_role_grants now t ids bm gs acc s = (acc', s') \<Longrightarrow>
     acc_ok (G \<union> resolved_grants now t ids bm (set gs)) acc' \<and> same_view now s s'"
proof (induction gs arbitrary: G acc s)
  case Nil
  then show ?case by (simp add: resolved_grants_def)
next
  case (Cons g gs)
  consider (skip) "resolved_grants now t ids bm {g} = {}"
      "accumulate_role_grants now t ids bm (g # gs) acc s = accumulate_role_grants now t ids bm gs acc s"
    | (add) g' where "resolved_grants now t ids bm {g} = {g'}"
      "accumulate_role_grants now t ids bm (g # gs) acc s =
         (let (acc1, s1) = accumulateGrant now g' acc s in accumulate_role_grants now t ids bm gs acc1 s1)"
  proof (cases "resolveGrantBindings g bm")
    case (Inr g')
    show ?thesis
    proof (cases "(gr_OwnerKind g = PrincipalRole \<longrightarrow> gr_OwnerID g \<in> ids) \<and> \<not> IsExpiredAt g now \<and> (t = ''*'' \<or> matchesTeamScope g' t)")
      case True
      with Inr show ?thesis by (intro add [of g']) (auto simp: resolved_grants_def)
    next
      case False
      with Inr show ?thesis by (intro skip) (auto simp: resolved_grants_def)
    qed
  qed (auto simp: resolved_grants_def)
  then show ?case
  proof cases
    case skip
    then show ?thesis using Cons.IH [OF Cons.prems(1), of s] Cons.prems(2) by (simp add: resolved_grants_insert [of now t ids bm g "set gs"] Un_assoc)
  next
    case add
    obtain acc1 s1 where run: "accumulateGrant now g' acc s = (acc1, s1)" by fastforce
    note step = accumulate_step [OF Cons.prems(1) run]
    have "accumulate_role_grants now t ids bm gs acc1 s1 = (acc', s')" using add(2) Cons.prems(2) run by simp
    from Cons.IH [OF step(1) this] show ?thesis
      using add(1) same_view_trans [OF step(2)] by (simp add: resolved_grants_insert [of now t ids bm g "set gs"] Un_assoc)
  qed
qed

lemma listed_role_grants_cong: "same_view now s s' \<Longrightarrow> listed_role_grants now s' = listed_role_grants now s"
  by (intro ext) (simp add: listed_role_grants_def view_cong fetchRoleGrants_cong)

lemma accumulate_assignments_ok:
  "acc_ok G acc \<Longrightarrow> expand_cache_ok now s cache \<Longrightarrow>
   accumulate_assignments now req t as cache acc s = (Inr acc', s') \<Longrightarrow>
   \<exists>css. collect (listed_role_grants now s req t) as = Inr css \<and> acc_ok (G \<union> \<Union> (set css)) acc'"
proof (induction as arbitrary: G acc s cache)
  case (Cons a as)
  obtain r cache1 s1 where expand: "expandRolesCached now (ra_RoleID a) cache s = (r, cache1, s1)"
    using prod_cases3 by blast
  note view = expandRolesCached_view [OF Cons.prems(2) expand]
  obtain ids gs where ids: "r = Inr ids" "fetchRoleGrants now s1 ids req = Inr gs"
    using Cons.prems(3) expand by (auto split: sum.splits)
  obtain acc1 s2 where run: "accumulate_role_grants now t (set ids) [(ra_RoleID a, ra_BindingValues a)] gs acc s1 = (acc1, s2)"
    by fastforce
  note step = accumulate_role_grants_ok [OF Cons.prems(1) run]
  have rest: "accumulate_assignments now req t as cache1 acc1 s2 = (Inr acc', s')"
    using Cons.prems(3) expand ids run by simp
  have same: "same_view now s s2" using view(3) step same_view_trans by blast
  then have "expand_cache_ok now s2 cache1" using view(2) expand_cache_ok_cong by blast
  from Cons.IH [OF step [THEN conjunct1] this rest] listed_role_grants_cong [OF same]
  obtain css where css: "collect (listed_role_grants now s req t) as = Inr css"
    "acc_ok (G \<union> resolved_grants now t (set ids) [(ra_RoleID a, ra_BindingValues a)] (set gs) \<union> \<Union> (set css)) acc'" by auto
  moreover have "listed_role_grants now s req t a =
      Inr (resolved_grants now t (set ids) [(ra_RoleID a, ra_BindingValues a)] (set gs))"
    using view(1) [symmetric] ids fetchRoleGrants_cong [OF view(3)] by (simp add: listed_role_grants_def)
  ultimately show ?case by (simp add: Un_assoc)
qed simp

section \<open>The listing\<close>

definition listing_request :: "string \<Rightarrow> string \<Rightarrow> string \<Rightarrow> request" where
  "listing_request userID teamID objectID = \<lparr>rq_UserID = userID, rq_TeamID = teamID, rq_Object = objectID, rq_Perm = ''''\<rparr>"

lemma EffectivePermissions_ok:
  assumes "EffectivePermissions now s u t ob = (Inr eps, s')"
  obtains G acc where "listed_grants now s (listing_request u t ob) = Inr G" "acc_ok G acc" "eps = map snd (snd acc)"
proof -
  let ?req = "listing_request u t ob"
  have u: "u \<noteq> ''''" using assms by (auto simp: EffectivePermissions_def)
  have gather: "attempt (resolveUserGroupIDs s u) (\<lambda>groupIDs. attempt (resolveUserTeamIDs s u) (\<lambda>teamIDs.
      attempt (resolveRoleAssignmentsForUserGroupsAndTeams s u groupIDs teamIDs) (\<lambda>as.
      attempt (op_GrantsForOwners (sv_ops s) now (sv_store s) (unbound_owners u groupIDs) ?req) (\<lambda>gs. Inr (as, gs))))) =
    attempt (held_assignments s u) (\<lambda>as. attempt (own_grants now s ?req) (\<lambda>gs. Inr (as, gs)))"
    using gather_eq [of s ?req now] u by (simp add: listing_request_def direct_grants_def unbound_owners_def)
  obtain as gs where read: "held_assignments s u = Inr as" "own_grants now s ?req = Inr gs"
    and rest: "(let (acc, s1) = accumulate_direct now gs ({}, []) s in
             case accumulate_assignments now ?req t as [] acc s1 of
               (Inl e, s2) \<Rightarrow> (Inl e, s2)
             | (Inr (denied, allowed), s2) \<Rightarrow> (Inr (map snd allowed), s2)) = (Inr eps, s')"
    using assms u gather unfolding EffectivePermissions_def Let_def listing_request_def [symmetric]
    by (auto split: sum.splits)
  obtain acc1 s1 where direct: "accumulate_direct now gs ({}, []) s = (acc1, s1)" by fastforce
  note ok1 = accumulate_direct_ok [OF acc_ok_empty direct, simplified]
  obtain acc s2 where roles: "accumulate_assignments now ?req t as [] acc1 s1 = (Inr acc, s2)" and eps: "eps = map snd (snd acc)"
    using rest direct by (auto split: prod.splits sum.splits)
  have "expand_cache_ok now s1 []" by (simp add: expand_cache_ok_def)
  from accumulate_assignments_ok [OF ok1 [THEN conjunct1] this roles] listed_role_grants_cong [OF ok1 [THEN conjunct2]]
  obtain css where "collect (listed_role_grants now s ?req t) as = Inr css"
    "acc_ok ({g \<in> set gs. \<not> IsExpiredAt g now} \<union> \<Union> (set css)) acc" by auto
  with read eps show ?thesis by (intro that) (simp_all add: listed_grants_def listing_request_def)
qed

definition entry_key :: "effective_permission \<Rightarrow> string" where
  "entry_key e = permissionKey (new_grant '''' '''' '''' (ep_TeamScope e) (ep_ObjectScope e) (ep_PermissionName e) None)"

lemma shown_as_key: "shown_as g e \<Longrightarrow> entry_key e = permissionKey g"
  by (simp add: shown_as_def entry_key_def permissionKey_def new_grant_def)

lemma acc_ok_entry:
  assumes "acc_ok G acc" "(k, e) \<in> set (snd acc)"
  shows "\<exists>g \<in> G. gr_Effect g \<noteq> EffectDeny \<and> permissionKey g = k \<and> shown_as g e"
proof -
  have "wf_gomap (snd acc)" using assms(1) by (simp add: acc_ok_def)
  then have "map_of (snd acc) k = Some e" using assms(2) by (simp add: wf_gomap_in_iff)
  then show ?thesis using assms(1) by (simp add: acc_ok_def)
qed

lemma acc_ok_entries: "acc_ok G acc \<Longrightarrow> map entry_key (map snd (snd acc)) = map fst (snd acc)"
  using acc_ok_entry shown_as_key by fastforce

text \<open>C19. The effective permissions list, once for each team scope, object scope and permission, the
  allowing grants among the user's own and those of the roles held. An entry shows one of its
  grants. Nothing but a deny with the same key of scopes and permission keeps an entry off the list:
  a deny that covers more, which makes the check refuse, does not.\<close>

theorem effective_permissions_listed:
  assumes "EffectivePermissions now s u t ob = (Inr eps, s')"
  shows "distinct (map entry_key eps) \<and> (\<exists>G. listed_grants now s (listing_request u t ob) = Inr G \<and>
    entry_key ` set eps = allowed_keys G - denied_keys G \<and>
    (\<forall>e \<in> set eps. \<exists>g \<in> G. gr_Effect g \<noteq> EffectDeny \<and> shown_as g e))"
proof -
  obtain G acc where G: "listed_grants now s (listing_request u t ob) = Inr G" "acc_ok G acc" "eps = map snd (snd acc)"
    by (rule EffectivePermissions_ok [OF assms])
  have keys: "map entry_key eps = map fst (snd acc)" using acc_ok_entries [OF G(2)] G(3) by simp
  have "entry_key ` set eps = dom (map_of (snd acc))"
    using arg_cong [OF keys, of set] by (simp add: dom_map_of_conv_image_fst)
  moreover have "\<forall>e \<in> set eps. \<exists>g \<in> G. gr_Effect g \<noteq> EffectDeny \<and> shown_as g e"
    using acc_ok_entry [OF G(2)] G(3) by fastforce
  moreover have "distinct (map entry_key eps)" using G(2) by (simp add: keys acc_ok_def wf_gomap_def)
  ultimately show ?thesis using G(1,2) by (auto simp: acc_ok_def)
qed


text \<open>A service without synthetic roles, on a store with the given grants.\<close>

definition demo_with :: "grant list \<Rightarrow> boot_service" where
  "demo_with gs = New\<lparr>sv_publicRoleID := '''', sv_authenticatedRoleID := '''', sv_store := newBootstrapStore\<lparr>bs_grants := gs\<rparr>\<rparr>"

definition demo_red :: grant where
  "demo_red = new_grant PrincipalUser ''alice'' EffectAllow ''red'' None ''read'' None"

definition demo_refused :: boot_service where
  "demo_refused = demo_with [demo_red, new_grant PrincipalUser ''alice'' EffectDeny ''*'' None ''read'' None]"

lemma demo_refused_listing:
  "map_sum id (map ep_TeamScope) (fst (EffectivePermissions 0 demo_refused ''alice'' ''red'' '''')) = Inr [''red'']"
  unfolding demo_refused_def demo_with_def New_eq by code_simp

lemma demo_refused_check: "fst (HasTeamPermission 0 demo_refused ''alice'' ''red'' '''' ''read'') = Inr False"
  unfolding demo_refused_def demo_with_def New_eq by code_simp

theorem effective_permissions_listed_witness:
  "\<exists>eps G. fst (EffectivePermissions 0 demo_refused ''alice'' ''red'' '''') = Inr eps \<and> map ep_TeamScope eps = [''red''] \<and>
     listed_grants 0 demo_refused (listing_request ''alice'' ''red'' '''') = Inr G \<and>
     entry_key ` set eps = allowed_keys G - denied_keys G \<and>
     fst (HasTeamPermission 0 demo_refused ''alice'' ''red'' '''' ''read'') = Inr False"
proof -
  obtain eps s' where run: "EffectivePermissions 0 demo_refused ''alice'' ''red'' '''' = (Inr eps, s')"
    using demo_refused_listing by (cases "EffectivePermissions 0 demo_refused ''alice'' ''red'' ''''"; cases "fst (EffectivePermissions 0 demo_refused ''alice'' ''red'' '''')") auto
  from effective_permissions_listed [OF run] run demo_refused_listing demo_refused_check show ?thesis by auto
qed


section \<open>Teams\<close>

lemma resolveScopeToken_source:
  "resolveScopeToken t bv = Inr t' \<Longrightarrow> t' = t \<or> (\<exists>v \<in> snd ` set bv. t' = token_text v)"
  by (force simp: resolveScopeToken_def Let_def dest: map_of_SomeD split: if_splits option.splits)

lemma resolve_team:
  assumes "resolveGrantBindings g [(r, bv)] = Inr g'"
  shows "gr_TeamScope g' = gr_TeamScope g \<or> (\<exists>v \<in> snd ` set bv. gr_TeamScope g' = token_text v)"
    and "gr_PermissionName g' = gr_PermissionName g"
proof -
  have "gr_TeamScope g' = gr_TeamScope g \<or> resolveScopeToken (gr_TeamScope g) [] = Inr (gr_TeamScope g') \<or>
      resolveScopeToken (gr_TeamScope g) bv = Inr (gr_TeamScope g')"
    using assms by (auto simp: resolveGrantBindings_def split: option.splits if_splits)
  then show "gr_TeamScope g' = gr_TeamScope g \<or> (\<exists>v \<in> snd ` set bv. gr_TeamScope g' = token_text v)"
    using resolveScopeToken_source [of "gr_TeamScope g" bv] resolveScopeToken_source [of "gr_TeamScope g" "[]"] by auto
  show "gr_PermissionName g' = gr_PermissionName g" by (rule resolveGrantBindings_frame(5) [OF assms])
qed

text \<open>The default store is asked for the team \<open>*\<close>, which it compares like the name of a team.\<close>

lemma default_store_scopes:
  assumes "op_GrantsForOwners bootstrap_ops now st owners (listing_request u ''*'' ob) = Inr gs" "g \<in> set gs"
  shows "gr_TeamScope g = ''*'' \<or> HasPrefix (gr_TeamScope g) ''?''"
  using assms
  by (auto simp: bootstrap_GrantsForOwners_def Let_def cloneGrant_def listing_request_def scopeMatches_def split: if_splits)

lemma allowed_teams_from: "t \<in> set (allowed_teams perm eps seen) \<Longrightarrow>
    \<exists>e \<in> set eps. ep_TeamScope e = t \<and> ep_PermissionName e = perm"
  by (induction eps arbitrary: seen) (auto split: if_splits)

definition unbound_team :: "string \<Rightarrow> bool" where
  "unbound_team t \<longleftrightarrow> t = ''*'' \<or> HasPrefix t ''?''"

text \<open>Where a listed team can come from: the wildcard and unresolved variables, grants of built-in
  roles, and the binding values of the assignments that the user holds.\<close>

definition listed_source :: "'s service \<Rightarrow> string \<Rightarrow> string \<Rightarrow> string \<Rightarrow> bool" where
  "listed_source s u perm t \<longleftrightarrow> unbound_team t \<or>
     (\<exists>g \<in> set (bi_grants (sv_builtIns s)). gr_PermissionName g = perm \<and> gr_TeamScope g = t) \<or>
     (case held_assignments s u of
        Inl e \<Rightarrow> False
      | Inr as \<Rightarrow> \<exists>a \<in> set as. \<exists>v \<in> snd ` set (ra_BindingValues a). t = token_text v)"

lemma listed_scopes:
  assumes "sv_ops s = bootstrap_ops" "listed_grants now s (listing_request u ''*'' ob) = Inr G" "g \<in> G"
    and "gr_PermissionName g = perm"
  shows "listed_source s u perm (gr_TeamScope g)"
proof -
  let ?req = "listing_request u ''*'' ob"
  obtain as direct css where held: "held_assignments s u = Inr as"
    and read: "own_grants now s ?req = Inr direct" "collect (listed_role_grants now s ?req ''*'') as = Inr css"
    and G: "G = {g \<in> set direct. \<not> IsExpiredAt g now} \<union> \<Union> (set css)"
    using assms(2) by (auto simp: listed_grants_def listing_request_def)
  consider "g \<in> set direct" | cs where "cs \<in> set css" "g \<in> cs" using assms(3) G by auto
  then show ?thesis
  proof cases
    case 1
    then have "unbound_team (gr_TeamScope g)"
      using read(1) default_store_scopes assms(1)
      by (fastforce simp: own_grants_def direct_grants_def unbound_team_def split: if_splits)
    then show ?thesis by (simp add: listed_source_def)
  next
    case 2
    then obtain a where a: "a \<in> set as" "listed_role_grants now s ?req ''*'' a = Inr cs"
      using collect_Inr_in [OF read(2)] by blast
    then obtain ids gs h where h: "fetchRoleGrants now s ids ?req = Inr gs" "h \<in> set gs"
      "resolveGrantBindings h [(ra_RoleID a, ra_BindingValues a)] = Inr g"
      using 2(2) by (auto simp: listed_role_grants_def resolved_grants_def)
    have "h \<in> set (builtIn_GrantsForOwners now (sv_builtIns s) (map role_ref (filter (\<lambda>r. HasPrefix r BuiltInPrefix) ids)) ?req) \<or>
      (\<exists>cg. op_GrantsForOwners bootstrap_ops now (sv_store s) (map role_ref (filter (\<lambda>r. \<not> HasPrefix r BuiltInPrefix) ids)) ?req = Inr cg \<and>
        h \<in> set cg)"
      using h(1,2) assms(1) by (auto simp: fetchRoleGrants_def Let_def split: if_splits)
    then have "unbound_team (gr_TeamScope h) \<or> (\<exists>k \<in> set (bi_grants (sv_builtIns s)). h = cloneGrant k)"
      using default_store_scopes [where g = h] by (auto simp: unbound_team_def builtIn_GrantsForOwners_def Let_def)
    then show ?thesis
      using resolve_team [OF h(3)] a(1) held assms(4) by (auto simp: listed_source_def cloneGrant_def)
  qed
qed

lemma allowed_teams_sources:
  assumes "sv_ops s = bootstrap_ops" "AllowedTeamsForUser now s u perm = (Inr ts, s')" "t \<in> set ts"
  shows "listed_source s u perm t"
proof -
  obtain eps where eps: "EffectivePermissions now s u ''*'' ''*'' = (Inr eps, s')" "ts = allowed_teams perm eps {}"
    using assms(2) by (auto simp: AllowedTeamsForUser_def split: if_splits sum.splits prod.splits)
  obtain e where e: "e \<in> set eps" "ep_TeamScope e = t" "ep_PermissionName e = perm"
    using allowed_teams_from assms(3) eps(2) by blast
  obtain G acc where G: "listed_grants now s (listing_request u ''*'' ''*'') = Inr G" "acc_ok G acc" "eps = map snd (snd acc)"
    by (rule EffectivePermissions_ok [OF eps(1)])
  obtain g where "g \<in> G" "shown_as g e" using e(1) acc_ok_entry [OF G(2)] G(3) by fastforce
  with listed_scopes [OF assms(1) G(1), of g] e show ?thesis by (simp add: shown_as_def)
qed

text \<open>A grant of the user for a team is a candidate of the check for this team.\<close>

definition team_request :: "string \<Rightarrow> string \<Rightarrow> string \<Rightarrow> request" where
  "team_request u t perm = \<lparr>rq_UserID = u, rq_TeamID = t, rq_Object = '''', rq_Perm = perm\<rparr>"

definition own_team_grant :: "time \<Rightarrow> string \<Rightarrow> string \<Rightarrow> string \<Rightarrow> grant \<Rightarrow> bool" where
  "own_team_grant now u t perm g \<longleftrightarrow> gr_OwnerKind g = PrincipalUser \<and> gr_OwnerID g = u \<and>
     gr_Effect g = EffectAllow \<and> gr_TeamScope g = t \<and> t \<noteq> '''' \<and> gr_ObjectScope g = None \<and>
     gr_PermissionName g = perm \<and> \<not> IsExpiredAt g now"

lemma own_team_grant_decides:
  assumes "sv_ops s = bootstrap_ops" "wf_bootstrap (sv_store s)" "u \<noteq> ''''" "perm \<noteq> ''''"
    and "g \<in> set (bs_grants (sv_store s))" "own_team_grant now u t perm g"
    and "candidate_grants now s (team_request u t perm) = Inr gs" "\<forall>h \<in> set gs. \<not> vetoes now (team_request u t perm) None h"
  shows "fst (HasTeamPermission now s u t '''' perm) = Inr True"
proof -
  let ?req = "team_request u t perm"
  have req: "rq_UserID ?req = u" "rq_TeamID ?req = t" "rq_Perm ?req = perm" by (simp_all add: team_request_def)
  obtain groups direct where direct: "resolveUserGroupIDs s u = Inr groups"
    "direct_grants now s (unbound_owners u groups) ?req = Inr direct" "set direct \<subseteq> set gs"
    using assms(7) by (auto simp: candidate_grants_def own_grants_def req)
  have "bootstrap_GrantsForOwners now (sv_store s) (unbound_owners u groups) ?req = Inr direct"
    using direct(2) assms(1,3) by (auto simp: direct_grants_def unbound_owners_def)
  then have "g \<in> set direct"
    using assms(2,3,5,6)
    by (intro bootstrap.matching_grant_read [of "sv_store s" now "unbound_owners u groups" ?req direct g])
      (auto simp: own_team_grant_def owned_by_def grant_owner_def unbound_owners_def grantMatchesRequest_iff req)
  then have "g \<in> set gs" "allows now ?req None g"
    using direct(3) assms(6) by (auto simp: own_team_grant_def verdict_defs grantMatchesRequest_iff
        grantMatchesFieldPath_def req)
  then show ?thesis
    using evaluatePermission_decides [of ?req now s gs None] assms(4,7,8) req(3)
    by (auto simp: HasTeamPermission_def HasPermission_def team_request_def decide_def)
qed

text \<open>C14. Despite its name and the comment of \<open>EffectivePermissions\<close>, \<open>AllowedTeamsForUser\<close> on the
  default store does not list the teams of stored grants: a listed team is the wildcard, an unresolved
  variable, a team that a grant of a built-in role for the permission names, or a binding value of an
  assignment that the user holds. So a team for which the store holds an unexpired allowing grant of the
  user itself, without object scope, is missing unless it happens to be one of these, and still the
  check accepts the user there (if its reads succeed and no candidate vetoes).\<close>

theorem allowed_teams_lists_no_team:
  assumes "service_reachable s" "AllowedTeamsForUser now s u perm = (Inr ts, s')"
  shows "(\<forall>t \<in> set ts. listed_source s u perm t) \<and>
    (\<forall>t gs. (\<exists>g \<in> set (bs_grants (sv_store s)). own_team_grant now u t perm g) \<longrightarrow> \<not> listed_source s u perm t \<longrightarrow>
       candidate_grants now s (team_request u t perm) = Inr gs \<longrightarrow>
       (\<forall>h \<in> set gs. \<not> vetoes now (team_request u t perm) None h) \<longrightarrow>
       fst (HasTeamPermission now s u t '''' perm) = Inr True \<and> t \<notin> set ts)"
proof -
  have wf: "sv_ops s = bootstrap_ops" "wf_bootstrap (sv_store s)"
    using reachable_wf_service [OF assms(1)] by (simp_all add: wf_service_def wf_stored_def)
  have named: "perm \<noteq> ''''" "u \<noteq> ''''"
    using assms(2) by (auto simp: AllowedTeamsForUser_def EffectivePermissions_def split: if_splits)
  note listed = allowed_teams_sources [OF wf(1) assms(2)]
  show ?thesis
    using listed own_team_grant_decides [OF wf named(2,1)] by blast
qed

lemma demo_with_reachable:
  assumes "\<forall>g \<in> set gs. stored_grant g"
  shows "service_reachable (demo_with gs)"
proof -
  let ?st = "newBootstrapStore\<lparr>bs_grants := gs\<rparr>"
  have wf: "wf_bootstrap ?st" using assms wf_newBootstrapStore by (simp add: wf_bootstrap_def)
  have "demo_with gs = SetStore (SetAuthenticatedRoleID (SetPublicRoleID New '''') '''') bootstrap_ops ?st"
    by (simp add: demo_with_def New_eq SetStore_def SetAuthenticatedRoleID_def SetPublicRoleID_def
        invalidateDisabledCache_def TrimSpace_printable)
  then show ?thesis
    by (metis service_reachable.intros service_step.set_store [OF wf] service_step.set_public service_step.set_authenticated)
qed

theorem allowed_teams_lists_no_team_witness:
  "\<exists>ts. fst (AllowedTeamsForUser 0 (demo_with [demo_red]) ''alice'' ''read'') = Inr ts \<and> ''red'' \<notin> set ts \<and>
     fst (HasTeamPermission 0 (demo_with [demo_red]) ''alice'' ''red'' '''' ''read'') = Inr True"
proof -
  let ?s = "demo_with [demo_red]"
  have reachable: "service_reachable ?s"
    by (rule demo_with_reachable) (simp add: demo_red_def stored_grant_def check_grant_None)
  have red: "\<not> unbound_team ''red''" by code_simp
  have held: "held_assignments ?s ''alice'' = Inr []" unfolding demo_with_def New_eq by code_simp
  have candidates: "candidate_grants 0 ?s (team_request ''alice'' ''red'' ''read'') = Inr [demo_red]"
    unfolding demo_with_def New_eq by code_simp
  have service: "bs_grants (sv_store ?s) = [demo_red]" "bi_grants (sv_builtIns ?s) = []"
    by (simp_all add: demo_with_def New_eq newBuiltInRegistry_def)
  have grant: "own_team_grant 0 ''alice'' ''red'' ''read'' demo_red"
    by (simp add: own_team_grant_def demo_red_def IsExpiredAt_def IsActiveAt_def)
  have veto: "\<not> vetoes 0 (team_request ''alice'' ''red'' ''read'') None demo_red"
    by (simp add: vetoes_def demo_red_def)
  have "\<not> isl (fst (AllowedTeamsForUser 0 ?s ''alice'' ''read''))" unfolding demo_with_def New_eq by code_simp
  then obtain ts s' where run: "AllowedTeamsForUser 0 ?s ''alice'' ''read'' = (Inr ts, s')"
    by (cases "AllowedTeamsForUser 0 ?s ''alice'' ''read''"; cases "fst (AllowedTeamsForUser 0 ?s ''alice'' ''read'')") auto
  have "fst (HasTeamPermission 0 ?s ''alice'' ''red'' '''' ''read'') = Inr True \<and> ''red'' \<notin> set ts"
    by (rule allowed_teams_lists_no_team [OF reachable run, THEN conjunct2, rule_format, OF _ _ candidates])
      (simp_all add: service grant held red listed_source_def veto)
  with run show ?thesis by simp
qed

end
