(* ===== verification/Spec2Isabelle.thy ===== *)
theory Spec2Isabelle
  imports Cached_Runs Store_Agreement Role_Assignment_Manager Crud_Permissions Postgres_Graph Effective_Listing
begin

text \<open>
  A model of the Go library go-permissions: a service that answers whether a user has a permission,
  from roles, role assignments and grants kept in an exchangeable store; the stores that the
  repository brings along; and the helpers on top of the service.

  How the program works. A \<open>Service\<close> (\<open>service.go\<close>) holds a store, an optional identity provider, the
  registry of built-in roles and a short-lived cache of the disabled built-in roles. A check collects
  the grants of the user and of the roles assigned to the user, to the user's groups and teams and to
  everyone (the synthetic roles); it expands each role to the roles that it inherits, resolves the
  variables of role grants by the bindings of the assignment, and lets a matching deny win over every
  allow. The store interface (\<open>store.go\<close>) is implemented by the default store of the service
  (\<open>bootstrap_store.go\<close>), a store for tests (\<open>inmemory/\<close>), a store on a JSON file (\<open>jsonstore/\<close>), a
  caching wrapper (\<open>cachedstore/\<close>) and a PostgreSQL store (\<open>postgres/\<close>).

  Theories and sources.
  \<^item> Prelude: Go maps (association lists without duplicate keys, \<open>gomap\<close>), the results of Go functions
    (\<open>'a result\<close> is an error or a value; \<open>'s update\<close> is an optional error with the new state), the
    functions of the standard library on strings, and the facts all components share.
  \<^item> Types: the structs and enumerations of \<open>types.go\<close> as records; enumerations stay strings as in Go.
  \<^item> Store_Interface: the two interfaces of \<open>store.go\<close> as method tables (\<open>store_ops\<close> over the state of a
    store, \<open>identity_provider\<close>), and what callers rely on as locales: \<open>grant_reader\<close>, \<open>scoped_reader\<close>,
    \<open>grant_store\<close> (reads return the stored grants that match, deletions remove), \<open>role_expander\<close>,
    \<open>inheritance_store\<close> (expansion is reachability), \<open>assignment_store\<close> (both directions of the lookup
    agree), \<open>cacheable_store\<close> (a cached answer stands for a fresh one) and \<open>membership\<close>.
  \<^item> Grants: the pure functions on grants, scopes, field paths, bindings and keys of \<open>service.go\<close> and
    \<open>bootstrap_store.go\<close>.
  \<^item> Role_Graph: inheritance edges and their stored transitive closure, with the loops that several
    stores run over them; \<open>closure_ok\<close> is the invariant.
  \<^item> BuiltIn_Registry: \<open>builtin_registry.go\<close>. Bootstrap_Store: \<open>bootstrap_store.go\<close>. Paging: the
    cursors of \<open>ListGrants\<close> and of the reports.
  \<^item> Service_State, Evaluation, Service_Admin, Service_Queries: \<open>service.go\<close>; the record \<open>service\<close> has the
    struct's fields, and the store's state is one of them, so that every operation returns the service
    that it leaves. Evaluation holds the check and its reading as a set of candidates (\<open>candidate_grants\<close>)
    and a decision on them (\<open>decide\<close>).
  \<^item> Service_Runs: the operations that can change a service (writes, configuration, reads that refresh
    the cache) as events, a step relation and the states reachable from \<open>New\<close>. Grant_Effects: what writing a grant does to the answers. Demo_Service: a small service for
    the examples.
  \<^item> Role_Assignment_Manager: \<open>role_assignment_manager.go\<close>, its rules as a datatype.
  \<^item> Inmemory_Store, Inmemory_Identity: \<open>inmemory/\<close>, the latter with its read-write lock as a step
    relation over threads that lock and unlock.
  \<^item> Go_Json, Cached_Store, Cached_Runs: \<open>cachedstore/store.go\<close> over any base store; Go_Json is the part
    of \<open>encoding/json\<close> that prints the cache keys.
  \<^item> Json_Values, Json_Files, Json_Store, Json_Identity, Json_Recovery: \<open>jsonstore/\<close>; the documents that it
    writes as JSON values, the calls that replace and load its file, its operations, and what is left
    after a restart, a failed save and two concurrent saves.
  \<^item> Postgres_Server, Postgres_Tables, Postgres_Store, Postgres_Schema: \<open>postgres/store.go\<close>. Postgres_Server
    has the calls that pgx makes (\<open>pg_query\<close>, \<open>pg_exec\<close>, transactions as lists of steps), each of which may
    fail with or without effect; Postgres_Tables has the rows and, one by one, the SQL statements of
    the store as functions on the tables (\<open>sql_\<close>); Postgres_Store has the methods (\<open>pg_\<close>);
    Postgres_Schema has \<open>EnsureSchema\<close> on a catalogue of types, tables and indexes.
  \<^item> Postgres_Runs, Postgres_Properties, Postgres_Graph, Postgres_Grants: the states that calls reach and
    the constraints they keep, failing calls, role inheritance, and reading and paging of grants.
  \<^item> Store_Agreement: the stores side by side.
  \<^item> Effective_Listing: what the listings of Service_Queries contain.
  \<^item> Permission_Objects, Permission_Registry, Crud_Permissions: \<open>utilities.go\<close>, \<open>registry.go\<close> and
    \<open>crud_permissions.go\<close>.

  What is shown. C1 to C5: the check answers as its declarative reading says, fails closed, leaves
  the answers of later checks alone, and its field-wise forms agree with it. C6 to C8: what denying
  and allowing do to the check. C10 and C11: every reachable service is consistent, and a disabled
  built-in role contributes nothing. C12, C13, C17, C18 and C21: the default store's own laws, for
  role graphs, assignments and pages. C14, C15 and C19: equivalent grants, and what the listings of
  permissions and teams contain. C23 to C27: the rules of the role assignment manager. C28, C29 and C31:
  a cached default store answers as its base store, within the stated limits (in front of a store whose
  failing writes may take effect it does not). C32: the lock of the in-memory
  identity provider. C33: permission objects. C9, C16, C20, C22, C30 and C40: the PostgreSQL store keeps
  its constraints, does all or nothing when calls fail, reads back what was written, pages through it,
  and expands roles along its closure table, which deletions leave behind. C34 to C36: the stores agree on
  what the contracts promise, and where they do not. C37 to C39: what the file of a JSON store holds.
  Several properties state where the code departs from what its comments or its other parts promise:
  C13, C14, C19, C27, C30 to C32, C36 to C40, and the last part of C33.

  Interfaces. Every store interprets the contracts in its own theory (\<open>bootstrap\<close>, \<open>inmemory\<close>, \<open>json\<close>,
  \<open>postgres\<close> and their \<open>_roles\<close>, \<open>_assignments\<close> and \<open>_cacheable\<close> companions), the identity providers interpret
  \<open>membership\<close>; \<open>forgetful_store\<close> of Store_Agreement is interpreted by the stores that read back other
  grants than \<open>EnsureGrantForOwner\<close> asked for, and \<open>stable_checker\<close> of Permission_Objects by the service.

  Parameters. Code outside the repository appears as arguments with laws: the cache of go-cache, the
  error collection of go-multierror, the file calls of the operating system (\<open>go_os\<close> with \<open>os_laws\<close>), the
  text formats of numbers and times in JSON (\<open>json_codec\<close>), the case of letters outside ASCII
  (\<open>case_tables\<close>) and the caller's callbacks. A checker, an identity provider and the base store of
  a cached store are arbitrary method tables. The PostgreSQL server is the record \<open>pg_server\<close>: how each
  call ends, the precision of its times, equality of \<open>jsonb\<close> documents, the gaps of a sequence and the
  order of texts; all of them are arbitrary. Each set of laws has an instance that is computed
  with in the examples.

  Conventions. Strings are byte strings, as in Go. Times are integers; all readings of the clock within
  one call are one instant. The integers of the paging code are 64 bits wide with the wrap-around
  written out (\<open>int64\<close> arithmetic in Paging), with \<open>sane_length\<close> as the bound on the length of a slice.
  A map is iterated in the order of its association list; where the code's answer depends on the
  order, the order is a parameter or the property speaks of sets. A panic is the error \<open>GoPanic\<close>.

  The PostgreSQL store is used by one session, so a call ends before the next one starts. nil and
  empty slices and maps are one value of the model; where they differ for the database, the
  difference is an argument (\<open>empty_is_nil\<close>, for the permissions of \<open>UpdateRole\<close> and the bindings of
  \<open>UnassignRole\<close>). Errors of the server carry the label that the store puts before them; its own text
  is not modelled.

  Termination. All functions are total. The loops of the source run over slices and maps and are
  recursions on lists; \<open>transitiveExpand\<close> of the JSON store ends because every round visits a new role
  (a measure on the roles not yet visited). Only \<open>walk_pages\<close> and \<open>pg_walk\<close>, which follow cursors until
  there are none, have fuel; C21 and C22 show that one more than the number of matching grants is enough.

  Not modelled.
  \<^item> Of PostgreSQL: concurrent sessions, the columns that the store never reads (\<open>created_at\<close>,
    \<open>updated_at\<close>, \<open>depth\<close> beyond its value), defaults and checks in the catalogue, and the upgrade of
    the rows of older tables by \<open>alter table\<close>.
  \<^item> The layout of JSON files as text, and documents that the store never writes itself (repeated field
    names, names in other letter case). A file holds a JSON value, is empty, or cannot be decoded.
    \<open>normalizeData\<close> replaces nil maps by empty ones, which are equal in the model.
  \<^item> Interleaving of operations beyond the three cases treated (the lock of the identity provider, the
    filling of the cache, saving to a file): the other operations hold their lock throughout.
  \<^item> Sharing of slices and maps with the caller: operations copy, and the model's values are immutable.
    \<open>SetData\<close> of the JSON store is modelled for a caller who does not change the data afterwards.
  \<^item> Case folding of characters: \<open>RoleDefinitionsByTag\<close> has it as the argument \<open>folded\<close>.
  \<^item> Functions that nothing calls (\<open>cloneGrantSlice\<close>), accessors and constructors that only pass their
    arguments on, the testing harness, the examples and the documentation.
\<close>

section \<open>The permission check\<close>

text \<open>C1. The check answers a request by its candidate grants: once the reads succeed, it allows
  exactly the requests that some unexpired matching candidate allows and none vetoes.\<close>

theorem check_decides:
  assumes "rq_Perm req \<noteq> ''''" "candidate_grants now s req = Inr gs"
  shows "fst (evaluatePermission now s req fieldPath) =
    Inr ((\<exists>g \<in> set gs. allows now req fieldPath g) \<and> \<not> (\<exists>g \<in> set gs. vetoes now req fieldPath g))"
  using evaluatePermission_decides [OF assms] by (simp add: decide_def)

theorem check_decides_witness:
  "fst (evaluatePermission 0 demo (demo_request ''view'') None) = Inr True \<and>
   fst (evaluatePermission 0 demo (demo_request ''read'') (Some ''a.b'')) = Inr True"
  using check_decides [OF _ demo_candidates(1), of None] check_decides [OF _ demo_candidates(2), of "Some ''a.b''"]
  by (simp add: demo_request_def verdict_defs IsExpiredAt_def IsActiveAt_def grantMatchesRequest_iff
      grantMatchesFieldPath_def)

text \<open>C2. The check fails closed: a positive answer means that a permission was named, every read of
  the candidates succeeded, some candidate allows the request and no candidate vetoes it.\<close>

theorem check_fails_closed:
  assumes "fst (evaluatePermission now s req fieldPath) = Inr True"
  shows "rq_Perm req \<noteq> '''' \<and> (\<exists>gs. candidate_grants now s req = Inr gs \<and>
    (\<exists>g \<in> set gs. allows now req fieldPath g) \<and> (\<forall>g \<in> set gs. \<not> vetoes now req fieldPath g))"
proof -
  obtain gs where gs: "candidate_grants now s req = Inr gs"
    using evaluatePermission_allowed(2) [OF assms] by blast
  with evaluatePermission_allowed(1) [OF assms] assms evaluatePermission_decides show ?thesis
    by (fastforce simp: decide_def)
qed

lemma demo_check:
  "fst (evaluatePermission 0 demo (demo_request ''view'') None) = Inr True"
  "fst (evaluatePermission 0 demo (demo_request ''read'') None) = Inr True"
  using evaluatePermission_decides [OF _ demo_candidates(1)] evaluatePermission_decides [OF _ demo_candidates(2)]
  by (simp_all add: demo_request_def decide_def verdict_defs IsExpiredAt_def IsActiveAt_def
      grantMatchesRequest_iff grantMatchesFieldPath_def)

theorem check_fails_closed_witness:
  "\<exists>gs. candidate_grants 0 demo (demo_request ''view'') = Inr gs \<and>
    (\<exists>g \<in> set gs. allows 0 (demo_request ''view'') None g)"
  using check_fails_closed [OF demo_check(1)] by blast

text \<open>C3. A check writes nothing but the cache of disabled roles, and that only when the cached entry
  had run out: then it holds what the store lists now, from now on. As long as nothing else changes
  the store, no answer tells whether the check was made: from the same instant on, every request
  has the same candidates and the same answer, and every role the same expansion.\<close>

theorem check_keeps_view:
  assumes "evaluatePermission now s req fieldPath = (r, s')" "now \<le> later"
  shows "(s' = s \<or> cached_disabled now s = None \<and>
      (\<exists>ds. op_DisabledBuiltInRoles (sv_ops s) (sv_store s) = Inr ds \<and>
        s' = s\<lparr>sv_disabledCache := Some (set ds), sv_disabledCacheAt := Some now\<rparr>)) \<and>
    candidate_grants later s' = candidate_grants later s \<and>
    expand_view later s' = expand_view later s \<and>
    (\<forall>req' fieldPath'. fst (evaluatePermission later s' req' fieldPath') = fst (evaluatePermission later s req' fieldPath'))"
proof -
  have view: "same_view now s s'"
    using evaluatePermission_same_view [of now s req fieldPath] assms(1) by simp
  then have alike: "alike later s s'" by (rule same_view_alike [OF assms(2)])
  from view refresh_cases [of now s] alike_candidates(2) [OF alike] alike_view(2) [OF alike]
    evaluatePermission_alike [OF alike, symmetric]
  show ?thesis by (auto simp: same_view_def)
qed

theorem check_keeps_view_witness:
  "\<exists>r s'. evaluatePermission 0 demo (demo_request ''view'') None = (r, s') \<and>
    fst (evaluatePermission 7000000000 s' (demo_request ''read'') None) =
      fst (evaluatePermission 7000000000 demo (demo_request ''read'') None)"
proof -
  obtain r s' where run: "evaluatePermission 0 demo (demo_request ''view'') None = (r, s')" by fastforce
  from check_keeps_view [OF run, of 7000000000] run show ?thesis by simp
qed

text \<open>C4. Filtering a list of fields keeps, in order and once each, exactly the fields on which the
  user has the permission.\<close>

theorem filter_fields_correct:
  assumes "rq_Perm req \<noteq> ''''" "candidate_grants now s req = Inr gs"
    and "\<forall>p \<in> set paths. \<not> isIndexedFieldPath p \<and> TrimSpace p \<noteq> ''''"
  shows "\<exists>permitted. fst (FilterPermittedFields now s req paths) = Inr permitted \<and> distinct permitted \<and>
    (\<forall>p. p \<in> set permitted \<longleftrightarrow> p \<in> set paths \<and> fst (HasFieldPermission now s req p) = Inr True)"
  using FilterPermittedFields_decides [OF assms] HasFieldPermission_decides [OF assms(1,2)] assms(3)
  by (auto simp: distinct_fold_push_new set_fold_push_new)

theorem filter_fields_correct_witness:
  "\<exists>permitted. fst (FilterPermittedFields 0 demo (demo_request ''read'') [''name'', ''name'']) = Inr permitted \<and>
    distinct permitted"
  using filter_fields_correct [OF _ demo_candidates(2), of "[''name'', ''name'']"]
  by (auto simp: demo_request_def TrimSpace_printable printable_def isIndexedFieldPath_def is_digit_def)

text \<open>C5. Fields nest: permission on a field gives permission on every field around it and the
  permission itself, so restricting a field restricts everything under it.\<close>

theorem field_permission_nested:
  assumes "rq_Perm req \<noteq> ''''" "candidate_grants now s req = Inr gs"
    and "clean p" "clean (p @ ''.'' @ q)"
    and "fst (evaluatePermission now s req (Some (p @ ''.'' @ q))) = Inr True"
  shows "fst (evaluatePermission now s req (Some p)) = Inr True \<and> fst (HasPermission now s req) = Inr True"
proof -
  have "decide now req (Some (p @ ''.'' @ q)) (set gs)"
    using assms evaluatePermission_decides [OF assms(1,2)] by simp
  then have "decide now req (Some p) (set gs)" using assms(3,4) decide_enclosing_field by blast
  then show ?thesis
    using decide_field_permission evaluatePermission_decides [OF assms(1,2)]
    by (auto simp: HasPermission_def)
qed

lemma demo_field_check: "fst (evaluatePermission 0 demo (demo_request ''read'') (Some p)) = Inr True"
  using evaluatePermission_decides [OF _ demo_candidates(2)]
  by (simp add: demo_request_def decide_def verdict_defs IsExpiredAt_def IsActiveAt_def
      grantMatchesRequest_iff grantMatchesFieldPath_def)

theorem field_permission_nested_witness:
  "fst (HasPermission 0 demo (demo_request ''read'')) = Inr True"
proof -
  have "clean ''a''" "clean (''a'' @ ''.'' @ ''b'')"
    using clean_TrimSpace [of "''a''"] clean_TrimSpace [of "''a.b''"]
    by (simp_all add: TrimSpace_printable printable_def)
  then show ?thesis
    using field_permission_nested [OF _ demo_candidates(2) _ _ demo_field_check, of "''a''" "''b''"]
    by (simp add: demo_request_def)
qed

section \<open>Granting and denying\<close>

text \<open>C6. Denying a user something never gives anyone a permission: whatever is allowed after
  \<open>DenyUser\<close> was allowed before.\<close>

theorem deny_never_grants:
  assumes "service_reachable s" "DenyUser s userID permission objectID = (None, s')"
    and "fst (evaluatePermission now s' req fieldPath) = Inr True"
  shows "fst (evaluatePermission now s req fieldPath) = Inr True"
proof -
  have ops: "sv_ops s = bootstrap_ops"
    using reachable_wf_service [OF assms(1)] by (simp add: wf_service_def wf_stored_def)
  have "s' = with_grant s (new_grant PrincipalUser userID EffectDeny ''*'' objectID permission None)"
    using CreateGrant_with_grant(1) [OF ops _ _ assms(2) [unfolded DenyUser_def]] by simp
  with assms(3) show ?thesis by (intro deny_only_takes [OF ops]) simp_all
qed

definition demo_denied :: boot_service where
  "demo_denied = snd (DenyUser demo ''alice'' ''secret'' None)"

lemma demo_denied_call: "DenyUser demo ''alice'' ''secret'' None = (None, demo_denied)"
  by (simp add: demo_denied_def DenyUser_def service_CreateGrant_def demo_wf bootstrap_CreateGrant_def
      check_grant_def)

lemma demo_denied_check: "fst (evaluatePermission 0 demo_denied (demo_request ''read'') None) = Inr True"
proof -
  let ?g = "new_grant PrincipalUser ''alice'' EffectDeny ''*'' None ''secret'' None"
  have "demo_denied = with_grant demo ?g"
    using CreateGrant_with_grant(1) [OF demo_wf(2) _ _ demo_denied_call [unfolded DenyUser_def]] by simp
  moreover obtain gs' where "candidate_grants 0 (with_grant demo ?g) (demo_request ''read'') = Inr gs'"
    "set gs' = set [new_grant PrincipalUser ''alice'' EffectAllow ''*'' None ''read'' None] \<union>
      (if adds_candidate 0 (demo_request ''read'') ?g then {?g} else {})"
    by (rule candidates_with_grant_known [OF demo_wf(2) _ _ demo_candidates(2), of ?g]) simp_all
  ultimately show ?thesis
    using evaluatePermission_decides [of "demo_request ''read''" 0 demo_denied gs' None]
    by (simp add: demo_request_def adds_candidate_def perm_filter_def decide_def verdict_defs
        IsExpiredAt_def IsActiveAt_def grantMatchesRequest_iff grantMatchesFieldPath_def)
qed

theorem deny_never_grants_witness:
  "fst (evaluatePermission 0 demo (demo_request ''read'') None) = Inr True"
  by (rule deny_never_grants [OF demo_reachable demo_denied_call demo_denied_check])

text \<open>C7. A deny without an object scope settles the matter: right after \<open>DenyUser\<close> no request of
  that user for that permission is allowed, whatever teams, objects, fields, roles or other grants
  are involved.\<close>

theorem deny_settles_requests:
  assumes "service_reachable s" "DenyUser s userID permission None = (None, s')"
    and "rq_UserID req = userID" "rq_Perm req = permission"
  shows "fst (evaluatePermission now s' req fieldPath) \<noteq> Inr True"
proof -
  let ?g = "new_grant PrincipalUser userID EffectDeny ''*'' None permission None"
  have ops: "sv_ops s = bootstrap_ops"
    using reachable_wf_service [OF assms(1)] by (simp add: wf_service_def wf_stored_def)
  have call: "service_CreateGrant s ?g = (None, s')" using assms(2) by (simp add: DenyUser_def)
  have "s' = with_grant s ?g" "userID \<noteq> ''''"
    using CreateGrant_with_grant(1,2) [OF ops _ _ call] by simp_all
  then show ?thesis using deny_settles [OF ops refl assms(3,4)] by simp
qed

theorem deny_settles_requests_witness:
  "fst (evaluatePermission 0 demo_denied (demo_request ''secret'') None) \<noteq> Inr True"
  by (rule deny_settles_requests [OF demo_reachable demo_denied_call]) (simp_all add: demo_request_def)

text \<open>C8. Allowing a user something is effective at once and takes nothing away: after \<open>AllowUser\<close>
  without an object scope the user has the permission unless a candidate vetoed it before, and every
  request that was allowed still is.\<close>

theorem allow_is_effective:
  assumes "service_reachable s" "AllowUser s userID permission None = (None, s')"
    and "rq_UserID req = userID" "rq_Perm req = permission"
    and "candidate_grants now s req = Inr gs" "\<forall>g \<in> set gs. \<not> vetoes now req fieldPath g"
  shows "fst (evaluatePermission now s' req fieldPath) = Inr True"
proof -
  let ?g = "new_grant PrincipalUser userID EffectAllow ''*'' None permission None"
  have ops: "sv_ops s = bootstrap_ops"
    using reachable_wf_service [OF assms(1)] by (simp add: wf_service_def wf_stored_def)
  have call: "service_CreateGrant s ?g = (None, s')" using assms(2) by (simp add: AllowUser_def)
  have s': "s' = with_grant s ?g" "userID \<noteq> ''''" "permission \<noteq> ''''"
    using CreateGrant_with_grant [OF ops _ _ call] by simp_all
  have live: "adds_candidate now req ?g" "allows now req fieldPath ?g"
    using assms(3,4) s'(2) by (auto simp: adds_candidate_def perm_filter_def scope_filter_def scopeMatches_def
        verdict_defs IsExpiredAt_def IsActiveAt_def grantMatchesRequest_iff grantMatchesFieldPath_def
        split: option.split)
  show ?thesis
    unfolding s'(1) by (rule allow_answers [OF ops _ _ live _ assms(5,6)]) (use assms(4) s' in simp_all)
qed

lemma demo_allowed_call: "\<exists>s'. AllowUser demo ''alice'' ''read'' None = (None, s')"
  by (simp add: AllowUser_def service_CreateGrant_def demo_wf bootstrap_CreateGrant_def check_grant_def)

theorem allow_is_effective_witness:
  "\<exists>s'. AllowUser demo ''alice'' ''read'' None = (None, s') \<and>
    fst (evaluatePermission 0 s' (demo_request ''read'') None) = Inr True"
proof -
  obtain s' where s': "AllowUser demo ''alice'' ''read'' None = (None, s')" using demo_allowed_call by blast
  have "fst (evaluatePermission 0 s' (demo_request ''read'') None) = Inr True"
    by (rule allow_is_effective [OF demo_reachable s' _ _ demo_candidates(2)])
      (simp_all add: demo_request_def verdict_defs)
  with s' show ?thesis by blast
qed

text \<open>A temporary grant ends: from its expiry on, a grant made with \<open>AllowUserFor\<close> changes the
  answer to no request.\<close>

lemma temporary_grant_ends:
  assumes "service_reachable s" "AllowUserFor start s userID permission objectID ttl = (None, s')"
    and "start + ttl \<le> now" "rq_Perm req \<noteq> ''''" "candidate_grants now s req = Inr gs"
  shows "fst (evaluatePermission now s' req fieldPath) = fst (evaluatePermission now s req fieldPath)"
proof -
  let ?g = "new_grant PrincipalUser userID EffectAllow ''*'' objectID permission (Some (start + ttl))"
  have ops: "sv_ops s = bootstrap_ops"
    using reachable_wf_service [OF assms(1)] by (simp add: wf_service_def wf_stored_def)
  have call: "service_CreateGrant s ?g = (None, s')"
    using assms(2) by (simp add: AllowUserFor_def AllowUserUntil_def split: if_splits)
  have s': "s' = with_grant s ?g" using CreateGrant_with_grant(1) [OF ops _ _ call] by simp
  show ?thesis
    unfolding s' using assms(3-5)
    by (intro expired_is_inert [OF ops]) (simp_all add: IsExpiredAt_def IsActiveAt_def)
qed

section \<open>The service over time\<close>

text \<open>C10. Whatever a service on the default store has run since \<open>New\<close> - writes, configuration calls
  (\<open>SetStore\<close> to another well-formed default store included) and reads that refresh the cache, each
  succeeding or failing at any instants - its registry and its store are well formed, and at every
  instant the roles it treats as disabled are those the store lists: as long as only the service
  writes its store, the five-second cache is never stale.\<close>

theorem service_stays_consistent:
  assumes "service_reachable s"
  shows "wf_registry (sv_builtIns s) \<and> wf_bootstrap (sv_store s) \<and>
    disabled_view now s = set (bs_disabledBuiltInRoles (sv_store s))"
  using reachable_wf_service [OF assms] disabled_view_now
  by (simp add: wf_service_def wf_builtIns_def wf_stored_def disabled_now_def)

theorem service_stays_consistent_witness: "wf_registry (sv_builtIns demo) \<and> wf_bootstrap demo_store"
  using service_stays_consistent [OF demo_reachable] by (simp add: demo_wf)

text \<open>C11. Disabling takes effect at once: right after \<open>DisableBuiltInRole\<close> no assignment contributes
  a grant of the disabled role to any request, and \<open>EnableBuiltInRole\<close> lifts exactly this.\<close>

theorem disabled_role_contributes_nothing:
  assumes "service_reachable s" "service_DisableBuiltInRole s r = (None, s')"
  shows "disabled_view now s' = insert r (disabled_view now s) \<and>
    (\<forall>req a cs. assignment_grants now s' req a = Inr cs \<longrightarrow>
       (\<forall>g \<in> set cs. gr_OwnerKind g = PrincipalRole \<longrightarrow> gr_OwnerID g \<noteq> r)) \<and>
    disabled_view now (snd (service_EnableBuiltInRole s' r)) = disabled_view now s - {r}"
proof -
  have wf: "wf_stored s" using reachable_wf_service [OF assms(1)] by (simp add: wf_service_def)
  then have wf': "wf_stored s'" using assms(2) by (rule wf_stored_toggle(1))
  then have wf'': "wf_stored (snd (service_EnableBuiltInRole s' r))"
    by (rule wf_stored_toggle(2)) (rule prod.collapse [symmetric])
  note views = disabled_view_now [OF wf] disabled_view_now [OF wf'] disabled_view_now [OF wf'']
  have disabled: "disabled_view now s' = insert r (disabled_view now s)" "r \<noteq> ''''"
    using assms(2) wf_stored_ops [OF wf]
    by (auto simp: views disabled_now_def service_DisableBuiltInRole_bootstrap split: if_splits)
  have "gr_OwnerID g \<noteq> r"
    if contributed: "assignment_grants now s' req a = Inr cs" "g \<in> set cs" "gr_OwnerKind g = PrincipalRole"
    for req a cs g
  proof -
    obtain ids where "expand_view now s' (ra_RoleID a) = Inr ids" "gr_OwnerID g \<in> set ids"
      by (rule assignment_grants_owner [OF contributed])
    then show ?thesis using disabled_role_not_expanded [of now s' "ra_RoleID a" ids r] disabled(1) by auto
  qed
  moreover have "disabled_now (snd (service_EnableBuiltInRole s' r)) = disabled_now s' - {r}"
    using disabled(2) by (simp add: service_EnableBuiltInRole_bootstrap [OF wf_stored_ops [OF wf']] disabled_now_def)
  then have "disabled_view now (snd (service_EnableBuiltInRole s' r)) = disabled_view now s - {r}"
    using disabled(1) unfolding views by blast
  ultimately show ?thesis using disabled(1) by blast
qed

theorem disabled_role_contributes_nothing_witness:
  "\<exists>s'. service_DisableBuiltInRole demo ''builtin.public'' = (None, s') \<and> ''builtin.public'' \<in> disabled_view 0 s'"
proof -
  obtain s' where s': "service_DisableBuiltInRole demo ''builtin.public'' = (None, s')"
    by (simp add: service_DisableBuiltInRole_bootstrap demo_wf)
  with disabled_role_contributes_nothing [OF demo_reachable s', of 0] show ?thesis by auto
qed

section \<open>Role inheritance\<close>

text \<open>C12. As long as no role was deleted, expanding roles in the default store yields each reachable
  role once: the maintained closure is the reflexive transitive closure of the recorded edges.\<close>

theorem expansion_is_reachability:
  assumes "bootstrap_reachable not_delete_role st" "\<forall>r \<in> set ids. clean r \<and> r \<noteq> ''''"
  shows "\<exists>rs. bootstrap_ExpandRoles st ids = Inr rs \<and> distinct rs \<and>
    set rs = (inh_edges (bs_roleInheritance st))\<^sup>* `` set ids"
  using bootstrap_roles.expand_reachable [OF bootstrap_reachable_closure_ok [OF assms(1)] assms(2)] by simp

definition demo_chain :: bootstrap_store where
  "demo_chain = snd (bootstrap_AddRoleInheritance (snd (bootstrap_AddRoleInheritance
     (snd (bootstrap_CreateRole newBootstrapStore (zero_role\<lparr>ro_ID := ''b'', ro_Name := ''B''\<rparr>)))
     ''a'' ''b'')) ''b'' ''c'')"

lemma demo_chain_reachable: "bootstrap_reachable not_delete_role demo_chain"
proof -
  have edge: "bootstrap_reachable not_delete_role st \<Longrightarrow>
      bootstrap_reachable not_delete_role (snd (bootstrap_AddRoleInheritance st p c))" for st p c
    by (rule bootstrap_reachable.step [OF _ _ bootstrap_step.add_inheritance [where p = p and c = c]])
      (simp_all add: prod_eq_iff not_delete_role_def)
  have role: "bootstrap_reachable not_delete_role st \<Longrightarrow>
      bootstrap_reachable not_delete_role (snd (bootstrap_CreateRole st r))" for st r
    by (rule bootstrap_reachable.step [OF _ _ bootstrap_step.create_role [where r = r]])
      (simp_all add: prod_eq_iff not_delete_role_def)
  show ?thesis unfolding demo_chain_def by (intro edge role bootstrap_reachable.start)
qed

lemma demo_chain_trim: "TrimSpace ''a'' = ''a''" "TrimSpace ''b'' = ''b''" "TrimSpace ''c'' = ''c''"
  by (simp_all add: TrimSpace_printable printable_def)

theorem expansion_is_reachability_witness:
  "\<exists>rs. bootstrap_ExpandRoles demo_chain [''a''] = Inr rs \<and>
    set rs = (inh_edges (bs_roleInheritance demo_chain))\<^sup>* `` {''a''}"
proof -
  have "clean ''a''" using clean_TrimSpace [of "''a''"] by (simp add: demo_chain_trim)
  with expansion_is_reachability [OF demo_chain_reachable, of "[''a'']"] show ?thesis by auto
qed

text \<open>C13. Deleting a role removes its definition and its assignments, and no other definition or
  assignment. A list of roles then expands to what the other roles on the list expanded to before,
  without the deleted role: what they reached only through the deleted role stays. A list that names
  the deleted role itself still gets it back, but what only that entry led to is gone.\<close>

theorem delete_role_effect:
  assumes "bootstrap_DeleteRole st r = (None, st')"
  shows "(\<exists>e. bootstrap_RoleDefinition st' r = Inl e) \<and>
    (\<forall>x. x \<noteq> r \<longrightarrow> bootstrap_RoleDefinition st' x = bootstrap_RoleDefinition st x) \<and>
    (\<forall>who. principal_roles st' who = filter (\<lambda>a. ra_RoleID a \<noteq> r) (principal_roles st who)) \<and>
    (\<forall>ids. \<exists>rs rs'. bootstrap_ExpandRoles st (filter (\<lambda>i. TrimSpace i \<noteq> r) ids) = Inr rs \<and>
       bootstrap_ExpandRoles st' ids = Inr rs' \<and>
       set rs' = (set rs - {r}) \<union> (if r \<in> TrimSpace ` set ids then {r} else {}))"
proof -
  have r: "r \<noteq> ''''" and st': "st' = st\<lparr>bs_roles := AList.delete r (bs_roles st),
        bs_roleInheritance := drop_role r (bs_roleInheritance st),
        bs_roleClosure := drop_role r (bs_roleClosure st),
        bs_assignments := map (\<lambda>(key, as). (key, filter (\<lambda>a. ra_RoleID a \<noteq> r) as)) (bs_assignments st)\<rparr>"
    using assms by (simp_all add: bootstrap_DeleteRole_def split: if_splits)
  have "expansion (drop_role r clo) ids = (expansion clo (filter (\<lambda>i. TrimSpace i \<noteq> r) ids) - {r}) \<union>
      (if r \<in> TrimSpace ` set ids then {r} else {})" for clo ids
  proof -
    have member: "x \<in> expansion c js \<longleftrightarrow> (\<exists>i \<in> set js. TrimSpace i \<noteq> '''' \<and>
        (x = TrimSpace i \<or> x \<in> set (lookup_set c (TrimSpace i))))" for x c js
      by (auto simp: expansion_def)
    have "x \<in> expansion (drop_role r clo) ids \<longleftrightarrow> x \<noteq> r \<and> x \<in> expansion clo (filter (\<lambda>i. TrimSpace i \<noteq> r) ids) \<or>
        x = r \<and> r \<in> TrimSpace ` set ids" for x
      using r by (cases "x = r") (auto simp: member lookup_drop_role split: if_splits)
    then show ?thesis by auto
  qed
  then show ?thesis
    by (auto simp: st' bootstrap_RoleDefinition_def bootstrap_ExpandRoles_def set_expand_roles
        principal_roles_def lookup_set_map_snd delete_conv' split: option.splits)
qed

text \<open>The instance is a chain a, b, c of which the middle role is deleted: c stays in the expansion of
  a although no edge leads out of a any more.\<close>

theorem delete_role_effect_witness:
  "\<exists>st' rs rs2. bootstrap_DeleteRole demo_chain ''b'' = (None, st') \<and> bootstrap_ExpandRoles st' [''a''] = Inr rs \<and>
    ''c'' \<in> set rs \<and> bootstrap_ExpandRoles st' [''b''] = Inr rs2 \<and> set rs2 = {''b''} \<and>
    inh_edges (bs_roleInheritance st') = {}"
proof -
  have chain: "bs_roleInheritance demo_chain = [(''a'', [''b'']), (''b'', [''c''])]"
    "bs_roleClosure demo_chain = [(''b'', [''c'', ''b'']), (''a'', [''c'', ''b'', ''a'']), (''c'', [''c''])]"
    "bs_roles demo_chain = [(''b'', zero_role\<lparr>ro_ID := ''b'', ro_Name := ''B''\<rparr>)]"
    unfolding demo_chain_def by code_simp+
  obtain st' where st': "bootstrap_DeleteRole demo_chain ''b'' = (None, st')"
    using chain(3) by (auto simp: bootstrap_DeleteRole_def)
  note expand = delete_role_effect [OF st', THEN conjunct2, THEN conjunct2, THEN conjunct2, rule_format]
  obtain rs where rs: "bootstrap_ExpandRoles st' [''a''] = Inr rs" "''c'' \<in> set rs"
    using expand [of "[''a'']"]
    by (auto simp: bootstrap_ExpandRoles_def chain expand_roles_def expand_step_def demo_chain_trim
        push_new_def lookup_set_def)
  obtain rs2 where rs2: "bootstrap_ExpandRoles st' [''b''] = Inr rs2" "set rs2 = {''b''}"
    using expand [of "[''b'']"] by (auto simp: bootstrap_ExpandRoles_def expand_roles_def demo_chain_trim)
  have "inh_edges (bs_roleInheritance st') = {}"
    using st' chain(1,3) by (auto simp: bootstrap_DeleteRole_def inh_edges_def drop_role_def lookup_set_def
        split: if_splits)
  with st' rs rs2 show ?thesis by blast
qed

section \<open>Grants and the registry\<close>

text \<open>The built-in registry keeps one grant per equivalence class: adding a grant succeeds at most
  once in changing the registry, and afterwards the registry holds exactly one equivalent grant.\<close>

lemma registry_grant_once:
  assumes "wf_registry reg" "wf_grant g" "builtIn_AddGrant reg g = (None, reg')"
  shows "builtIn_AddGrant reg' g = (None, reg') \<and> wf_registry reg' \<and>
    length (filter (grantsEquivalent (if gr_TeamScope g = '''' then g\<lparr>gr_TeamScope := ''*''\<rparr> else g)) (bi_grants reg')) = 1"
proof -
  define g' where "g' = (if gr_TeamScope g = '''' then g\<lparr>gr_TeamScope := ''*''\<rparr> else g)"
  have wf: "wf_grant g'" using assms(2) by (auto simp: g'_def wf_grant_def)
  have wf': "wf_registry reg'" by (rule wf_registry_AddGrant [OF assms])
  then have stored: "\<forall>x \<in> set (bi_grants reg'). wf_grant x" by (auto simp: wf_registry_def)
  have "length (filter (grantsEquivalent g') (bi_grants reg')) \<le> 1"
    using wf' stored by (intro equivalent_at_most_once [OF wf]) (auto simp: wf_registry_def)
  moreover obtain x where x: "x \<in> set (bi_grants reg')" "grantsEquivalent x g'"
    using builtIn_AddGrant_present [OF assms(2,3)] unfolding g'_def by blast
  then have "grantsEquivalent g' x" using wf stored by (simp add: grantsEquivalent_sym)
  with x(1) have "filter (grantsEquivalent g') (bi_grants reg') \<noteq> []" by (auto simp: filter_empty_conv)
  ultimately have "length (filter (grantsEquivalent g') (bi_grants reg')) = 1"
    by (cases "filter (grantsEquivalent g') (bi_grants reg')") auto
  then show ?thesis
    using builtIn_AddGrant_twice [OF assms(2,3)] wf' unfolding g'_def by blast
qed

text \<open>C15. Equivalent grants are interchangeable: they allow and veto the same requests and their
  variables resolve under the same bindings.\<close>

theorem equivalent_grants_interchangeable:
  assumes "wf_grant g" "wf_grant h" "grantsEquivalent g h"
  shows "allows now req fieldPath g = allows now req fieldPath h \<and>
    vetoes now req fieldPath g = vetoes now req fieldPath h \<and>
    ((\<exists>g'. resolveGrantBindings g b = Inr g') \<longleftrightarrow> (\<exists>h'. resolveGrantBindings h b = Inr h'))"
proof -
  note eq = grantsEquivalent_iff [OF assms(1,2), THEN iffD1, OF assms(3)]
  have verdicts: "allows now req fieldPath g = allows now req fieldPath h"
    "vetoes now req fieldPath g = vetoes now req fieldPath h"
    using grantsEquivalent_fields [OF assms] by (simp_all add: verdict_defs)
  have "(\<exists>g'. resolveGrantBindings g b = Inr g') \<longleftrightarrow> (\<exists>h'. resolveGrantBindings h b = Inr h')"
  proof (cases "gr_VariableSpec g")
    case None
    with eq have "gr_VariableSpec h = None" by (auto simp: spec_map_def)
    with None show ?thesis by simp
  next
    case (Some gs)
    with eq obtain hs where hs: "gr_VariableSpec h = Some hs" "map_of gs = map_of hs"
      by (cases "gr_VariableSpec h") (auto simp: spec_map_def)
    show ?thesis
    proof (cases "gs = []")
      case True
      with hs have "hs = []" by (cases hs) (auto simp: fun_eq_iff split: if_splits)
      with True Some hs(1) show ?thesis by (simp add: resolveGrantBindings_def)
    next
      case False
      with hs(2) have "hs \<noteq> []" by (cases gs) (auto simp: fun_eq_iff split: if_splits)
      moreover have "resolvable g bv = resolvable h bv" for bv
        using eq hs Some by (simp add: resolvable_def)
      ultimately show ?thesis
        using eq resolveGrantBindings_Inr [OF assms(1) Some False] resolveGrantBindings_Inr [OF assms(2) hs(1)]
        by simp
    qed
  qed
  with verdicts show ?thesis by blast
qed

theorem equivalent_grants_interchangeable_witness:
  "allows 0 (demo_request ''read'') None (new_grant PrincipalUser ''alice'' EffectAllow ''*'' None ''read'' None
       \<lparr>gr_ID := 7, gr_RestrictedFields := [''a'', ''b'']\<rparr>) =
   allows 0 (demo_request ''read'') None (new_grant PrincipalUser ''alice'' EffectAllow ''*'' None ''read'' None
       \<lparr>gr_RestrictedFields := [''b'', ''a'']\<rparr>)"
proof -
  let ?g = "new_grant PrincipalUser ''alice'' EffectAllow ''*'' None ''read'' None"
  have wf: "wf_grant (?g\<lparr>gr_ID := 7, gr_RestrictedFields := [''a'', ''b'']\<rparr>)"
    "wf_grant (?g\<lparr>gr_RestrictedFields := [''b'', ''a'']\<rparr>)" by (simp_all add: wf_grant_def)
  have "grantsEquivalent (?g\<lparr>gr_ID := 7, gr_RestrictedFields := [''a'', ''b'']\<rparr>)
      (?g\<lparr>gr_RestrictedFields := [''b'', ''a'']\<rparr>)"
    by (simp add: grantsEquivalent_iff [OF wf] add_mset_commute)
  from equivalent_grants_interchangeable [OF wf this] show ?thesis by blast
qed

text \<open>The text key of a principal determines the principal: parsing it returns the kind and the
  ID, colons in the ID included.\<close>

lemma principal_key_roundtrip:
  assumes "PrincipalRef_Validate who = None"
  shows "parsePrincipalKey (principalKey who) = Inr who"
  using assms by (simp add: parse_principalKey PrincipalRef_Validate_None)

section \<open>Permission objects\<close>

text \<open>C33. A permission object that asks the service answers what the service decides: \<open>Can\<close> is exactly a
  positive check, and \<open>Any\<close>, \<open>All\<close>, \<open>Filter\<close> and \<open>HierarchicalFilter\<close>, whose loops ask the service one
  item after the other and stop early, agree with \<open>Can\<close> on every item in the state they began with,
  although each question may refresh the cache of disabled roles that the next one reads.
  \<open>AllowedTeams\<close> never gets an answer from the service.\<close>

theorem permission_lists_agree:
  assumes "pm_checker p = Some (service_checker now)" "GetSubjectID s subj = Inr userID"
  shows
    "(fst (team_Can p s subj teamID) \<longleftrightarrow>
        fst (HasPermission now s (zero_request\<lparr>rq_UserID := userID, rq_TeamID := teamID, rq_Perm := pm_id p\<rparr>)) = Inr True) \<and>
     (fst (team_Any p s subj teamIDs) \<longleftrightarrow> (\<exists>t \<in> set teamIDs. fst (team_Can p s subj t))) \<and>
     (fst (team_All p s subj teamIDs) \<longleftrightarrow> (\<forall>t \<in> set teamIDs. fst (team_Can p s subj t))) \<and>
     fst (team_Filter p s subj teamIDs) = filter (\<lambda>t. fst (team_Can p s subj t)) teamIDs \<and>
     (fst (object_Can p s subj obj team) \<longleftrightarrow> obj \<noteq> '''' \<and>
        fst (HasPermission now s \<lparr>rq_UserID = userID, rq_TeamID = (case team of None \<Rightarrow> '''' | Some t \<Rightarrow> t), rq_Object = obj, rq_Perm = pm_id p\<rparr>) = Inr True) \<and>
     (fst (object_Any p s subj team objs) \<longleftrightarrow> (\<exists>i \<in> set objs. fst (object_Can p s subj i team))) \<and>
     (fst (object_All p s subj team objs) \<longleftrightarrow> (\<forall>i \<in> set objs. fst (object_Can p s subj i team))) \<and>
     fst (object_Filter p s subj team objs) = filter (\<lambda>i. fst (object_Can p s subj i team)) objs \<and>
     fst (HierarchicalFilter p s subj team leaves path) =
       filter (\<lambda>leaf. fst (object_CanHierarchical p s subj team leaf path)) leaves \<and>
     team_AllowedTeams p s subj = (Inl (Errorf ''underlying checker does not support AllowedTeamsForUser'' []), s)"
proof -
  note subject = for_subject_service [OF assms]
  note ask = service_checks.ask_stable(1) [OF assms(1)]
  note team = service_checks.steady_team [OF assms(1), of userID]
  note object = service_checks.steady_object [OF assms(1), of userID team]
  note hierarchy = service_checks.steady_hierarchy [OF assms(1), of userID team path]
  note loops = service_checks.any_of_steady service_checks.all_of_steady service_checks.filter_of_steady
  have teams: "fst (team_Any p s subj teamIDs) \<longleftrightarrow> (\<exists>t \<in> set teamIDs. fst (team_Can p s subj t))"
    "fst (team_All p s subj teamIDs) \<longleftrightarrow> (\<forall>t \<in> set teamIDs. fst (team_Can p s subj t))"
    "fst (team_Filter p s subj teamIDs) = filter (\<lambda>t. fst (team_Can p s subj t)) teamIDs"
    by (simp_all add: subject team_Can_def team_Any_def team_All_def team_Filter_def loops [OF team])
  have objects: "fst (object_Any p s subj team objs) \<longleftrightarrow> (\<exists>i \<in> set objs. fst (object_Can p s subj i team))"
    "fst (object_All p s subj team objs) \<longleftrightarrow> (\<forall>i \<in> set objs. fst (object_Can p s subj i team))"
    "fst (object_Filter p s subj team objs) = filter (\<lambda>i. fst (object_Can p s subj i team)) objs"
    by (simp_all add: subject object_Can_def object_Any_def object_All_def object_Filter_def loops [OF object])
  have paths: "fst (HierarchicalFilter p s subj team leaves path) =
      filter (\<lambda>leaf. fst (object_CanHierarchical p s subj team leaf path)) leaves"
    by (simp add: subject HierarchicalFilter_def object_CanHierarchical_def loops [OF hierarchy])
  have single: "fst (team_Can p s subj teamID) \<longleftrightarrow>
      fst (HasPermission now s (zero_request\<lparr>rq_UserID := userID, rq_TeamID := teamID, rq_Perm := pm_id p\<rparr>)) = Inr True"
    "fst (object_Can p s subj obj team) \<longleftrightarrow> obj \<noteq> '''' \<and>
      fst (HasPermission now s \<lparr>rq_UserID = userID, rq_TeamID = (case team of None \<Rightarrow> '''' | Some t \<Rightarrow> t), rq_Object = obj, rq_Perm = pm_id p\<rparr>) = Inr True"
    by (simp_all add: subject team_Can_def object_Can_def team_CanUserID_def object_CanUserID_def ask ensureChecker_def
        assms(1) service_checker_def)
  show ?thesis using single teams objects paths service_AllowedTeams_unsupported [OF assms] by blast
qed

definition demo_permission :: "string \<Rightarrow> bootstrap_store service permission_meta" where
  "demo_permission i = withChecker (newPermissionMeta i ''docs'' ''Docs'' '''') (Some (service_checker 0))"

theorem permission_lists_agree_witness:
  "fst (team_Filter (demo_permission ''read'') demo (SubjectPlain ''alice'') ['''']) = [''''] \<and>
   \<not> fst (object_Any (demo_permission ''read'') demo (SubjectPlain ''alice'') None [''''])"
proof -
  have p: "pm_checker (demo_permission ''read'') = Some (service_checker 0)" "pm_id (demo_permission ''read'') = ''read''"
    by (simp_all add: demo_permission_def withChecker_def newPermissionMeta_def)
  have subject: "GetSubjectID demo (SubjectPlain ''alice'') = Inr ''alice''"
    by (simp add: GetSubjectID_def demo_eq New_eq nonempty_subject_def)
  have "zero_request\<lparr>rq_UserID := ''alice'', rq_TeamID := '''', rq_Perm := ''read''\<rparr> = demo_request ''read''"
    by (simp add: zero_request_def demo_request_def)
  moreover have "fst (HasPermission 0 demo (demo_request ''read'')) = Inr True"
    using demo_check by (simp add: HasPermission_def)
  ultimately show ?thesis
    using permission_lists_agree [OF p(1) subject, where teamID = "''''" and teamIDs = "['''']" and obj = "''''"
        and team = None and objs = "['''']" and leaves = "[]" and path = "[]"] by (simp add: p(2))
qed

section \<open>The default store\<close>

text \<open>C17. The reverse lookup of the default store never fails and agrees with the forward lookup:
  a principal is listed for a role with some bindings exactly if it is assigned the role with them.\<close>

theorem reverse_lookup_complete:
  assumes "bootstrap_reachable allowed st"
  shows "\<exists>hits. bootstrap_RoleAssignmentsForRoleID st roleID = Inr hits \<and>
    (\<forall>h. h \<in> set hits \<longleftrightarrow> rh_RoleID h = roleID \<and>
      (\<exists>as. bootstrap_RoleAssignmentsForPrincipal st (rh_Principal h) = Inr as \<and>
        \<lparr>ra_RoleID = roleID, ra_BindingValues = rh_BindingValues h\<rparr> \<in> set as))"
proof -
  have wf: "wf_bootstrap st" by (rule bootstrap_reachable_wf [OF assms])
  then have "wf_assignments (bs_assignments st)" by (simp add: wf_bootstrap_def)
  then obtain hits where hits: "hits_for_role roleID (bs_assignments st) = Inr hits"
    "\<forall>h. h \<in> set hits \<longleftrightarrow> rh_RoleID h = roleID \<and> PrincipalRef_Validate (rh_Principal h) = None \<and>
      \<lparr>ra_RoleID = roleID, ra_BindingValues = rh_BindingValues h\<rparr>
        \<in> set (lookup_set (bs_assignments st) (principalKey (rh_Principal h)))"
    using hits_for_role_ok by blast
  have forward: "(\<exists>as. bootstrap_RoleAssignmentsForPrincipal st p = Inr as \<and> x \<in> set as) \<longleftrightarrow>
      PrincipalRef_Validate p = None \<and> x \<in> set (lookup_set (bs_assignments st) (principalKey p))" for p x
  proof (cases "PrincipalRef_Validate p")
    case None
    then show ?thesis
      using bootstrap_RoleAssignmentsForPrincipal_eq [OF wf None] by (simp add: principal_roles_def)
  qed (simp add: bootstrap_RoleAssignmentsForPrincipal_def)
  show ?thesis using hits by (simp add: bootstrap_RoleAssignmentsForRoleID_def forward)
qed

theorem reverse_lookup_complete_witness:
  "\<exists>hits. bootstrap_RoleAssignmentsForRoleID demo_chain ''b'' = Inr hits"
  using reverse_lookup_complete [OF demo_chain_reachable, of "''b''"] by blast

text \<open>C18. Assigning and unassigning undo each other: assigning a role that the principal does not hold
  with these bindings adds that one assignment, unassigning it restores the principal's list, and
  neither touches another principal.\<close>

theorem assign_unassign:
  assumes "wf_bootstrap st" "wf_gomap b" "bootstrap_AssignRole st who r builtIns b = (None, st1)"
    and "\<not> (\<exists>a \<in> set (principal_roles st who). ra_RoleID a = r \<and> mapEquals (ra_BindingValues a) b)"
  shows "principal_roles st1 who = principal_roles st who @ [\<lparr>ra_RoleID = r, ra_BindingValues = b\<rparr>] \<and>
    (\<exists>st2. bootstrap_UnassignRole st1 who r builtIns b = (None, st2) \<and>
       principal_roles st2 who = principal_roles st who \<and>
       (\<forall>other. PrincipalRef_Validate other = None \<longrightarrow> other \<noteq> who \<longrightarrow>
          principal_roles st2 other = principal_roles st other))"
proof -
  have copy: "copy_map b = b" using assms(2) by simp
  have valid: "PrincipalRef_Validate who = None" "r \<noteq> ''''"
    using assms(3) by (simp_all add: bootstrap_AssignRole_None)
  note added = principal_roles_AssignRole [OF assms(3)]
  have roles1: "principal_roles st1 who = principal_roles st who @ [\<lparr>ra_RoleID = r, ra_BindingValues = b\<rparr>]"
    using added [OF valid(1)] assms(4) copy by simp
  let ?new = "\<lparr>ra_RoleID = r, ra_BindingValues = b\<rparr>"
  have "\<not> unassign_matches r b a" if "a \<in> set (principal_roles st who)" for a
    using that assms(4) BindingValuesEqual_mapEquals by (auto simp: unassign_matches_def)
  then have kept: "filter (\<lambda>a. \<not> unassign_matches r b a) (principal_roles st1 who) = principal_roles st who"
    using assms(2) by (simp add: roles1 unassign_matches_def)
  have "\<exists>a \<in> set (principal_roles st1 who). unassign_matches r b a"
    using assms(2) by (simp add: roles1 unassign_matches_def)
  then obtain st2 where st2: "bootstrap_UnassignRole st1 who r builtIns b = (None, st2)"
    using valid by (auto simp: bootstrap_UnassignRole_None Let_def)
  note removed = principal_roles_UnassignRole [OF st2]
  have "principal_roles st2 other = principal_roles st other"
    if "PrincipalRef_Validate other = None" "other \<noteq> who" for other
    using removed [OF that(1)] added [OF that(1)] that(2) by simp
  with roles1 st2 removed [OF valid(1)] kept show ?thesis by auto
qed

definition demo_team_binding :: bindings where "demo_team_binding = [(''team'', GString ''42'')]"

theorem assign_unassign_witness:
  "\<exists>st1 st2. bootstrap_AssignRole demo_store demo_alice ''viewer'' [] demo_team_binding = (None, st1) \<and>
    bootstrap_UnassignRole st1 demo_alice ''viewer'' [] demo_team_binding = (None, st2) \<and>
    principal_roles st2 demo_alice = principal_roles demo_store demo_alice"
proof -
  have wf: "wf_bootstrap demo_store" using demo_wf by (simp add: wf_stored_def)
  have b: "wf_gomap demo_team_binding" by (simp add: wf_gomap_def demo_team_binding_def)
  have fresh: "\<not> (\<exists>a \<in> set (principal_roles demo_store demo_alice).
      ra_RoleID a = ''viewer'' \<and> mapEquals (ra_BindingValues a) demo_team_binding)"
    by (simp add: principal_roles_def demo_store_def demo_alice_def principalKey_def PrincipalUser_def lookup_set_def)
  have "fst (bootstrap_AssignRole demo_store demo_alice ''viewer'' [] demo_team_binding) = None" by code_simp
  then obtain st1 where st1: "bootstrap_AssignRole demo_store demo_alice ''viewer'' [] demo_team_binding = (None, st1)"
    by (metis prod.collapse)
  from assign_unassign [OF wf b st1 fresh] st1 show ?thesis by blast
qed

text \<open>The store's filter loses nothing: every stored, unexpired grant of the queried owners that
  the service would match against the request is read (object scopes being non-empty).\<close>

lemma matching_grants_are_read:
  assumes "wf_bootstrap st" "bootstrap_GrantsForOwners now st owners req = Inr gs"
    and "g \<in> set (bs_grants st)" "grant_owner g \<in> set owners" "\<not> IsExpiredAt g now"
    and "grantMatchesRequest g req" "gr_ObjectScope g \<noteq> Some ''''"
  shows "g \<in> set gs"
  using assms by (intro bootstrap.matching_grant_read [of st now owners req gs g]) (auto simp: owned_by_def)

text \<open>What was deleted stays deleted: after \<open>DeleteGrantsForOwner\<close> no read returns a grant of
  the owner, and all other grants are still stored in their order.\<close>

lemma deleted_grants_not_read:
  assumes "wf_bootstrap st" "bootstrap_DeleteGrantsForOwner st kind ownerID = (e, st')"
  shows "e = None \<and> (\<forall>now owners req gs. bootstrap_GrantsForOwners now st' owners req = Inr gs \<longrightarrow>
      (\<forall>g \<in> set gs. \<not> (gr_OwnerKind g = kind \<and> gr_OwnerID g = ownerID))) \<and>
    bs_grants st' = filter (\<lambda>g. \<not> (gr_OwnerKind g = kind \<and> gr_OwnerID g = ownerID)) (bs_grants st)"
  using bootstrap.delete_removes [of st kind ownerID e st'] bootstrap.deleted_is_not_read [of st kind ownerID e st']
    assms by auto

section \<open>Paging\<close>

text \<open>C21. Following the cursors from an empty one returns every matching grant exactly once and in
  order, in at most one page more than there are matching grants.\<close>

theorem paging_covers_all:
  assumes "sane_length (filter (query_matches q) grants)" "gq_Cursor q = ''''"
  shows "walk_pages (Suc (length (filter (query_matches q) grants))) grants q = Some (filter (query_matches q) grants)"
  using walk_pages_from [OF assms(1), of 0 "Suc (length (filter (query_matches q) grants))"] assms(2)
  by (simp del: walk_pages.simps)

definition demo_query :: "string \<Rightarrow> grant_query" where
  "demo_query cursor = \<lparr>gq_Principals = [], gq_TeamScopes = [], gq_ObjectScopes = [], gq_Permissions = [],
     gq_PermissionPrefix = '''', gq_IncludeEffective = False, gq_Limit = 1, gq_Cursor = cursor\<rparr>"

theorem paging_covers_all_witness:
  "walk_pages 3 (bs_grants demo_store) (demo_query '''') = Some (bs_grants demo_store)"
proof -
  have all: "filter (query_matches (demo_query '''')) (bs_grants demo_store) = bs_grants demo_store"
    by (simp add: query_matches_def demo_query_def)
  then have "sane_length (filter (query_matches (demo_query '''')) (bs_grants demo_store))"
    by (simp add: sane_length_def demo_store_def)
  from paging_covers_all [OF this] show ?thesis
    unfolding all by (simp add: demo_query_def demo_store_def eval_nat_numeral del: walk_pages.simps)
qed

text \<open>A negative cursor crashes the listing of grants: any text that reads as a negative number
  makes the slice expression panic, whatever is stored.\<close>

lemma negative_cursor_panics:
  assumes "Atoi (gq_Cursor q) = Some n" "n < 0"
  shows "\<exists>msg. bootstrap_ListGrants st q = Inl (GoPanic msg)"
proof -
  have "gq_Cursor q \<noteq> ''''" using assms(1) by (auto simp: Atoi_def)
  with assms show ?thesis
    by (simp add: bootstrap_ListGrants_def list_grants_def Let_def cursor_offset_def take_page_negative)
qed

end
